theory Spec2Isabelle
  imports Complex_Main "HOL-Library.Word"
begin

section \<open>C doubles as exact reals with the IEEE special values\<close>

text \<open>
  The kernel is compiled with \<^verbatim>\<open>cdivision(True)\<close>: a division by zero raises nothing and yields
  an infinity or a NaN, which then flows through the arithmetic. A C double is therefore
  modelled as an exact real (no rounding) or one of the three special values. Zero is
  unsigned: a finite value divided by zero takes the sign of the numerator.
\<close>

datatype dbl = Fin real | PInf | NInf | NaN

fun is_fin :: "dbl \<Rightarrow> bool" where
  "is_fin (Fin x) = True"
| "is_fin PInf = False"
| "is_fin NInf = False"
| "is_fin NaN = False"

fun dsgn :: "dbl \<Rightarrow> real" where
  "dsgn (Fin x) = sgn x"
| "dsgn PInf = 1"
| "dsgn NInf = - 1"
| "dsgn NaN = 0"

definition inf_of_sign :: "real \<Rightarrow> dbl" where
  "inf_of_sign s = (if s = 0 then NaN else if 0 < s then PInf else NInf)"

instantiation dbl :: "{plus, uminus, times, abs, ord}"
begin

fun uminus_dbl :: "dbl \<Rightarrow> dbl" where
  "uminus_dbl (Fin x) = Fin (- x)"
| "uminus_dbl PInf = NInf"
| "uminus_dbl NInf = PInf"
| "uminus_dbl NaN = NaN"

fun plus_dbl :: "dbl \<Rightarrow> dbl \<Rightarrow> dbl" where
  "plus_dbl (Fin x) (Fin y) = Fin (x + y)"
| "plus_dbl NaN y = NaN"
| "plus_dbl x NaN = NaN"
| "plus_dbl PInf NInf = NaN"
| "plus_dbl NInf PInf = NaN"
| "plus_dbl PInf y = PInf"
| "plus_dbl x PInf = PInf"
| "plus_dbl NInf y = NInf"
| "plus_dbl x NInf = NInf"

fun times_dbl :: "dbl \<Rightarrow> dbl \<Rightarrow> dbl" where
  "times_dbl (Fin x) (Fin y) = Fin (x * y)"
| "times_dbl NaN y = NaN"
| "times_dbl x NaN = NaN"
| "times_dbl x y = inf_of_sign (dsgn x * dsgn y)"

fun abs_dbl :: "dbl \<Rightarrow> dbl" where
  "abs_dbl (Fin x) = Fin \<bar>x\<bar>"
| "abs_dbl PInf = PInf"
| "abs_dbl NInf = PInf"
| "abs_dbl NaN = NaN"

fun less_dbl :: "dbl \<Rightarrow> dbl \<Rightarrow> bool" where
  "less_dbl (Fin x) (Fin y) = (x < y)"
| "less_dbl NaN y = False"
| "less_dbl x NaN = False"
| "less_dbl x NInf = False"
| "less_dbl PInf y = False"
| "less_dbl x y = True"

fun less_eq_dbl :: "dbl \<Rightarrow> dbl \<Rightarrow> bool" where
  "less_eq_dbl (Fin x) (Fin y) = (x \<le> y)"
| "less_eq_dbl NaN y = False"
| "less_eq_dbl x NaN = False"
| "less_eq_dbl NInf y = True"
| "less_eq_dbl x PInf = True"
| "less_eq_dbl x y = False"

instance ..

end

fun ddiv :: "dbl \<Rightarrow> dbl \<Rightarrow> dbl" where
  "ddiv (Fin x) (Fin y) = (if y = 0 then inf_of_sign x else Fin (x / y))"
| "ddiv NaN y = NaN"
| "ddiv x NaN = NaN"
| "ddiv (Fin x) y = Fin 0"
| "ddiv x (Fin y) = inf_of_sign (dsgn x * (if y < 0 then - 1 else 1))"
| "ddiv x y = NaN"

instantiation dbl :: "{minus, inverse}"
begin

definition minus_dbl :: "dbl \<Rightarrow> dbl \<Rightarrow> dbl" where
  "minus_dbl x y = x + (- y)"

definition divide_dbl :: "dbl \<Rightarrow> dbl \<Rightarrow> dbl" where
  "divide_dbl x y = ddiv x y"

definition inverse_dbl :: "dbl \<Rightarrow> dbl" where
  "inverse_dbl x = ddiv (Fin 1) x"

instance ..

end

text \<open>The C comparison \<^verbatim>\<open>==\<close>: a NaN equals nothing, not even itself.\<close>

definition deq :: "dbl \<Rightarrow> dbl \<Rightarrow> bool" where
  "deq x y = (x \<noteq> NaN \<and> y \<noteq> NaN \<and> x = y)"

text \<open>
  The truth value of a C double (\<^verbatim>\<open>if var:\<close>): nonzero, and a NaN is nonzero.
\<close>

definition truthy :: "dbl \<Rightarrow> bool" where
  "truthy x = (x \<noteq> Fin 0)"

text \<open>A C comparison used as a number is 0 or 1.\<close>

definition b2i :: "bool \<Rightarrow> int" where
  "b2i b = (if b then 1 else 0)"

definition of_i :: "int \<Rightarrow> dbl" where
  "of_i k = Fin (of_int k)"

text \<open>
  The builtins \<^verbatim>\<open>min\<close> and \<^verbatim>\<open>max\<close> keep the first argument unless a later one compares
  strictly below (above) the running result.
\<close>

definition cmin :: "dbl \<Rightarrow> dbl \<Rightarrow> dbl" where
  "cmin x y = (if y < x then y else x)"

definition cmax :: "dbl \<Rightarrow> dbl \<Rightarrow> dbl" where
  "cmax x y = (if x < y then y else x)"

definition min4 :: "dbl \<Rightarrow> dbl \<Rightarrow> dbl \<Rightarrow> dbl \<Rightarrow> dbl" where
  "min4 a b c d = cmin (cmin (cmin a b) c) d"

definition max4 :: "dbl \<Rightarrow> dbl \<Rightarrow> dbl \<Rightarrow> dbl \<Rightarrow> dbl" where
  "max4 a b c d = cmax (cmax (cmax a b) c) d"

section \<open>Geometry primitives\<close>

definition piover2 :: real where
  "piover2 = pi * 0.5"

definition area4 :: "dbl \<Rightarrow> dbl \<Rightarrow> dbl \<Rightarrow> dbl \<Rightarrow> dbl \<Rightarrow> dbl \<Rightarrow> dbl \<Rightarrow> dbl \<Rightarrow> dbl" where
  "area4 a0 a1 b0 b1 c0 c1 d0 d1 =
     Fin 0.5 * \<bar>((c0 - a0) * (d1 - b1)) - ((c1 - a1) * (d0 - b0))\<bar>"

record Function =
  slope :: dbl
  intersect :: dbl

definition integrate :: "dbl \<Rightarrow> dbl \<Rightarrow> Function \<Rightarrow> dbl" where
  "integrate A0 B0 AB =
     (if deq A0 B0 then Fin 0
      else slope AB * (B0 * B0 - A0 * A0) * Fin 0.5 + intersect AB * (B0 - A0))"

definition getBinNr :: "dbl \<Rightarrow> dbl \<Rightarrow> dbl \<Rightarrow> dbl" where
  "getBinNr x0 pos0_min dpos = (x0 - pos0_min) / dpos"

definition getBin1Nr :: "dbl \<Rightarrow> dbl \<Rightarrow> dbl \<Rightarrow> dbl \<Rightarrow> dbl" where
  "getBin1Nr x0 pos0_min delta var =
     (if truthy var then
        (if Fin 0 \<le> x0 then (x0 - pos0_min) / delta
         else (x0 + Fin 2 * Fin pi - pos0_min) / delta)
      else (x0 - pos0_min) / delta)"

text \<open>
  \<^verbatim>\<open>foo\<close> is declared to return a C int: the truth value of the disjunction, 1 or 0.
\<close>

definition foo :: "dbl \<Rightarrow> dbl \<Rightarrow> dbl \<Rightarrow> dbl \<Rightarrow> int" where
  "foo A B C D = b2i
     ((Fin piover2 < A \<and> Fin piover2 < B \<and> C < Fin (- piover2) \<and> D < Fin (- piover2)) \<or>
      (A < Fin (- piover2) \<and> B < Fin (- piover2) \<and> Fin piover2 < C \<and> Fin piover2 < D) \<or>
      (Fin piover2 < A \<and> B < Fin (- piover2) \<and> Fin piover2 < C \<and> D < Fin (- piover2)) \<or>
      (A < Fin (- piover2) \<and> Fin piover2 < B \<and> C < Fin (- piover2) \<and> Fin piover2 < D) \<or>
      (Fin piover2 < A \<and> B < Fin (- piover2) \<and> C < Fin (- piover2) \<and> Fin piover2 < D) \<or>
      (A < Fin (- piover2) \<and> Fin piover2 < B \<and> Fin piover2 < C \<and> D < Fin (- piover2)))"

section \<open>Outcomes, arrays and casts\<close>

text \<open>
  A call ends with its outputs or with one of these. The first five are the Python
  exceptions the entry points can raise. The last two are not exceptions: the loops run with
  \<^verbatim>\<open>boundscheck(False)\<close> and \<^verbatim>\<open>wraparound(False)\<close>, so an index outside an array is an
  unchecked memory access, and the cast of a double that is not finite or does not fit a
  C int is undefined; the model stops there.
\<close>

datatype error = AssertionError | OverflowError | ValueError | TypeError | MemoryError
  | MemoryFault | UndefinedCast

text \<open>
  \<^verbatim>\<open>numpy.zeros\<close> for an array of \<open>n\<close> items of \<open>itemsize\<close> bytes: numpy raises ValueError for
  a negative count and for an array of more than \<open>2\<^sup>6\<^sup>3 - 1\<close> bytes, and MemoryError when the
  allocator does not give the bytes. Whether it gives them is a matter of the machine: \<open>mem\<close>
  tells for every number of bytes whether an array of that size can be allocated.
\<close>

definition np_zeros :: "(int \<Rightarrow> bool) \<Rightarrow> int \<Rightarrow> int \<Rightarrow> 'a \<Rightarrow> error + 'a list" where
  "np_zeros mem itemsize n x =
     (if n < 0 \<or> 2 ^ 63 \<le> n * itemsize then Inl ValueError
      else if \<not> mem (n * itemsize) then Inl MemoryError
      else Inr (replicate (nat n) x))"

definition np_zeros2 :: "(int \<Rightarrow> bool) \<Rightarrow> int \<Rightarrow> int \<Rightarrow> int \<Rightarrow> 'a \<Rightarrow> error + 'a list list" where
  "np_zeros2 mem itemsize n0 n1 x =
     (if n0 < 0 \<or> n1 < 0 \<or> 2 ^ 63 \<le> n0 * n1 * itemsize then Inl ValueError
      else if \<not> mem (n0 * n1 * itemsize) then Inl MemoryError
      else Inr (replicate (nat n0) (replicate (nat n1) x)))"

definition add_at :: "dbl list \<Rightarrow> int \<Rightarrow> dbl \<Rightarrow> error + dbl list" where
  "add_at xs i v =
     (if 0 \<le> i \<and> i < int (length xs) then Inr (xs[nat i := xs ! nat i + v])
      else Inl MemoryFault)"

fun dfloor :: "dbl \<Rightarrow> dbl" where
  "dfloor (Fin x) = Fin (of_int \<lfloor>x\<rfloor>)"
| "dfloor PInf = PInf"
| "dfloor NInf = NInf"
| "dfloor NaN = NaN"

fun to_int :: "dbl \<Rightarrow> error + int" where
  "to_int (Fin x) =
     (let t = (if 0 \<le> x then \<lfloor>x\<rfloor> else \<lceil>x\<rceil>)
      in if - (2 ^ 31) \<le> t \<and> t < 2 ^ 31 then Inr t else Inl UndefinedCast)"
| "to_int PInf = Inl UndefinedCast"
| "to_int NInf = Inl UndefinedCast"
| "to_int NaN = Inl UndefinedCast"

section \<open>Inputs\<close>

text \<open>
  \<^verbatim>\<open>pos\<close> is an array of shape (N, 4, 2) of finite values: one record per pixel, the field
  \<open>cKJ\<close> standing for \<^verbatim>\<open>cpos[idx, K, J]\<close>. The assertions on the second and third axis hold
  by the type. \<^verbatim>\<open>weights\<close>, \<^verbatim>\<open>dark\<close>, \<^verbatim>\<open>flat\<close>, \<^verbatim>\<open>polarization\<close> and \<^verbatim>\<open>solidangle\<close> are
  flat arrays of finite values, \<^verbatim>\<open>mask\<close> an array of int8.
\<close>

record pixel =
  c00 :: real
  c01 :: real
  c10 :: real
  c11 :: real
  c20 :: real
  c21 :: real
  c30 :: real
  c31 :: real

definition lmin :: "real list \<Rightarrow> real" where
  "lmin xs = foldl min (hd xs) (tl xs)"

definition lmax :: "real list \<Rightarrow> real" where
  "lmax xs = foldl max (hd xs) (tl xs)"

definition axis0 :: "pixel list \<Rightarrow> real list" where
  "axis0 pos = concat (map (\<lambda>p. [c00 p, c10 p, c20 p, c30 p]) pos)"

definition axis1 :: "pixel list \<Rightarrow> real list" where
  "axis1 pos = concat (map (\<lambda>p. [c01 p, c11 p, c21 p, c31 p]) pos)"

text \<open>
  The range of one axis: the given range when it has at least two elements, else the
  extent of the data; \<^verbatim>\<open>min\<close> of an empty array raises ValueError.
\<close>

definition axis_range :: "real list option \<Rightarrow> real list \<Rightarrow> error + (real \<times> real)" where
  "axis_range posRange vals =
     (case posRange of
        Some r \<Rightarrow>
          (if 1 < length r then Inr (lmin r, lmax r)
           else if vals = [] then Inl ValueError else Inr (lmin vals, lmax vals))
      | None \<Rightarrow> if vals = [] then Inl ValueError else Inr (lmin vals, lmax vals))"

definition eps32 :: real where
  "eps32 = 1 / 2 ^ 23"

definition eps64 :: real where
  "eps64 = 1 / 2 ^ 52"

definition epsilon :: real where
  "epsilon = 1 / 10 ^ 10"

text \<open>
  \<^verbatim>\<open>numpy.linspace(start, stop, num)\<close>: \<open>num\<close> evenly spaced samples, the last one set to
  \<open>stop\<close>; a single sample is \<open>start\<close>.
\<close>

definition linspace :: "real \<Rightarrow> real \<Rightarrow> nat \<Rightarrow> real list" where
  "linspace start stop num =
     (if num = 0 then []
      else if num = 1 then [start]
      else map (\<lambda>k. start + real k * ((stop - start) / real (num - 1))) [0..<num - 1] @ [stop])"

text \<open>The dummy setting: \<open>(check_dummy, cdummy, cddummy)\<close>.\<close>

definition dummy_setup :: "real option \<Rightarrow> real option \<Rightarrow> bool \<times> real \<times> real" where
  "dummy_setup dummy delta_dummy =
     (case dummy of
        Some d \<Rightarrow> (case delta_dummy of Some dd \<Rightarrow> (True, d, dd) | None \<Rightarrow> (True, d, 0))
      | None \<Rightarrow> (False, 0, 0))"

definition size_ok :: "'a list option \<Rightarrow> nat \<Rightarrow> bool" where
  "size_ok arr n = (case arr of None \<Rightarrow> True | Some a \<Rightarrow> length a = n)"

text \<open>The four corrections, in the order of the source; each is applied when its array is given.\<close>

definition correct :: "real list option \<Rightarrow> real list option \<Rightarrow> real list option \<Rightarrow>
    real list option \<Rightarrow> nat \<Rightarrow> dbl \<Rightarrow> dbl" where
  "correct dark flat polarization solidangle idx data =
     (let d1 = (case dark of Some a \<Rightarrow> data - Fin (a ! idx) | None \<Rightarrow> data);
          d2 = (case flat of Some a \<Rightarrow> d1 / Fin (a ! idx) | None \<Rightarrow> d1);
          d3 = (case polarization of Some a \<Rightarrow> d2 / Fin (a ! idx) | None \<Rightarrow> d2)
      in (case solidangle of Some a \<Rightarrow> d3 / Fin (a ! idx) | None \<Rightarrow> d3))"

definition dummy_match :: "bool \<Rightarrow> real \<Rightarrow> real \<Rightarrow> real \<Rightarrow> bool" where
  "dummy_match check_dummy cdummy cddummy data =
     (check_dummy \<and> ((cddummy = 0 \<and> data = cdummy) \<or> (cddummy \<noteq> 0 \<and> \<bar>data - cdummy\<bar> \<le> cddummy)))"

definition masked :: "8 word list option \<Rightarrow> nat \<Rightarrow> bool" where
  "masked msk idx = (case msk of Some cmask \<Rightarrow> cmask ! idx \<noteq> 0 | None \<Rightarrow> False)"

text \<open>
  The two range pairs; \<open>eps\<close> is the machine epsilon the entry point multiplies the upper
  bounds with.
\<close>

record ranges =
  pos0_min :: real
  pos0_maxin :: real
  pos0_max :: real
  pos1_min :: real
  pos1_maxin :: real
  pos1_max :: real

definition ranges_of :: "real \<Rightarrow> pixel list \<Rightarrow> real list option \<Rightarrow> real list option \<Rightarrow>
    error + ranges" where
  "ranges_of eps pos pos0Range pos1Range =
     (case axis_range pos0Range (axis0 pos) of
        Inl e \<Rightarrow> Inl e
      | Inr (lo0, hi0) \<Rightarrow>
          (case axis_range pos1Range (axis1 pos) of
             Inl e \<Rightarrow> Inl e
           | Inr (lo1, hi1) \<Rightarrow>
               Inr \<lparr>pos0_min = lo0, pos0_maxin = hi0, pos0_max = hi0 * (1 + eps),
                    pos1_min = lo1, pos1_maxin = hi1, pos1_max = hi1 * (1 + eps)\<rparr>))"

text \<open>The per-pixel inputs of the loop, as the entry points prepare them.\<close>

record inputs =
  cpos :: "pixel list"
  cdata :: "real list"
  cmask :: "8 word list option"
  cdark :: "real list option"
  cflat :: "real list option"
  cpolarization :: "real list option"
  csolidangle :: "real list option"
  check_dummy :: bool
  cdummy :: real
  cddummy :: real

section \<open>The 1D splitter\<close>

text \<open>The line through two corners, as slope and intersect.\<close>

definition line :: "dbl \<Rightarrow> dbl \<Rightarrow> dbl \<Rightarrow> dbl \<Rightarrow> Function" where
  "line P0 P1 Q0 Q1 =
     (let s = (Q1 - P1) / (Q0 - P0) in \<lparr>slope = s, intersect = P1 - s * P0\<rparr>)"

text \<open>
  The coordinate of a corner restricted to the column \<open>[bin0, bin0 + 1]\<close>, with the
  comparisons used as the numbers 0 and 1.
\<close>

definition lim :: "dbl \<Rightarrow> int \<Rightarrow> dbl" where
  "lim X bin0 =
     of_i (b2i (X \<le> of_i bin0) * b2i (X \<le> of_i (bin0 + 1)) * bin0)
     + of_i (b2i (of_i bin0 < X) * b2i (X \<le> of_i (bin0 + 1))) * X
     + of_i (b2i (of_i bin0 < X) * b2i (of_i (bin0 + 1) < X) * (bin0 + 1))"

definition column_area :: "dbl \<Rightarrow> dbl \<Rightarrow> dbl \<Rightarrow> dbl \<Rightarrow> Function \<Rightarrow> Function \<Rightarrow> Function \<Rightarrow>
    Function \<Rightarrow> int \<Rightarrow> dbl" where
  "column_area A0 B0 C0 D0 AB BC CD DA bin0 =
     (let A_lim = lim A0 bin0; B_lim = lim B0 bin0; C_lim = lim C0 bin0; D_lim = lim D0 bin0
      in integrate A_lim B_lim AB + integrate B_lim C_lim BC + integrate C_lim D_lim CD
         + integrate D_lim A_lim DA)"

text \<open>
  The weight of one column of a split path. The corners are already translated so that the
  first column of the pixel is column 0; the first coordinate of a corner is the one along
  the axis that is split. \<open>areaPixel\<close> is the area the caller computed with \<open>area4\<close>.
\<close>

definition split_weight :: "dbl \<Rightarrow> dbl \<Rightarrow> dbl \<Rightarrow> dbl \<Rightarrow> dbl \<Rightarrow> dbl \<Rightarrow> dbl \<Rightarrow> dbl \<Rightarrow> dbl \<Rightarrow> int \<Rightarrow> dbl" where
  "split_weight A0 A1 B0 B1 C0 C1 D0 D1 areaPixel bin0 =
     (let AB = line A0 A1 B0 B1; BC = line B0 B1 C0 C1;
          CD = line C0 C1 D0 D1; DA = line D0 D1 A0 A1;
          oneOverPixelArea = Fin 1 / areaPixel;
          partialArea = column_area A0 B0 C0 D0 AB BC CD DA bin0
      in \<bar>partialArea\<bar> * oneOverPixelArea)"

text \<open>
  The accumulation loop over the bins of one pixel: \<open>w\<close> is the weight of a bin and \<open>dw\<close> the
  weighted intensity.
\<close>

fun split_loop :: "(int \<Rightarrow> dbl) \<Rightarrow> (int \<Rightarrow> dbl) \<Rightarrow> int list \<Rightarrow> dbl list \<times> dbl list \<Rightarrow>
    error + dbl list \<times> dbl list" where
  "split_loop w dw [] st = Inr st"
| "split_loop w dw (b # bs) (outData, outCount) =
     (case add_at outCount b (w b) of
        Inl e \<Rightarrow> Inl e
      | Inr oc \<Rightarrow>
          (case add_at outData b (dw b) of
             Inl e \<Rightarrow> Inl e
           | Inr od \<Rightarrow> split_loop w dw bs (od, oc)))"

text \<open>
  The corners of a pixel in bin coordinates: \<open>qa0\<close> is the variable \<open>A0\<close> of the source,
  \<open>qa1\<close> is \<open>A1\<close>, and so on.
\<close>

record quad =
  qa0 :: dbl
  qa1 :: dbl
  qb0 :: dbl
  qb1 :: dbl
  qc0 :: dbl
  qc1 :: dbl
  qd0 :: dbl
  qd1 :: dbl

definition qmin0 :: "quad \<Rightarrow> dbl" where
  "qmin0 q = min4 (qa0 q) (qb0 q) (qc0 q) (qd0 q)"

definition qmax0 :: "quad \<Rightarrow> dbl" where
  "qmax0 q = max4 (qa0 q) (qb0 q) (qc0 q) (qd0 q)"

definition qmin1 :: "quad \<Rightarrow> dbl" where
  "qmin1 q = min4 (qa1 q) (qb1 q) (qc1 q) (qd1 q)"

definition qmax1 :: "quad \<Rightarrow> dbl" where
  "qmax1 q = max4 (qa1 q) (qb1 q) (qc1 q) (qd1 q)"

text \<open>\<^verbatim>\<open>A0 -= bin0_min\<close> for the four corners, and the same along axis 1.\<close>

definition shift0 :: "quad \<Rightarrow> int \<Rightarrow> quad" where
  "shift0 q k = q\<lparr>qa0 := qa0 q - of_i k, qb0 := qb0 q - of_i k,
                  qc0 := qc0 q - of_i k, qd0 := qd0 q - of_i k\<rparr>"

definition shift1 :: "quad \<Rightarrow> int \<Rightarrow> quad" where
  "shift1 q k = q\<lparr>qa1 := qa1 q - of_i k, qb1 := qb1 q - of_i k,
                  qc1 := qc1 q - of_i k, qd1 := qd1 q - of_i k\<rparr>"

definition areaPixel :: "quad \<Rightarrow> dbl" where
  "areaPixel q = area4 (qa0 q) (qa1 q) (qb0 q) (qb1 q) (qc0 q) (qc1 q) (qd0 q) (qd1 q)"

text \<open>The weight of a local bin when the pixel is split along axis 0, and along axis 1.\<close>

definition weight0 :: "quad \<Rightarrow> int \<Rightarrow> dbl" where
  "weight0 q bin0 =
     split_weight (qa0 q) (qa1 q) (qb0 q) (qb1 q) (qc0 q) (qc1 q) (qd0 q) (qd1 q)
       (areaPixel q) bin0"

definition weight1 :: "quad \<Rightarrow> int \<Rightarrow> dbl" where
  "weight1 q bin1 =
     split_weight (qa1 q) (qa0 q) (qb1 q) (qb0 q) (qc1 q) (qc0 q) (qd1 q) (qd0 q)
       (areaPixel q) bin1"

text \<open>
  The pixel loop of \<^verbatim>\<open>fullSplit1D\<close>, one iteration. A \<^verbatim>\<open>continue\<close> returns the state as it
  is. First the two tests that skip a pixel, the mask before the dummy value.
\<close>

definition skip1D :: "inputs \<Rightarrow> nat \<Rightarrow> bool" where
  "skip1D inp idx =
     (if masked (cmask inp) idx then True
      else dummy_match (check_dummy inp) (cdummy inp) (cddummy inp) (cdata inp ! idx))"

definition quad1D :: "pixel \<Rightarrow> ranges \<Rightarrow> real \<Rightarrow> quad" where
  "quad1D p r dpos =
     \<lparr>qa0 = getBinNr (Fin (c00 p)) (Fin (pos0_min r)) (Fin dpos), qa1 = Fin (c01 p),
      qb0 = getBinNr (Fin (c10 p)) (Fin (pos0_min r)) (Fin dpos), qb1 = Fin (c11 p),
      qc0 = getBinNr (Fin (c20 p)) (Fin (pos0_min r)) (Fin dpos), qc1 = Fin (c21 p),
      qd0 = getBinNr (Fin (c30 p)) (Fin (pos0_min r)) (Fin dpos), qd1 = Fin (c31 p)\<rparr>"

text \<open>The accumulation of an accepted pixel: the single-bin path or the split path.\<close>

definition deposit1D :: "quad \<Rightarrow> dbl \<Rightarrow> dbl list \<times> dbl list \<Rightarrow> error + dbl list \<times> dbl list" where
  "deposit1D q data st =
     (case to_int (dfloor (qmin0 q)) of
        Inl e \<Rightarrow> Inl e
      | Inr bin0_min \<Rightarrow>
          (case to_int (dfloor (qmax0 q)) of
             Inl e \<Rightarrow> Inl e
           | Inr bin0_max \<Rightarrow>
               if bin0_min = bin0_max then
                 split_loop (\<lambda>b. Fin 1) (\<lambda>b. data) [bin0_min] st
               else
                 let w = (\<lambda>b. weight0 (shift0 q bin0_min) (b - bin0_min))
                 in split_loop w (\<lambda>b. data * w b) [bin0_min..bin0_max] st))"

text \<open>\<open>check_pos1\<close> is the flag that guards the azimuthal filter.\<close>

definition pixel1D :: "inputs \<Rightarrow> ranges \<Rightarrow> int \<Rightarrow> real \<Rightarrow> bool \<Rightarrow> nat \<Rightarrow> dbl list \<times> dbl list \<Rightarrow>
    error + dbl list \<times> dbl list" where
  "pixel1D inp r bins dpos check_pos1 idx st =
     (if skip1D inp idx then Inr st
      else
        let q = quad1D (cpos inp ! idx) r dpos in
        if qmax0 q < Fin 0 \<or> of_i bins \<le> qmin0 q then Inr st
        else if check_pos1 \<and> (qmax1 q < Fin (pos1_min r) \<or> Fin (pos1_maxin r) < qmin1 q)
          then Inr st
        else
          deposit1D q
            (correct (cdark inp) (cflat inp) (cpolarization inp) (csolidangle inp) idx
               (Fin (cdata inp ! idx)))
            st)"

fun loop1D :: "inputs \<Rightarrow> ranges \<Rightarrow> int \<Rightarrow> real \<Rightarrow> bool \<Rightarrow> nat list \<Rightarrow> dbl list \<times> dbl list \<Rightarrow>
    error + dbl list \<times> dbl list" where
  "loop1D inp r bins dpos check_pos1 [] st = Inr st"
| "loop1D inp r bins dpos check_pos1 (idx # rest) st =
     (case pixel1D inp r bins dpos check_pos1 idx st of
        Inl e \<Rightarrow> Inl e
      | Inr st' \<Rightarrow> loop1D inp r bins dpos check_pos1 rest st')"

text \<open>The final loop: the mean of a bin, or the dummy value where the bin is empty.\<close>

definition merge :: "real \<Rightarrow> dbl list \<Rightarrow> dbl list \<Rightarrow> nat \<Rightarrow> dbl list" where
  "merge dummy_value outData outCount n =
     map (\<lambda>i. if Fin epsilon < outCount ! i then outData ! i / outCount ! i else Fin dummy_value)
       [0..<n]"

text \<open>
  \<^verbatim>\<open>fullSplit1D\<close>. \<open>bins\<close> is declared \<^verbatim>\<open>size_t\<close>: a value outside its range raises OverflowError
  when the arguments are converted. The three output arrays are allocated after the
  assertions on the shapes and on \<open>bins\<close>; they have one size, so the second and the third
  allocation end as the first one does, and so does the allocation of \<open>outPos\<close>.
  \<open>check_pos1\<close> is initialised to False and assigned nowhere (a given \<open>pos1Range\<close> sets
  the otherwise unused \<open>do_pos1\<close>), so the loop runs with False. The counter \<open>lut_size\<close> is
  written and never read, and is left out. The result is
  \<open>(outPos, outMerge, outData, outCount)\<close>.
\<close>

definition fullSplit1D :: "(int \<Rightarrow> bool) \<Rightarrow> pixel list \<Rightarrow> real list \<Rightarrow> int \<Rightarrow> real list option \<Rightarrow>
    real list option \<Rightarrow> real option \<Rightarrow> real option \<Rightarrow> 8 word list option \<Rightarrow> real list option \<Rightarrow>
    real list option \<Rightarrow> real list option \<Rightarrow> real list option \<Rightarrow>
    error + real list \<times> dbl list \<times> dbl list \<times> dbl list" where
  "fullSplit1D mem pos weights bins pos0Range pos1Range dummy delta_dummy msk dark flat
       solidangle polarization =
     (if bins < 0 \<or> 2 ^ 64 \<le> bins then Inl OverflowError
      else
        let size = length weights in
        if length pos \<noteq> size then Inl AssertionError
        else if \<not> 1 < bins then Inl AssertionError
        else
          (case np_zeros mem 8 bins (Fin 0) of
             Inl e \<Rightarrow> Inl e
           | Inr zeros \<Rightarrow>
          (case ranges_of eps32 pos pos0Range pos1Range of
             Inl e \<Rightarrow> Inl e
           | Inr r \<Rightarrow>
               let check_pos1 = False;
                   dpos = (pos0_max r - pos0_min r) / real_of_int bins;
                   outPos = linspace (pos0_min r + 0.5 * dpos) (pos0_maxin r - 0.5 * dpos) (nat bins);
                   (chk, dmy, ddmy) = dummy_setup dummy delta_dummy
               in
                 if \<not> size_ok msk size \<or> \<not> size_ok dark size \<or> \<not> size_ok flat size \<or>
                    \<not> size_ok polarization size \<or> \<not> size_ok solidangle size
                 then Inl AssertionError
                 else
                   let inp = \<lparr>cpos = pos, cdata = weights, cmask = msk, cdark = dark,
                              cflat = flat, cpolarization = polarization,
                              csolidangle = solidangle, check_dummy = chk, cdummy = dmy,
                              cddummy = ddmy\<rparr>
                   in
                     (case loop1D inp r bins dpos check_pos1 [0..<size] (zeros, zeros) of
                        Inl e \<Rightarrow> Inl e
                      | Inr (outData, outCount) \<Rightarrow>
                          Inr (outPos, merge dmy outData outCount (nat bins), outData, outCount)))))"

section \<open>The 2D splitter\<close>

record MyPoint =
  pt_i :: dbl
  pt_j :: dbl

text \<open>
  \<^verbatim>\<open>MyPoly\<close> holds at most eight points: the points of a polygon are a list, and storing a
  ninth one writes behind the array.
\<close>

type_synonym MyPoly = "MyPoint list"

definition push :: "MyPoint \<Rightarrow> MyPoly \<Rightarrow> error + MyPoly" where
  "push P poly = (if length poly < 8 then Inr (poly @ [P]) else Inl MemoryFault)"

definition ComputeIntersection0 :: "MyPoint \<Rightarrow> MyPoint \<Rightarrow> dbl \<Rightarrow> MyPoint" where
  "ComputeIntersection0 S E clipEdge =
     \<lparr>pt_i = clipEdge,
      pt_j = (pt_j E - pt_j S) * (clipEdge - pt_i S) / (pt_i E - pt_i S) + pt_j S\<rparr>"

definition ComputeIntersection1 :: "MyPoint \<Rightarrow> MyPoint \<Rightarrow> dbl \<Rightarrow> MyPoint" where
  "ComputeIntersection1 S E clipEdge =
     \<lparr>pt_i = (pt_i E - pt_i S) * (clipEdge - pt_j S) / (pt_j E - pt_j S) + pt_i S,
      pt_j = clipEdge\<rparr>"

definition point_and_line :: "dbl \<Rightarrow> dbl \<Rightarrow> dbl \<Rightarrow> dbl \<Rightarrow> dbl \<Rightarrow> dbl \<Rightarrow> int" where
  "point_and_line x0 y0 x1 y1 x y =
     (let tmp = (y - y0) * (x1 - x0) - (x - x0) * (y1 - y0)
      in b2i (Fin 0 < tmp) - b2i (tmp < Fin 0))"

text \<open>
  \<^verbatim>\<open>area_n\<close>: the shoelace sum of a polygon of three to eight points, the products added
  and then subtracted in the order of the source; for any other size the function reaches
  its end with no return statement, and the value is 0.
\<close>

definition area_n :: "MyPoly \<Rightarrow> dbl" where
  "area_n poly =
     (let n = length poly in
      if 3 \<le> n \<and> n \<le> 8 then
        Fin 0.5 *
          \<bar>foldl (-)
             (foldl (+) (pt_i (poly ! 0) * pt_j (poly ! 1))
                (map (\<lambda>k. pt_i (poly ! k) * pt_j (poly ! (Suc k mod n))) [1..<n]))
             (map (\<lambda>k. pt_i (poly ! (Suc k mod n)) * pt_j (poly ! k)) [0..<n])\<bar>
      else Fin 0)"

text \<open>
  One Sutherland-Hodgman pass. \<open>inn\<close> is the test the source applies to keep a point and
  \<open>out\<close> the one it applies to the previous point before it adds the entry intersection.
  On an empty polygon the source loads \<open>data[-1]\<close> into \<open>S\<close> and never uses it.
\<close>

fun clip_loop :: "(MyPoint \<Rightarrow> bool) \<Rightarrow> (MyPoint \<Rightarrow> bool) \<Rightarrow> (MyPoint \<Rightarrow> MyPoint \<Rightarrow> MyPoint) \<Rightarrow>
    MyPoint \<Rightarrow> MyPoint list \<Rightarrow> MyPoly \<Rightarrow> error + MyPoly" where
  "clip_loop inn out isect S [] acc = Inr acc"
| "clip_loop inn out isect S (E # es) acc =
     (if inn E then
        (case (if out S then push (isect S E) acc else Inr acc) of
           Inl e \<Rightarrow> Inl e
         | Inr acc1 \<Rightarrow>
             (case push E acc1 of
                Inl e \<Rightarrow> Inl e
              | Inr acc2 \<Rightarrow> clip_loop inn out isect E es acc2))
      else if inn S then
        (case push (isect S E) acc of
           Inl e \<Rightarrow> Inl e
         | Inr acc1 \<Rightarrow> clip_loop inn out isect E es acc1)
      else clip_loop inn out isect E es acc)"

definition clip_pass :: "(MyPoint \<Rightarrow> bool) \<Rightarrow> (MyPoint \<Rightarrow> bool) \<Rightarrow> (MyPoint \<Rightarrow> MyPoint \<Rightarrow> MyPoint) \<Rightarrow>
    MyPoly \<Rightarrow> error + MyPoly" where
  "clip_pass inn out isect poly =
     (if poly = [] then Inr [] else clip_loop inn out isect (last poly) poly [])"

text \<open>The four passes that clip the pixel to the cell \<open>[i, i + 1] \<times> [j, j + 1]\<close>.\<close>

definition clip_cell :: "MyPoly \<Rightarrow> int \<Rightarrow> int \<Rightarrow> error + MyPoly" where
  "clip_cell list1 i j =
     (case clip_pass (\<lambda>P. of_i i < pt_i P) (\<lambda>P. pt_i P \<le> of_i i)
             (\<lambda>S E. ComputeIntersection0 S E (of_i i)) list1 of
        Inl e \<Rightarrow> Inl e
      | Inr l2 \<Rightarrow>
     (case clip_pass (\<lambda>P. pt_j P < of_i (j + 1)) (\<lambda>P. of_i (j + 1) \<le> pt_j P)
             (\<lambda>S E. ComputeIntersection1 S E (of_i (j + 1))) l2 of
        Inl e \<Rightarrow> Inl e
      | Inr l1 \<Rightarrow>
     (case clip_pass (\<lambda>P. pt_i P < of_i (i + 1)) (\<lambda>P. of_i (i + 1) \<le> pt_i P)
             (\<lambda>S E. ComputeIntersection0 S E (of_i (i + 1))) l1 of
        Inl e \<Rightarrow> Inl e
      | Inr l2' \<Rightarrow>
        clip_pass (\<lambda>P. of_i j < pt_j P) (\<lambda>P. pt_j P \<le> of_i j)
             (\<lambda>S E. ComputeIntersection1 S E (of_i j)) l2')))"

text \<open>Two-dimensional arrays are lists of rows; an index outside the shape is a fault.\<close>

definition in_shape :: "'a list list \<Rightarrow> int \<Rightarrow> int \<Rightarrow> bool" where
  "in_shape m i j = (0 \<le> i \<and> i < int (length m) \<and> 0 \<le> j \<and> j < int (length (m ! nat i)))"

definition get2 :: "int list list \<Rightarrow> int \<Rightarrow> int \<Rightarrow> error + int" where
  "get2 m i j = (if in_shape m i j then Inr (m ! nat i ! nat j) else Inl MemoryFault)"

definition put2 :: "int list list \<Rightarrow> int \<Rightarrow> int \<Rightarrow> int \<Rightarrow> error + int list list" where
  "put2 m i j v =
     (if in_shape m i j then Inr (m[nat i := (m ! nat i)[nat j := v]]) else Inl MemoryFault)"

definition add_at2 :: "dbl list list \<Rightarrow> int \<Rightarrow> int \<Rightarrow> dbl \<Rightarrow> error + dbl list list" where
  "add_at2 m i j v =
     (if in_shape m i j then Inr (m[nat i := (m ! nat i)[nat j := m ! nat i ! nat j + v]])
      else Inl MemoryFault)"

text \<open>One deposit: the weight into \<open>outCount\<close>, then the weighted intensity into \<open>outData\<close>.\<close>

definition deposit2 :: "dbl \<Rightarrow> dbl \<Rightarrow> int \<Rightarrow> int \<Rightarrow> dbl list list \<times> dbl list list \<Rightarrow>
    error + dbl list list \<times> dbl list list" where
  "deposit2 w dw i j st =
     (case add_at2 (snd st) i j w of
        Inl e \<Rightarrow> Inl e
      | Inr oc \<Rightarrow>
          (case add_at2 (fst st) i j dw of
             Inl e \<Rightarrow> Inl e
           | Inr od \<Rightarrow> Inr (od, oc)))"

text \<open>
  The loop of the single-column and single-row paths: \<open>cell\<close> gives the output cell of a
  local bin.
\<close>

fun split_loop2 :: "(int \<Rightarrow> dbl) \<Rightarrow> (int \<Rightarrow> dbl) \<Rightarrow> (int \<Rightarrow> int \<times> int) \<Rightarrow> int list \<Rightarrow>
    dbl list list \<times> dbl list list \<Rightarrow> error + dbl list list \<times> dbl list list" where
  "split_loop2 w dw cell [] st = Inr st"
| "split_loop2 w dw cell (b # bs) st =
     (case deposit2 (w b) (dw b) (fst (cell b)) (snd (cell b)) st of
        Inl e \<Rightarrow> Inl e
      | Inr st' \<Rightarrow> split_loop2 w dw cell bs st')"

text \<open>The first double loop of the general path: the lattice points inside the pixel.\<close>

fun fill_inside :: "(int \<Rightarrow> int \<Rightarrow> int) \<Rightarrow> (int \<times> int) list \<Rightarrow> int list list \<Rightarrow>
    error + int list list" where
  "fill_inside f [] is_inside = Inr is_inside"
| "fill_inside f ((i, j) # rest) is_inside =
     (case put2 is_inside i j (f i j) of
        Inl e \<Rightarrow> Inl e
      | Inr m \<Rightarrow> fill_inside f rest m)"

text \<open>The second double loop of the general path, one cell at a time.\<close>

definition general_cell :: "MyPoly \<Rightarrow> dbl \<Rightarrow> dbl \<Rightarrow> int \<Rightarrow> int \<Rightarrow> int list list \<Rightarrow> int \<Rightarrow> int \<Rightarrow>
    dbl list list \<times> dbl list list \<Rightarrow> error + dbl list list \<times> dbl list list" where
  "general_cell quad oneOverPixelArea data bin0_min bin1_min is_inside i j st =
     (case get2 is_inside i j of Inl e \<Rightarrow> Inl e | Inr v00 \<Rightarrow>
     (case get2 is_inside i (j + 1) of Inl e \<Rightarrow> Inl e | Inr v01 \<Rightarrow>
     (case get2 is_inside (i + 1) j of Inl e \<Rightarrow> Inl e | Inr v10 \<Rightarrow>
     (case get2 is_inside (i + 1) (j + 1) of Inl e \<Rightarrow> Inl e | Inr v11 \<Rightarrow>
        let tmp_i = v00 + v01 + v10 + v11 in
        if tmp_i = 4 then
          deposit2 oneOverPixelArea (oneOverPixelArea * data) (bin0_min + i) (bin1_min + j) st
        else if tmp_i = 1 \<or> tmp_i = 2 \<or> tmp_i = 3 then
          (case clip_cell quad i j of
             Inl e \<Rightarrow> Inl e
           | Inr list1 \<Rightarrow>
               let partialArea = \<bar>area_n list1\<bar> * oneOverPixelArea
               in deposit2 partialArea (partialArea * data) (bin0_min + i) (bin1_min + j) st)
        else Inr st))))"

fun general_loop :: "MyPoly \<Rightarrow> dbl \<Rightarrow> dbl \<Rightarrow> int \<Rightarrow> int \<Rightarrow> int list list \<Rightarrow> (int \<times> int) list \<Rightarrow>
    dbl list list \<times> dbl list list \<Rightarrow> error + dbl list list \<times> dbl list list" where
  "general_loop quad a data bin0_min bin1_min is_inside [] st = Inr st"
| "general_loop quad a data bin0_min bin1_min is_inside ((i, j) # rest) st =
     (case general_cell quad a data bin0_min bin1_min is_inside i j st of
        Inl e \<Rightarrow> Inl e
      | Inr st' \<Rightarrow> general_loop quad a data bin0_min bin1_min is_inside rest st')"

text \<open>
  The pixel loop of \<^verbatim>\<open>fullSplit2D\<close>, one iteration. The dummy value is tested before the
  mask here. The debug output (\<^verbatim>\<open>printf\<close>) is left out.
\<close>

definition skip2D :: "inputs \<Rightarrow> nat \<Rightarrow> bool" where
  "skip2D inp idx =
     (if dummy_match (check_dummy inp) (cdummy inp) (cddummy inp) (cdata inp ! idx) then True
      else masked (cmask inp) idx)"

definition quad2D :: "pixel \<Rightarrow> ranges \<Rightarrow> real \<Rightarrow> real \<Rightarrow> quad" where
  "quad2D p r delta0 delta1 =
     (let var = of_i (foo (Fin (c01 p)) (Fin (c11 p)) (Fin (c21 p)) (Fin (c31 p)))
      in \<lparr>qa0 = getBinNr (Fin (c00 p)) (Fin (pos0_min r)) (Fin delta0),
           qa1 = getBin1Nr (Fin (c01 p)) (Fin (pos1_min r)) (Fin delta1) var,
           qb0 = getBinNr (Fin (c10 p)) (Fin (pos0_min r)) (Fin delta0),
           qb1 = getBin1Nr (Fin (c11 p)) (Fin (pos1_min r)) (Fin delta1) var,
           qc0 = getBinNr (Fin (c20 p)) (Fin (pos0_min r)) (Fin delta0),
           qc1 = getBin1Nr (Fin (c21 p)) (Fin (pos1_min r)) (Fin delta1) var,
           qd0 = getBinNr (Fin (c30 p)) (Fin (pos0_min r)) (Fin delta0),
           qd1 = getBin1Nr (Fin (c31 p)) (Fin (pos1_min r)) (Fin delta1) var\<rparr>)"

text \<open>The value stored in \<open>is_inside\<close> for the lattice point \<open>(i, j)\<close>.\<close>

definition inside :: "quad \<Rightarrow> int \<Rightarrow> int \<Rightarrow> int" where
  "inside q i j =
     \<bar>point_and_line (qa0 q) (qa1 q) (qb0 q) (qb1 q) (of_i i) (of_i j)
      + point_and_line (qb0 q) (qb1 q) (qc0 q) (qc1 q) (of_i i) (of_i j)
      + point_and_line (qc0 q) (qc1 q) (qd0 q) (qd1 q) (of_i i) (of_i j)
      + point_and_line (qd0 q) (qd1 q) (qa0 q) (qa1 q) (of_i i) (of_i j)\<bar> div 4"

definition poly_of :: "quad \<Rightarrow> MyPoly" where
  "poly_of q = [\<lparr>pt_i = qa0 q, pt_j = qa1 q\<rparr>, \<lparr>pt_i = qb0 q, pt_j = qb1 q\<rparr>,
                \<lparr>pt_i = qc0 q, pt_j = qc1 q\<rparr>, \<lparr>pt_i = qd0 q, pt_j = qd1 q\<rparr>]"

text \<open>
  The accumulation of an accepted pixel: the single-cell path, the single-column path, the
  single-row path and the general path. The state is the two accumulators and the scratch
  array \<open>is_inside\<close>, which is allocated once and keeps its entries from one pixel to the
  next.
\<close>

definition deposit2D :: "quad \<Rightarrow> dbl \<Rightarrow> (dbl list list \<times> dbl list list) \<times> int list list \<Rightarrow>
    error + (dbl list list \<times> dbl list list) \<times> int list list" where
  "deposit2D q data st =
     (case to_int (dfloor (qmin0 q)) of Inl e \<Rightarrow> Inl e | Inr bin0_min \<Rightarrow>
     (case to_int (dfloor (qmax0 q)) of Inl e \<Rightarrow> Inl e | Inr bin0_max \<Rightarrow>
     (case to_int (dfloor (qmin1 q)) of Inl e \<Rightarrow> Inl e | Inr bin1_min \<Rightarrow>
     (case to_int (dfloor (qmax1 q)) of Inl e \<Rightarrow> Inl e | Inr bin1_max \<Rightarrow>
        if bin0_min = bin0_max then
          if bin1_min = bin1_max then
            (case deposit2 (Fin 1) data bin0_min bin1_min (fst st) of
               Inl e \<Rightarrow> Inl e
             | Inr acc \<Rightarrow> Inr (acc, snd st))
          else
            let w = weight1 (shift1 q bin1_min) in
            (case split_loop2 w (\<lambda>bin1. w bin1 * data) (\<lambda>bin1. (bin0_min, bin1_min + bin1))
                    [0..bin1_max - bin1_min] (fst st) of
               Inl e \<Rightarrow> Inl e
             | Inr acc \<Rightarrow> Inr (acc, snd st))
        else if bin1_min = bin1_max then
          let w = weight0 (shift0 q bin0_min) in
          (case split_loop2 w (\<lambda>bin0. w bin0 * data) (\<lambda>bin0. (bin0_min + bin0, bin1_min))
                  [0..bin0_max - bin0_min] (fst st) of
             Inl e \<Rightarrow> Inl e
           | Inr acc \<Rightarrow> Inr (acc, snd st))
        else
          let bins0 = bin0_max - bin0_min + 1;
              bins1 = bin1_max - bin1_min + 1;
              q' = shift1 (shift0 q bin0_min) bin1_min;
              oneOverPixelArea = Fin 1 / areaPixel q'
          in
            (case fill_inside (inside q') (List.product [1..bins0 - 1] [1..bins1 - 1])
                    (snd st) of
               Inl e \<Rightarrow> Inl e
             | Inr is_inside \<Rightarrow>
                 (case general_loop (poly_of q') oneOverPixelArea data bin0_min bin1_min
                         is_inside (List.product [0..bins0 - 1] [0..bins1 - 1]) (fst st) of
                    Inl e \<Rightarrow> Inl e
                  | Inr acc \<Rightarrow> Inr (acc, is_inside)))))))"

definition pixel2D :: "inputs \<Rightarrow> ranges \<Rightarrow> int \<Rightarrow> int \<Rightarrow> real \<Rightarrow> real \<Rightarrow> nat \<Rightarrow>
    (dbl list list \<times> dbl list list) \<times> int list list \<Rightarrow>
    error + (dbl list list \<times> dbl list list) \<times> int list list" where
  "pixel2D inp r all_bins0 all_bins1 delta0 delta1 idx st =
     (if skip2D inp idx then Inr st
      else
        let q = quad2D (cpos inp ! idx) r delta0 delta1 in
        if qmax0 q < Fin 0 \<or> of_i all_bins0 \<le> qmin0 q \<or> qmax1 q < Fin 0 then Inr st
        else
          deposit2D q
            (correct (cdark inp) (cflat inp) (cpolarization inp) (csolidangle inp) idx
               (Fin (cdata inp ! idx)))
            st)"

fun loop2D :: "inputs \<Rightarrow> ranges \<Rightarrow> int \<Rightarrow> int \<Rightarrow> real \<Rightarrow> real \<Rightarrow> nat list \<Rightarrow>
    (dbl list list \<times> dbl list list) \<times> int list list \<Rightarrow>
    error + (dbl list list \<times> dbl list list) \<times> int list list" where
  "loop2D inp r all_bins0 all_bins1 delta0 delta1 [] st = Inr st"
| "loop2D inp r all_bins0 all_bins1 delta0 delta1 (idx # rest) st =
     (case pixel2D inp r all_bins0 all_bins1 delta0 delta1 idx st of
        Inl e \<Rightarrow> Inl e
      | Inr st' \<Rightarrow> loop2D inp r all_bins0 all_bins1 delta0 delta1 rest st')"

definition merge2 :: "real \<Rightarrow> dbl list list \<Rightarrow> dbl list list \<Rightarrow> nat \<Rightarrow> nat \<Rightarrow> dbl list list" where
  "merge2 dummy_value outData outCount n0 n1 =
     map (\<lambda>i. map (\<lambda>j. if Fin epsilon < outCount ! i ! j
                       then outData ! i ! j / outCount ! i ! j else Fin dummy_value) [0..<n1])
       [0..<n0]"

text \<open>
  The \<open>bins\<close> argument of \<^verbatim>\<open>fullSplit2D\<close>: a pair, or one number for both axes. The values
  are stored in C ints. A pair that does not fit fails inside the \<^verbatim>\<open>try\<close>, and the
  handler then fails converting the pair itself.
\<close>

datatype bins_arg = BinsPair int int | BinsInt int

definition c_int :: "int \<Rightarrow> bool" where
  "c_int n = (- (2 ^ 31) \<le> n \<and> n < 2 ^ 31)"

definition bins_of :: "bins_arg \<Rightarrow> error + int \<times> int" where
  "bins_of bins =
     (case bins of
        BinsPair b0 b1 \<Rightarrow> if c_int b0 \<and> c_int b1 then Inr (b0, b1) else Inl TypeError
      | BinsInt n \<Rightarrow> if c_int n then Inr (n, n) else Inl OverflowError)"

text \<open>
  \<^verbatim>\<open>fullSplit2D\<close> from the point where the two bin counts are fixed: the three output arrays
  (of one size) and the two arrays of positions are allocated, then the ranges are found,
  then the scratch array \<open>is_inside\<close> of int8 is allocated. The result is
  \<open>(outMerge, edges0, edges1, outData, outCount)\<close>.
\<close>

definition body2D :: "(int \<Rightarrow> bool) \<Rightarrow> pixel list \<Rightarrow> real list \<Rightarrow> int \<Rightarrow> int \<Rightarrow> real list option \<Rightarrow>
    real list option \<Rightarrow> real option \<Rightarrow> real option \<Rightarrow> 8 word list option \<Rightarrow> real list option \<Rightarrow>
    real list option \<Rightarrow> real list option \<Rightarrow> real list option \<Rightarrow>
    error + dbl list list \<times> real list \<times> real list \<times> dbl list list \<times> dbl list list" where
  "body2D mem pos weights all_bins0 all_bins1 pos0Range pos1Range dummy delta_dummy msk dark flat
       solidangle polarization =
     (let size = length weights in
      case np_zeros2 mem 8 all_bins0 all_bins1 (Fin 0) of
        Inl e \<Rightarrow> Inl e
      | Inr zeros \<Rightarrow>
      (case np_zeros mem 8 all_bins0 (0 :: real) of
        Inl e \<Rightarrow> Inl e
      | Inr z0 \<Rightarrow>
      (case np_zeros mem 8 all_bins1 (0 :: real) of
        Inl e \<Rightarrow> Inl e
      | Inr z1 \<Rightarrow>
      (case ranges_of eps64 pos pos0Range pos1Range of
        Inl e \<Rightarrow> Inl e
      | Inr r \<Rightarrow>
          let delta0 = (pos0_max r - pos0_min r) / real_of_int all_bins0;
              delta1 = (pos1_max r - pos1_min r) / real_of_int all_bins1;
              edges0 = linspace (pos0_min r + 0.5 * delta0)
                         (pos0_maxin r - 0.5 * delta0) (nat all_bins0);
              edges1 = linspace (pos1_min r + 0.5 * delta1)
                         (pos1_maxin r - 0.5 * delta1) (nat all_bins1)
          in
          (case np_zeros2 mem 1 \<lfloor>1.5 * sqrt (real size) / real_of_int all_bins0\<rfloor>
                  \<lfloor>1.5 * sqrt (real size) / real_of_int all_bins1\<rfloor> (0 :: int) of
            Inl e \<Rightarrow> Inl e
          | Inr is_inside \<Rightarrow>
            let (chk, dmy, ddmy) = dummy_setup dummy delta_dummy
            in
              if \<not> size_ok msk size \<or> \<not> size_ok dark size \<or> \<not> size_ok flat size \<or>
                 \<not> size_ok polarization size \<or> \<not> size_ok solidangle size
              then Inl AssertionError
              else
                let inp = \<lparr>cpos = pos, cdata = weights, cmask = msk, cdark = dark,
                           cflat = flat, cpolarization = polarization,
                           csolidangle = solidangle, check_dummy = chk, cdummy = dmy,
                           cddummy = ddmy\<rparr>
                in
                  (case loop2D inp r all_bins0 all_bins1 delta0 delta1 [0..<size]
                          ((zeros, zeros), is_inside) of
                     Inl e \<Rightarrow> Inl e
                   | Inr ((outData, outCount), scratch) \<Rightarrow>
                       Inr (merge2 dmy outData outCount (nat all_bins0) (nat all_bins1),
                            edges0, edges1, outData, outCount)))))))"

text \<open>
  \<^verbatim>\<open>fullSplit2D\<close>: the size and shape checks, the bin counts (a count that is not positive
  is replaced by 1), then the body.
\<close>

definition fullSplit2D :: "(int \<Rightarrow> bool) \<Rightarrow> pixel list \<Rightarrow> real list \<Rightarrow> bins_arg \<Rightarrow> real list option \<Rightarrow>
    real list option \<Rightarrow> real option \<Rightarrow> real option \<Rightarrow> 8 word list option \<Rightarrow> real list option \<Rightarrow>
    real list option \<Rightarrow> real list option \<Rightarrow> real list option \<Rightarrow>
    error + dbl list list \<times> real list \<times> real list \<times> dbl list list \<times> dbl list list" where
  "fullSplit2D mem pos weights bins pos0Range pos1Range dummy delta_dummy msk dark flat
       solidangle polarization =
     (let size = length weights in
      if \<not> c_int (int size) then Inl OverflowError
      else if length pos \<noteq> size then Inl AssertionError
      else
        (case bins_of bins of
           Inl e \<Rightarrow> Inl e
         | Inr (b0, b1) \<Rightarrow>
             let all_bins0 = (if b0 \<le> 0 then 1 else b0);
                 all_bins1 = (if b1 \<le> 0 then 1 else b1)
             in body2D mem pos weights all_bins0 all_bins1 pos0Range pos1Range dummy delta_dummy
                  msk dark flat solidangle polarization))"
section \<open>Notions of the specification\<close>

text \<open>
  The skip condition in the words of the specification: the mask is enabled and the pixel is
  masked, or the dummy value is enabled and the intensity matches it.
\<close>

definition skip_spec :: "inputs \<Rightarrow> nat \<Rightarrow> bool" where
  "skip_spec inp idx =
     ((cmask inp \<noteq> None \<and> the (cmask inp) ! idx \<noteq> 0) \<or>
      (check_dummy inp \<and>
         ((cddummy inp = 0 \<and> cdata inp ! idx = cdummy inp) \<or>
          (cddummy inp \<noteq> 0 \<and> \<bar>cdata inp ! idx - cdummy inp\<bar> \<le> cddummy inp))))"

text \<open>
  The wrap-around condition in the words of the specification: two corners above \<open>\<pi>/2\<close> and
  two below \<open>-\<pi>/2\<close>, and the six layouts it lists.
\<close>

definition above :: "real \<Rightarrow> bool" where
  "above x = (pi / 2 < x)"

definition below :: "real \<Rightarrow> bool" where
  "below x = (x < - (pi / 2))"

definition wrap_patterns :: "real \<Rightarrow> real \<Rightarrow> real \<Rightarrow> real \<Rightarrow> bool list" where
  "wrap_patterns a b c d =
     [above a \<and> above b \<and> below c \<and> below d,
      below a \<and> below b \<and> above c \<and> above d,
      above a \<and> below b \<and> above c \<and> below d,
      below a \<and> above b \<and> below c \<and> above d,
      above a \<and> below b \<and> below c \<and> above d,
      below a \<and> above b \<and> above c \<and> below d]"

definition wrap_needed :: "real \<Rightarrow> real \<Rightarrow> real \<Rightarrow> real \<Rightarrow> bool" where
  "wrap_needed a b c d =
     (length (filter above [a, b, c, d]) = 2 \<and> length (filter below [a, b, c, d]) = 2)"

text \<open>The value an empty bin receives: the dummy value, or 0 when none is given.\<close>

definition dummy_or_zero :: "real option \<Rightarrow> real" where
  "dummy_or_zero dummy = (case dummy of Some d \<Rightarrow> d | None \<Rightarrow> 0)"

text \<open>The ends of a run that are not Python exceptions.\<close>

definition ub :: "error \<Rightarrow> bool" where
  "ub e = (e = MemoryFault \<or> e = UndefinedCast)"

text \<open>A two-dimensional array of the given shape.\<close>

definition shape :: "'a list list \<Rightarrow> nat \<Rightarrow> nat \<Rightarrow> bool" where
  "shape m n0 n1 = (length m = n0 \<and> (\<forall>row \<in> set m. length row = n1))"

text \<open>The bin counts \<^verbatim>\<open>fullSplit2D\<close> works with.\<close>

definition clamp_bins :: "bins_arg \<Rightarrow> int \<times> int" where
  "clamp_bins bins =
     (case bins of
        BinsPair b0 b1 \<Rightarrow> (max 1 b0, max 1 b1)
      | BinsInt n \<Rightarrow> (max 1 n, max 1 n))"

text \<open>
  numpy can allocate the arrays of \<^verbatim>\<open>fullSplit2D\<close> for \<open>sz\<close> pixels and \<open>n0\<close> by \<open>n1\<close> bins:
  the three output arrays of doubles, the two arrays of positions, and the scratch array of
  int8.
\<close>

definition alloc2D :: "(int \<Rightarrow> bool) \<Rightarrow> nat \<Rightarrow> int \<Rightarrow> int \<Rightarrow> bool" where
  "alloc2D mem sz n0 n1 =
     (n0 * n1 * 8 < 2 ^ 63 \<and> mem (n0 * n1 * 8) \<and> mem (n0 * 8) \<and> mem (n1 * 8) \<and>
      mem (\<lfloor>1.5 * sqrt (real sz) / real_of_int n0\<rfloor> *
           \<lfloor>1.5 * sqrt (real sz) / real_of_int n1\<rfloor>))"

text \<open>The centre of bin \<open>k\<close> as the entry points compute it.\<close>
definition centre :: "real \<Rightarrow> real \<Rightarrow> real \<Rightarrow> int \<Rightarrow> nat \<Rightarrow> real" where
  "centre lo maxin mx n k =
     lo + (real k + 1 / 2) * ((mx - lo) / real_of_int n)
        - real k * (mx - maxin) / (real_of_int n - 1)"

text \<open>A pixel whose corners have finite bin coordinates.\<close>

definition quad_fin :: "quad \<Rightarrow> bool" where
  "quad_fin q = (is_fin (qa0 q) \<and> is_fin (qa1 q) \<and> is_fin (qb0 q) \<and> is_fin (qb1 q) \<and>
                 is_fin (qc0 q) \<and> is_fin (qc1 q) \<and> is_fin (qd0 q) \<and> is_fin (qd1 q))"




text \<open>Inputs used to run the model on examples, on a machine that has the memory for every array.\<close>

definition enough :: "int \<Rightarrow> bool" where
  "enough nbytes = True"

text \<open>A machine that has no more than 16 bytes for an array.\<close>

definition small_mem :: "int \<Rightarrow> bool" where
  "small_mem nbytes = (nbytes \<le> 16)"

definition px :: "real \<Rightarrow> real \<Rightarrow> real \<Rightarrow> real \<Rightarrow> real \<Rightarrow> real \<Rightarrow> real \<Rightarrow> real \<Rightarrow> pixel" where
  "px a0 a1 b0 b1 c0 c1 d0 d1 =
     \<lparr>c00 = a0, c01 = a1, c10 = b0, c11 = b1, c20 = c0, c21 = c1, c30 = d0, c31 = d1\<rparr>"

definition inp_ex :: inputs where
  "inp_ex = \<lparr>cpos = [px 0 0 0 0 0 0 0 0, px 0 0 0 0 0 0 0 0], cdata = [4, 100],
     cmask = Some [0, 1], cdark = None, cflat = None,
     cpolarization = None, csolidangle = None, check_dummy = True, cdummy = 4, cddummy = 0\<rparr>"

definition r_ex :: ranges where
  "r_ex = \<lparr>pos0_min = 0, pos0_maxin = 2, pos0_max = 5 / 2,
           pos1_min = 0, pos1_maxin = 2, pos1_max = 5 / 2\<rparr>"

definition r32 :: ranges where
  "r32 = \<lparr>pos0_min = 0, pos0_maxin = 3, pos0_max = 3 * (1 + 1 / 2 ^ 23),
           pos1_min = 0, pos1_maxin = 1, pos1_max = 1 + 1 / 2 ^ 23\<rparr>"



section \<open>The geometry of a pixel and a column\<close>

text \<open>
  The notions the partition of a pixel among its bins is stated with, over the reals. A value
  restricted to the interval \<open>[t1, t2]\<close>:
\<close>

definition clampr :: "real \<Rightarrow> real \<Rightarrow> real \<Rightarrow> real" where
  "clampr t1 t2 x = max t1 (min t2 x)"

text \<open>
  The integral from \<open>a\<close> to \<open>b\<close> of the line through the corners \<open>P\<close> and \<open>Q\<close>, with the slope and
  the intersect of the source and its test for equal limits.
\<close>

definition edge_int :: "real \<Rightarrow> real \<Rightarrow> real \<Rightarrow> real \<Rightarrow> real \<Rightarrow> real \<Rightarrow> real" where
  "edge_int p0 p1 q0 q1 a b =
     (if a = b then 0
      else (q1 - p1) / (q0 - p0) * (b * b - a * a) * 0.5
           + (p1 - (q1 - p1) / (q0 - p0) * p0) * (b - a))"

text \<open>The integral of the edge from \<open>P\<close> to \<open>Q\<close> over the slab \<open>[t1, t2]\<close>.\<close>

definition edge_slab :: "real \<Rightarrow> real \<Rightarrow> real \<Rightarrow> real \<Rightarrow> real \<Rightarrow> real \<Rightarrow> real" where
  "edge_slab t1 t2 p0 p1 q0 q1 = edge_int p0 p1 q0 q1 (clampr t1 t2 p0) (clampr t1 t2 q0)"

text \<open>The four edges of a pixel over a slab: the signed area of the part in the slab.\<close>

definition quad_slab :: "real \<Rightarrow> real \<Rightarrow> real \<Rightarrow> real \<Rightarrow> real \<Rightarrow> real \<Rightarrow> real \<Rightarrow> real \<Rightarrow> real \<Rightarrow> real \<Rightarrow> real" where
  "quad_slab t1 t2 a0 a1 b0 b1 c0 c1 d0 d1 =
     edge_slab t1 t2 a0 a1 b0 b1 + edge_slab t1 t2 b0 b1 c0 c1
     + edge_slab t1 t2 c0 c1 d0 d1 + edge_slab t1 t2 d0 d1 a0 a1"

text \<open>The antiderivative of the line through two corners.\<close>

definition prim :: "real \<Rightarrow> real \<Rightarrow> real \<Rightarrow> real \<Rightarrow> real \<Rightarrow> real" where
  "prim p0 p1 q0 q1 x =
     (q1 - p1) / (q0 - p0) * (x * x) * 0.5 + (p1 - (q1 - p1) / (q0 - p0) * p0) * x"

text \<open>Twice the signed area of a triangle.\<close>

definition cross3 :: "real \<Rightarrow> real \<Rightarrow> real \<Rightarrow> real \<Rightarrow> real \<Rightarrow> real \<Rightarrow> real" where
  "cross3 p0 p1 q0 q1 r0 r1 = (q0 - p0) * (r1 - p1) - (r0 - p0) * (q1 - p1)"

text \<open>The three edges of a triangle over a slab.\<close>

definition tri_slab :: "real \<Rightarrow> real \<Rightarrow> real \<Rightarrow> real \<Rightarrow> real \<Rightarrow> real \<Rightarrow> real \<Rightarrow> real \<Rightarrow> real" where
  "tri_slab t1 t2 p0 p1 q0 q1 r0 r1 =
     edge_slab t1 t2 p0 p1 q0 q1 + edge_slab t1 t2 q0 q1 r0 r1 + edge_slab t1 t2 r0 r1 p0 p1"

text \<open>The share of a triangle with the abscissae \<open>x1 \<le> x2 \<le> x3\<close> that lies in a slab.\<close>

definition phi :: "real \<Rightarrow> real \<Rightarrow> real \<Rightarrow> real \<Rightarrow> real \<Rightarrow> real \<Rightarrow> real" where
  "phi x1 x2 x3 a b c =
     ((b - x1) * (b - x1) - (a - x1) * (a - x1)) / ((x2 - x1) * (x3 - x1))
     + ((b - x3) * (b - x3) - (c - x3) * (c - x3)) / ((x3 - x1) * (x3 - x2))"

text \<open>
  The part of a triangle in a slab is its signed area times a share in \<open>[0, 1]\<close>; the share is
  positive when the triangle is not flat and the slab holds its leftmost or its rightmost
  corner together with some part to the other side of it.
\<close>

definition share_ok :: "real \<Rightarrow> real \<Rightarrow> real \<Rightarrow> real \<Rightarrow> real \<Rightarrow> real \<Rightarrow> real \<Rightarrow> real \<Rightarrow> real \<Rightarrow> bool" where
  "share_ok t1 t2 p0 p1 q0 q1 r0 r1 f =
     (0 \<le> f \<and> tri_slab t1 t2 p0 p1 q0 q1 r0 r1 = - (cross3 p0 p1 q0 q1 r0 r1 / 2) * f \<and>
      (cross3 p0 p1 q0 q1 r0 r1 \<noteq> 0 \<and> t1 \<le> min p0 (min q0 r0) \<and> min p0 (min q0 r0) < t2
         \<longrightarrow> 0 < f) \<and>
      (cross3 p0 p1 q0 q1 r0 r1 \<noteq> 0 \<and> t1 < max p0 (max q0 r0) \<and> max p0 (max q0 r0) \<le> t2
         \<longrightarrow> 0 < f))"

text \<open>Twice the signed area of a quadrilateral.\<close>

definition area2 :: "real \<Rightarrow> real \<Rightarrow> real \<Rightarrow> real \<Rightarrow> real \<Rightarrow> real \<Rightarrow> real \<Rightarrow> real \<Rightarrow> real" where
  "area2 a0 a1 b0 b1 c0 c1 d0 d1 = (c0 - a0) * (d1 - b1) - (c1 - a1) * (d0 - b0)"

text \<open>
  A convex quadrilateral: going round the corners, every turn is to the same side
  (three corners on a line count as a turn to either side).
\<close>

definition convex_quad :: "real \<Rightarrow> real \<Rightarrow> real \<Rightarrow> real \<Rightarrow> real \<Rightarrow> real \<Rightarrow> real \<Rightarrow> real \<Rightarrow> bool" where
  "convex_quad a0 a1 b0 b1 c0 c1 d0 d1 =
     ((0 \<le> cross3 a0 a1 b0 b1 c0 c1 \<and> 0 \<le> cross3 b0 b1 c0 c1 d0 d1 \<and>
       0 \<le> cross3 c0 c1 d0 d1 a0 a1 \<and> 0 \<le> cross3 d0 d1 a0 a1 b0 b1) \<or>
      (cross3 a0 a1 b0 b1 c0 c1 \<le> 0 \<and> cross3 b0 b1 c0 c1 d0 d1 \<le> 0 \<and>
       cross3 c0 c1 d0 d1 a0 a1 \<le> 0 \<and> cross3 d0 d1 a0 a1 b0 b1 \<le> 0))"

text \<open>The value of a finite double.\<close>

fun the_fin :: "dbl \<Rightarrow> real" where
  "the_fin (Fin x) = x"
| "the_fin PInf = 0"
| "the_fin NInf = 0"
| "the_fin NaN = 0"

text \<open>A convex pixel, and its area, in the coordinates of the input.\<close>

definition pixel_convex :: "pixel \<Rightarrow> bool" where
  "pixel_convex p = convex_quad (c00 p) (c01 p) (c10 p) (c11 p) (c20 p) (c21 p) (c30 p) (c31 p)"

definition pixel_area :: "pixel \<Rightarrow> real" where
  "pixel_area p = \<bar>area2 (c00 p) (c01 p) (c10 p) (c11 p) (c20 p) (c21 p) (c30 p) (c31 p)\<bar> / 2"

text \<open>
  The weight that the accumulation of \<^verbatim>\<open>fullSplit1D\<close> adds to bin \<open>k\<close> for a pixel whose
  first bin is \<open>lo\<close> and whose last bin is \<open>hi\<close>: 1 on the single-bin path, the weight of the
  column on the split path, and nothing for the bins the loop does not visit.
\<close>

definition bin_weight :: "quad \<Rightarrow> int \<Rightarrow> int \<Rightarrow> int \<Rightarrow> dbl" where
  "bin_weight q lo hi k =
     (if k < lo \<or> hi < k then Fin 0
      else if lo = hi then Fin 1
      else weight0 (shift0 q lo) (k - lo))"

text \<open>The sum of the weights over the bins \<open>0, \<dots>, bins - 1\<close> of the output.\<close>

definition inside_sum :: "quad \<Rightarrow> int \<Rightarrow> int \<Rightarrow> int \<Rightarrow> real" where
  "inside_sum q lo hi bins = sum_list (map (\<lambda>k. the_fin (bin_weight q lo hi k)) [0..bins - 1])"

text \<open>The pixel lies in the output range, which is \<open>[0, bins]\<close> in bin coordinates.\<close>

definition fully_inside :: "quad \<Rightarrow> int \<Rightarrow> bool" where
  "fully_inside q bins = (Fin 0 \<le> qmin0 q \<and> qmax0 q \<le> of_i bins)"

text \<open>
  Two pixels over three bins on \<open>[0, 3]\<close>: one inside the range, one that reaches below it.
\<close>

definition p_mid :: pixel where
  "p_mid = px (1 / 2) 0 (3 / 2) 0 (3 / 2) 1 (1 / 2) 1"

definition inp_mid :: inputs where
  "inp_mid = \<lparr>cpos = [p_mid], cdata = [10], cmask = None, cdark = None, cflat = None,
     cpolarization = None, csolidangle = None, check_dummy = False, cdummy = 0, cddummy = 0\<rparr>"

definition dpos32 :: real where
  "dpos32 = (pos0_max r32 - pos0_min r32) / 3"

definition p_low :: pixel where
  "p_low = px (- 1 / 2) 0 (1 / 2) 0 (1 / 2) 1 (- 1 / 2) 1"

definition inp_low :: inputs where
  "inp_low = inp_mid\<lparr>cpos := [p_low]\<rparr>"

section \<open>Basic facts of the model\<close>

lemma add_at_length: "add_at xs i v = Inr ys \<Longrightarrow> length ys = length xs"
  by (auto simp: add_at_def split: if_splits)

lemma add_at_err: "add_at xs i v = Inl e \<Longrightarrow> ub e"
  by (auto simp: add_at_def ub_def split: if_splits)

lemma to_int_err: "to_int x = Inl e \<Longrightarrow> ub e"
  by (cases x) (auto simp: ub_def Let_def split: if_splits)

lemma split_loop_length:
  "split_loop w dw bs st = Inr st' \<Longrightarrow>
     length (fst st') = length (fst st) \<and> length (snd st') = length (snd st)"
proof (induction bs arbitrary: st)
  case Nil
  then show ?case by simp
next
  case (Cons b bs)
  obtain od oc where st: "st = (od, oc)" by (cases st)
  from Cons.prems st obtain oc1 od1 where
    a: "add_at oc b (w b) = Inr oc1" and b: "add_at od b (dw b) = Inr od1"
    and c: "split_loop w dw bs (od1, oc1) = Inr st'"
    by (auto split: sum.splits)
  from Cons.IH[OF c] add_at_length[OF a] add_at_length[OF b] st show ?case by simp
qed

lemma split_loop_err: "split_loop w dw bs st = Inl e \<Longrightarrow> ub e"
proof (induction bs arbitrary: st)
  case Nil
  then show ?case by simp
next
  case (Cons b bs)
  obtain od oc where st: "st = (od, oc)" by (cases st)
  from Cons.prems st Cons.IH show ?case
    by (auto split: sum.splits dest: add_at_err)
qed

lemma deposit1D_length:
  "deposit1D q data st = Inr st' \<Longrightarrow>
     length (fst st') = length (fst st) \<and> length (snd st') = length (snd st)"
  by (auto simp: deposit1D_def Let_def split: sum.splits if_splits dest!: split_loop_length)

lemma deposit1D_err: "deposit1D q data st = Inl e \<Longrightarrow> ub e"
  by (auto simp: deposit1D_def Let_def split: sum.splits if_splits
      dest: split_loop_err to_int_err)

lemma pixel1D_length:
  "pixel1D inp r bins dpos cp idx st = Inr st' \<Longrightarrow>
     length (fst st') = length (fst st) \<and> length (snd st') = length (snd st)"
  by (auto simp: pixel1D_def Let_def split: if_splits dest!: deposit1D_length)

lemma pixel1D_err: "pixel1D inp r bins dpos cp idx st = Inl e \<Longrightarrow> ub e"
  by (auto simp: pixel1D_def Let_def split: if_splits dest: deposit1D_err)

lemma loop1D_length:
  "loop1D inp r bins dpos cp idxs st = Inr st' \<Longrightarrow>
     length (fst st') = length (fst st) \<and> length (snd st') = length (snd st)"
proof (induction idxs arbitrary: st)
  case Nil
  then show ?case by simp
next
  case (Cons idx idxs)
  then show ?case
    by (auto split: sum.splits dest!: pixel1D_length)
qed

lemma loop1D_err: "loop1D inp r bins dpos cp idxs st = Inl e \<Longrightarrow> ub e"
proof (induction idxs arbitrary: st)
  case Nil
  then show ?case by simp
next
  case (Cons idx idxs)
  then show ?case
    by (auto split: sum.splits dest: pixel1D_err)
qed

lemma merge_nth:
  "k < n \<Longrightarrow> merge dv outData outCount n ! k =
     (if Fin epsilon < outCount ! k then outData ! k / outCount ! k else Fin dv)"
  by (simp add: merge_def)

lemma merge_length: "length (merge dv outData outCount n) = n"
  by (simp add: merge_def)

lemma dummy_setup_value: "fst (snd (dummy_setup dummy delta_dummy)) = dummy_or_zero dummy"
  by (simp add: dummy_setup_def dummy_or_zero_def split: option.splits)

lemma np_zeros_Inr: "np_zeros mem itemsize n x = Inr z \<Longrightarrow> z = replicate (nat n) x"
  by (auto simp: np_zeros_def split: if_splits)

lemma np_zeros_Inl:
  "np_zeros mem itemsize n x = Inl e \<Longrightarrow> e = ValueError \<or> e = MemoryError"
  by (auto simp: np_zeros_def split: if_splits)

lemma np_zeros2_Inr:
  "np_zeros2 mem itemsize n0 n1 x = Inr z \<Longrightarrow> z = replicate (nat n0) (replicate (nat n1) x)"
  by (auto simp: np_zeros2_def split: if_splits)

lemma np_zeros2_Inl:
  "np_zeros2 mem itemsize n0 n1 x = Inl e \<Longrightarrow> e = ValueError \<or> e = MemoryError"
  by (auto simp: np_zeros2_def split: if_splits)

lemma fullSplit1D_result:
  assumes "fullSplit1D mem pos weights bins pos0Range pos1Range dummy delta_dummy msk dark flat
       solidangle polarization = Inr (outPos, outMerge, outData, outCount)"
  shows "length outData = nat bins \<and> length outCount = nat bins \<and>
         outMerge = merge (dummy_or_zero dummy) outData outCount (nat bins)"
  using assms dummy_setup_value[of dummy delta_dummy]
  by (auto simp: fullSplit1D_def Let_def split: if_splits sum.splits prod.splits
      dest!: loop1D_length np_zeros_Inr)

lemma piover2_bounds: "1 \<le> piover2 \<and> piover2 < 2"
  using pi_ge_two pi_less_4 by (simp add: piover2_def)

lemma minus_Fin [simp]: "Fin x - Fin y = Fin (x - y)"
  by (simp add: minus_dbl_def)

lemma divide_Fin: "y \<noteq> 0 \<Longrightarrow> Fin x / Fin y = Fin (x / y)"
  by (simp add: divide_dbl_def)

lemma add_at2_shape: "add_at2 m i j v = Inr m' \<Longrightarrow> shape m n0 n1 \<Longrightarrow> shape m' n0 n1"
  by (auto simp: add_at2_def shape_def in_shape_def split: if_splits dest!: set_update_subset_insert[THEN subsetD])

lemma add_at2_err: "add_at2 m i j v = Inl e \<Longrightarrow> ub e"
  by (auto simp: add_at2_def ub_def split: if_splits)

lemma deposit2_shape:
  "deposit2 w dw i j st = Inr st' \<Longrightarrow> shape (fst st) n0 n1 \<Longrightarrow> shape (snd st) n0 n1 \<Longrightarrow>
     shape (fst st') n0 n1 \<and> shape (snd st') n0 n1"
  by (auto simp: deposit2_def split: sum.splits dest: add_at2_shape)

lemma deposit2_err: "deposit2 w dw i j st = Inl e \<Longrightarrow> ub e"
  by (auto simp: deposit2_def split: sum.splits dest: add_at2_err)

lemma split_loop2_shape:
  "split_loop2 w dw cell bs st = Inr st' \<Longrightarrow> shape (fst st) n0 n1 \<Longrightarrow> shape (snd st) n0 n1 \<Longrightarrow>
     shape (fst st') n0 n1 \<and> shape (snd st') n0 n1"
proof (induction bs arbitrary: st)
  case Nil
  then show ?case by simp
next
  case (Cons b bs)
  from Cons.prems(1) obtain st1 where
    a: "deposit2 (w b) (dw b) (fst (cell b)) (snd (cell b)) st = Inr st1"
    and b: "split_loop2 w dw cell bs st1 = Inr st'"
    by (auto split: sum.splits)
  from deposit2_shape[OF a Cons.prems(2,3)] Cons.IH[OF b] show ?case by simp
qed

lemma split_loop2_err: "split_loop2 w dw cell bs st = Inl e \<Longrightarrow> ub e"
  by (induction bs arbitrary: st) (auto split: sum.splits dest: deposit2_err)

lemma push_err: "push P poly = Inl e \<Longrightarrow> ub e"
  by (auto simp: push_def ub_def split: if_splits)

lemma clip_loop_err: "clip_loop inn out isect S es acc = Inl e \<Longrightarrow> ub e"
  by (induction es arbitrary: S acc) (auto split: sum.splits if_splits dest: push_err)

lemma clip_pass_err: "clip_pass inn out isect poly = Inl e \<Longrightarrow> ub e"
  by (auto simp: clip_pass_def split: if_splits dest: clip_loop_err)

lemma clip_cell_err: "clip_cell poly i j = Inl e \<Longrightarrow> ub e"
  by (auto simp: clip_cell_def split: sum.splits dest: clip_pass_err)

lemma get2_err: "get2 m i j = Inl e \<Longrightarrow> ub e"
  by (auto simp: get2_def ub_def split: if_splits)

lemma put2_err: "put2 m i j v = Inl e \<Longrightarrow> ub e"
  by (auto simp: put2_def ub_def split: if_splits)

lemma fill_inside_err: "fill_inside f ps m = Inl e \<Longrightarrow> ub e"
  by (induction f ps m rule: fill_inside.induct) (auto split: sum.splits dest: put2_err)

lemma general_cell_shape:
  "general_cell quad a data b0 b1 ins i j st = Inr st' \<Longrightarrow> shape (fst st) n0 n1 \<Longrightarrow>
     shape (snd st) n0 n1 \<Longrightarrow> shape (fst st') n0 n1 \<and> shape (snd st') n0 n1"
  by (auto simp: general_cell_def Let_def split: sum.splits if_splits dest: deposit2_shape)

lemma general_cell_err: "general_cell quad a data b0 b1 ins i j st = Inl e \<Longrightarrow> ub e"
  by (auto simp: general_cell_def Let_def split: sum.splits if_splits
      dest: deposit2_err get2_err clip_cell_err)

lemma general_loop_shape:
  "general_loop quad a data b0 b1 ins ps st = Inr st' \<Longrightarrow> shape (fst st) n0 n1 \<Longrightarrow>
     shape (snd st) n0 n1 \<Longrightarrow> shape (fst st') n0 n1 \<and> shape (snd st') n0 n1"
proof (induction ps arbitrary: st)
  case Nil
  then show ?case by simp
next
  case (Cons p ps)
  obtain i j where p: "p = (i, j)" by (cases p)
  from Cons.prems(1) p obtain st1 where
    a: "general_cell quad a data b0 b1 ins i j st = Inr st1"
    and b: "general_loop quad a data b0 b1 ins ps st1 = Inr st'"
    by (auto split: sum.splits)
  from general_cell_shape[OF a Cons.prems(2,3)] Cons.IH[OF b] show ?case by simp
qed

lemma general_loop_err: "general_loop quad a data b0 b1 ins ps st = Inl e \<Longrightarrow> ub e"
proof (induction ps arbitrary: st)
  case Nil
  then show ?case by simp
next
  case (Cons p ps)
  obtain i j where p: "p = (i, j)" by (cases p)
  from Cons.prems p Cons.IH show ?case
    by (auto split: sum.splits dest: general_cell_err)
qed

lemma deposit2D_shape:
  "deposit2D q data st = Inr st' \<Longrightarrow> shape (fst (fst st)) n0 n1 \<Longrightarrow>
     shape (snd (fst st)) n0 n1 \<Longrightarrow>
     shape (fst (fst st')) n0 n1 \<and> shape (snd (fst st')) n0 n1"
  by (auto simp: deposit2D_def Let_def split: sum.splits if_splits
      dest: deposit2_shape split_loop2_shape general_loop_shape)

lemma deposit2D_err: "deposit2D q data st = Inl e \<Longrightarrow> ub e"
  by (auto simp: deposit2D_def Let_def split: sum.splits if_splits
      dest: deposit2_err split_loop2_err general_loop_err fill_inside_err to_int_err)

lemma pixel2D_shape:
  "pixel2D inp r ab0 ab1 delta0 delta1 idx st = Inr st' \<Longrightarrow> shape (fst (fst st)) n0 n1 \<Longrightarrow>
     shape (snd (fst st)) n0 n1 \<Longrightarrow>
     shape (fst (fst st')) n0 n1 \<and> shape (snd (fst st')) n0 n1"
  by (auto simp: pixel2D_def Let_def split: if_splits dest: deposit2D_shape)

lemma pixel2D_err: "pixel2D inp r ab0 ab1 delta0 delta1 idx st = Inl e \<Longrightarrow> ub e"
  by (auto simp: pixel2D_def Let_def split: if_splits dest: deposit2D_err)

lemma loop2D_shape:
  "loop2D inp r ab0 ab1 delta0 delta1 idxs st = Inr st' \<Longrightarrow> shape (fst (fst st)) n0 n1 \<Longrightarrow>
     shape (snd (fst st)) n0 n1 \<Longrightarrow>
     shape (fst (fst st')) n0 n1 \<and> shape (snd (fst st')) n0 n1"
proof (induction idxs arbitrary: st)
  case Nil
  then show ?case by simp
next
  case (Cons idx idxs)
  from Cons.prems(1) obtain st1 where
    a: "pixel2D inp r ab0 ab1 delta0 delta1 idx st = Inr st1"
    and b: "loop2D inp r ab0 ab1 delta0 delta1 idxs st1 = Inr st'"
    by (auto split: sum.splits)
  from pixel2D_shape[OF a Cons.prems(2,3)] Cons.IH[OF b] show ?case by simp
qed

lemma loop2D_err: "loop2D inp r ab0 ab1 delta0 delta1 idxs st = Inl e \<Longrightarrow> ub e"
  by (induction idxs arbitrary: st) (auto split: sum.splits dest: pixel2D_err)

lemma merge2_nth:
  "i < n0 \<Longrightarrow> j < n1 \<Longrightarrow> merge2 dv outData outCount n0 n1 ! i ! j =
     (if Fin epsilon < outCount ! i ! j then outData ! i ! j / outCount ! i ! j else Fin dv)"
  by (simp add: merge2_def)

lemma merge2_shape: "shape (merge2 dv outData outCount n0 n1) n0 n1"
  by (auto simp: merge2_def shape_def)

lemma shape_replicate: "shape (replicate n0 (replicate n1 x)) n0 n1"
  by (auto simp: shape_def)

lemma body2D_result:
  assumes "body2D mem pos weights ab0 ab1 pos0Range pos1Range dummy delta_dummy msk dark flat
       solidangle polarization = Inr (outMerge, edges0, edges1, outData, outCount)"
  shows "shape outData (nat ab0) (nat ab1) \<and> shape outCount (nat ab0) (nat ab1) \<and>
         outMerge = merge2 (dummy_or_zero dummy) outData outCount (nat ab0) (nat ab1)"
  using assms dummy_setup_value[of dummy delta_dummy]
  by (auto simp: body2D_def Let_def shape_replicate split: if_splits sum.splits prod.splits
      dest!: np_zeros2_Inr[where x = "Fin 0"] loop2D_shape[where ?n0.0 = "nat ab0" and ?n1.0 = "nat ab1"])

lemma fullSplit2D_body:
  "fullSplit2D mem pos weights bins pos0Range pos1Range dummy delta_dummy msk dark flat
       solidangle polarization = Inr res \<Longrightarrow>
   body2D mem pos weights (fst (clamp_bins bins)) (snd (clamp_bins bins)) pos0Range pos1Range
       dummy delta_dummy msk dark flat solidangle polarization = Inr res"
  by (auto simp: fullSplit2D_def Let_def bins_of_def clamp_bins_def max_def
      split: if_splits sum.splits bins_arg.splits)

section \<open>Running the model\<close>

lemma upt_small: "[0..<1] = [0]" "[0..<2] = [0, 1]" "[0..<3] = [0, 1, 2]"
  by (simp_all add: upt_rec)

lemma replicate_small:
  "replicate 1 x = [x]" "replicate 2 x = [x, x]" "replicate 3 x = [x, x, x]"
  by (simp_all add: eval_nat_numeral)

lemmas ev1 = fullSplit1D_def np_zeros_def enough_def px_def ranges_of_def axis_range_def lmin_def lmax_def eps32_def
  linspace_def dummy_setup_def size_ok_def pixel1D_def masked_def dummy_match_def getBinNr_def
  minus_dbl_def divide_dbl_def min4_def max4_def cmin_def cmax_def of_i_def correct_def Let_def
  add_at_def split_weight_def column_area_def lim_def b2i_def line_def integrate_def deq_def
  area4_def inf_of_sign_def merge_def epsilon_def axis0_def axis1_def upto.simps
  skip1D_def quad1D_def qmin0_def qmax0_def qmin1_def qmax1_def deposit1D_def weight0_def
  shift0_def areaPixel_def upt_small replicate_small ceiling_minus

lemmas ev2 = fullSplit2D_def body2D_def np_zeros_def np_zeros2_def enough_def bins_of_def c_int_def eps64_def
  px_def ranges_of_def axis_range_def lmin_def lmax_def
  linspace_def dummy_setup_def size_ok_def pixel2D_def masked_def dummy_match_def getBinNr_def
  minus_dbl_def divide_dbl_def min4_def max4_def cmin_def cmax_def of_i_def correct_def Let_def
  b2i_def inf_of_sign_def merge2_def epsilon_def axis0_def axis1_def
  skip2D_def quad2D_def qmin0_def qmax0_def qmin1_def qmax1_def deposit2D_def
  foo_def getBin1Nr_def truthy_def deposit2_def add_at2_def in_shape_def
  upt_small replicate_small ceiling_minus

text \<open>A pixel that covers the halves of bins 0 and 1 of three bins over \<open>[0, 3]\<close>.\<close>

lemma run1D_split:
  "fullSplit1D enough [px (1 / 2) 0 (3 / 2) 0 (3 / 2) 1 (1 / 2) 1] [10] 3 (Some [0, 3]) (Some [0, 1])
       None None None None None None None
   = Inr ([8388609 / 16777216, 3 / 2, 41943039 / 16777216],
          [Fin 10, Fin 10, Fin 0],
          [Fin (20971525 / 4194304), Fin (20971515 / 4194304), Fin 0],
          [Fin (4194305 / 8388608), Fin (4194303 / 8388608), Fin 0])"
  by (simp add: ev1)

text \<open>A pixel inside the cell \<open>(0, 0)\<close> of two by two cells over \<open>[0, 2] \<times> [0, 2]\<close>.\<close>

lemma run2D_cell:
  "fullSplit2D enough [px (1 / 2) (2 / 10) (7 / 10) (2 / 10) (7 / 10) (4 / 10) (1 / 2) (4 / 10)] [4]
       (BinsPair 2 2) (Some [0, 2]) (Some [0, 2]) None None None None None None None
   = Inr ([[Fin 4, Fin 0], [Fin 0, Fin 0]],
          [4503599627370497 / 9007199254740992, 13510798882111487 / 9007199254740992],
          [4503599627370497 / 9007199254740992, 13510798882111487 / 9007199254740992],
          [[Fin 4, Fin 0], [Fin 0, Fin 0]],
          [[Fin 1, Fin 0], [Fin 0, Fin 0]])"
  using piover2_bounds by (simp add: ev2)

text \<open>A pixel that reaches below the lower end of the radial range.\<close>

lemma run1D_oob:
  "fullSplit1D enough [px (- 1 / 2) 0 (1 / 2) 0 (1 / 2) 1 (- 1 / 2) 1] [10] 3 (Some [0, 3])
       (Some [0, 1]) None None None None None None None = Inl MemoryFault"
  by (simp add: ev1)

text \<open>A pixel that lies in one cell beyond the upper end of the azimuthal range.\<close>

lemma run2D_oob:
  "fullSplit2D enough [px (1 / 2) (22 / 10) (7 / 10) (22 / 10) (7 / 10) (24 / 10) (1 / 2) (24 / 10)]
       [4] (BinsPair 2 2) (Some [0, 2]) (Some [0, 2]) None None None None None None None
     = Inl MemoryFault"
  using piover2_bounds by (simp add: ev2)

text \<open>
  A pixel whose azimuthal corners lie in \<open>[5, 6]\<close>, run with the azimuthal range \<open>[0, 1]\<close>.
\<close>

lemma run1D_pos1:
  "fullSplit1D enough [px (1 / 2) 5 (3 / 2) 5 (3 / 2) 6 (1 / 2) 6] [10] 3 (Some [0, 3]) (Some [0, 1])
       None None None None None None None
   = Inr ([8388609 / 16777216, 3 / 2, 41943039 / 16777216],
          [Fin 10, Fin 10, Fin 0],
          [Fin (20971525 / 4194304), Fin (20971515 / 4194304), Fin 0],
          [Fin (4194305 / 8388608), Fin (4194303 / 8388608), Fin 0])"
  by (simp add: ev1)


lemma run1D_empty:
  "fullSplit1D enough [] [] 3 (Some [0, 3]) (Some [0, 1]) None None None None None None None
   = Inr ([8388609 / 16777216, 3 / 2, 41943039 / 16777216],
          [Fin 0, Fin 0, Fin 0], [Fin 0, Fin 0, Fin 0], [Fin 0, Fin 0, Fin 0])"
  by (simp add: ev1)

section \<open>The skip tests of the two entry points\<close>

lemma skip1D_spec: "skip1D inp idx = skip_spec inp idx"
  by (cases "cmask inp") (auto simp: skip1D_def skip_spec_def masked_def dummy_match_def)

lemma skip2D_spec: "skip2D inp idx = skip_spec inp idx"
  by (cases "cmask inp") (auto simp: skip2D_def skip_spec_def masked_def dummy_match_def)

text \<open>
  C10. \<^verbatim>\<open>fullSplit1D\<close> tests the mask and then the dummy value, \<^verbatim>\<open>fullSplit2D\<close> the dummy
  value and then the mask. Both skip a pixel exactly when the mask is enabled and the pixel
  is masked, or the dummy value is enabled and the intensity matches it (equal to it when
  the tolerance is zero, within the tolerance otherwise); a skipped pixel leaves the
  accumulators of either loop as they are.
\<close>

theorem skip_sets_agree:
  "skip1D inp idx = skip_spec inp idx \<and> skip2D inp idx = skip_spec inp idx \<and>
   (skip_spec inp idx \<longrightarrow>
      pixel1D inp r bins dpos check_pos1 idx st1 = Inr st1 \<and>
      pixel2D inp r all_bins0 all_bins1 delta0 delta1 idx st2 = Inr st2)"
  by (simp add: skip1D_spec skip2D_spec pixel1D_def pixel2D_def)

theorem skip_sets_agree_witness:
  "skip_spec inp_ex 0 \<and> skip1D inp_ex 0 \<and> skip2D inp_ex 0 \<and>
   skip_spec inp_ex 1 \<and> skip1D inp_ex 1 \<and> skip2D inp_ex 1 \<and>
   pixel1D inp_ex r_ex 2 1 False 1 ([Fin 0, Fin 0], [Fin 0, Fin 0])
     = Inr ([Fin 0, Fin 0], [Fin 0, Fin 0]) \<and>
   pixel2D inp_ex r_ex 1 1 1 1 1 (([[Fin 0]], [[Fin 0]]), [[0]])
     = Inr (([[Fin 0]], [[Fin 0]]), [[0]])"
proof -
  have h0: "skip_spec inp_ex 0" and h1: "skip_spec inp_ex 1"
    by (simp_all add: skip_spec_def inp_ex_def)
  show ?thesis
    using h0 h1 skip_sets_agree [of inp_ex 0]
      skip_sets_agree [of inp_ex 1 r_ex 2 1 False "([Fin 0, Fin 0], [Fin 0, Fin 0])"
        1 1 1 1 "(([[Fin 0]], [[Fin 0]]), [[0]])"]
    by simp
qed

section \<open>The azimuthal wrap-around\<close>

lemma not_above_below: "\<not> (above x \<and> below x)"
  using pi_gt_zero by (auto simp: above_def below_def simp del: pi_gt_zero)

lemma foo_patterns:
  "foo (Fin a) (Fin b) (Fin c) (Fin d) = b2i (\<exists>P \<in> set (wrap_patterns a b c d). P)"
  by (auto simp: foo_def wrap_patterns_def above_def below_def piover2_def b2i_def)

lemma patterns_disjoint: "length (filter (\<lambda>P. P) (wrap_patterns a b c d)) \<le> 1"
  using not_above_below[of a] not_above_below[of b] not_above_below[of c] not_above_below[of d]
  by (auto simp: wrap_patterns_def)

lemma patterns_count: "(\<exists>P \<in> set (wrap_patterns a b c d). P) = wrap_needed a b c d"
  using not_above_below[of a] not_above_below[of b] not_above_below[of c] not_above_below[of d]
  by (auto simp: wrap_patterns_def wrap_needed_def)

lemma getBin1Nr_shift:
  "getBin1Nr (Fin x) (Fin lo) (Fin delta) (of_i (b2i w)) =
     (if w \<and> x < 0 then getBinNr (Fin (x + 2 * pi)) (Fin lo) (Fin delta)
      else getBinNr (Fin x) (Fin lo) (Fin delta))"
  by (simp add: getBin1Nr_def getBinNr_def truthy_def of_i_def b2i_def)

text \<open>
  C6. On the four azimuthal corner values of a pixel, \<^verbatim>\<open>foo\<close> is 1 exactly when one of the
  six listed layouts holds, that is when two corners lie above \<open>\<pi>/2\<close> and the two others below
  \<open>-\<pi>/2\<close>, and it is 0 otherwise; at most one of the six layouts holds at a time. In
  \<^verbatim>\<open>fullSplit2D\<close> the azimuthal bin coordinate of a corner is that of its value shifted by
  \<open>2\<pi>\<close> when \<^verbatim>\<open>foo\<close> holds and the value is negative, and that of the value itself in every
  other case.
\<close>

theorem wrap_around:
  "foo (Fin a) (Fin b) (Fin c) (Fin d) = b2i (wrap_needed a b c d) \<and>
   wrap_needed a b c d = (\<exists>P \<in> set (wrap_patterns a b c d). P) \<and>
   length (filter (\<lambda>P. P) (wrap_patterns a b c d)) \<le> 1 \<and>
   (let w = wrap_needed (c01 p) (c11 p) (c21 p) (c31 p);
        conv = (\<lambda>x. if w \<and> x < 0 then getBinNr (Fin (x + 2 * pi)) (Fin (pos1_min r)) (Fin delta1)
                     else getBinNr (Fin x) (Fin (pos1_min r)) (Fin delta1));
        q = quad2D p r delta0 delta1
    in qa1 q = conv (c01 p) \<and> qb1 q = conv (c11 p) \<and> qc1 q = conv (c21 p) \<and>
       qd1 q = conv (c31 p))"
  using patterns_disjoint [of a b c d]
  by (simp add: foo_patterns patterns_count quad2D_def Let_def getBin1Nr_shift)

theorem wrap_around_witness:
  "wrap_needed 3 (31 / 10) (- 31 / 10) (- 3) \<and>
   foo (Fin 3) (Fin (31 / 10)) (Fin (- 31 / 10)) (Fin (- 3)) = 1 \<and>
   qc1 (quad2D (px 0 3 0 (31 / 10) 0 (- 31 / 10) 0 (- 3)) r_ex 1 1)
     = Fin (- 31 / 10 + 2 * pi) \<and>
   qa1 (quad2D (px 0 3 0 (31 / 10) 0 (- 31 / 10) 0 (- 3)) r_ex 1 1) = Fin 3 \<and>
   \<not> wrap_needed 1 1 (- 1) (- 1) \<and>
   qc1 (quad2D (px 0 1 0 1 0 (- 1) 0 (- 1)) r_ex 1 1) = Fin (- 1)"
proof -
  have w: "wrap_needed 3 (31 / 10) (- 31 / 10) (- 3)"
    using pi_less_4 pi_ge_two by (simp add: wrap_needed_def above_def below_def)
  have n: "\<not> wrap_needed 1 1 (- 1) (- 1)"
    using pi_less_4 pi_ge_two by (simp add: wrap_needed_def above_def below_def)
  show ?thesis
    using w n
      wrap_around [of 3 "31 / 10" "- 31 / 10" "- 3" "px 0 3 0 (31 / 10) 0 (- 31 / 10) 0 (- 3)"
        r_ex 1 1]
      wrap_around [of 1 1 "- 1" "- 1" "px 0 1 0 1 0 (- 1) 0 (- 1)" r_ex 1 1]
    by (simp add: px_def r_ex_def b2i_def getBinNr_def Let_def minus_dbl_def divide_dbl_def)
qed

section \<open>The final division\<close>

text \<open>
  C2. After a run of \<^verbatim>\<open>fullSplit1D\<close> the three output arrays have one entry per bin, and
  for every bin \<open>k\<close> the entry \<open>outMerge[k]\<close> is \<open>outData[k] / outCount[k]\<close> when
  \<open>outCount[k]\<close> exceeds \<open>1e-10\<close>, and otherwise the dummy value, or 0 when no dummy value was
  given. The same holds for every cell of the arrays of \<^verbatim>\<open>fullSplit2D\<close>.
\<close>

theorem finalization:
  "(fullSplit1D mem pos weights bins pos0Range pos1Range dummy delta_dummy msk dark flat
        solidangle polarization = Inr (outPos, outMerge, outData, outCount) \<longrightarrow>
      length outMerge = nat bins \<and> length outData = nat bins \<and> length outCount = nat bins \<and>
      (\<forall>k < nat bins. outMerge ! k =
         (if Fin (1 / 10 ^ 10) < outCount ! k then outData ! k / outCount ! k
          else Fin (dummy_or_zero dummy)))) \<and>
   (fullSplit2D mem pos weights bins2 pos0Range pos1Range dummy delta_dummy msk dark flat
        solidangle polarization = Inr (outMerge2, edges0, edges1, outData2, outCount2) \<longrightarrow>
      (let n0 = nat (fst (clamp_bins bins2)); n1 = nat (snd (clamp_bins bins2)) in
       shape outMerge2 n0 n1 \<and> shape outData2 n0 n1 \<and> shape outCount2 n0 n1 \<and>
       (\<forall>i < n0. \<forall>j < n1. outMerge2 ! i ! j =
          (if Fin (1 / 10 ^ 10) < outCount2 ! i ! j then outData2 ! i ! j / outCount2 ! i ! j
           else Fin (dummy_or_zero dummy)))))"
proof (intro conjI impI)
  assume a: "fullSplit1D mem pos weights bins pos0Range pos1Range dummy delta_dummy msk dark flat
        solidangle polarization = Inr (outPos, outMerge, outData, outCount)"
  note r = fullSplit1D_result[OF a]
  from r show "length outMerge = nat bins" by (simp add: merge_length)
  from r show "length outData = nat bins" by simp
  from r show "length outCount = nat bins" by simp
  from r show "\<forall>k < nat bins. outMerge ! k =
         (if Fin (1 / 10 ^ 10) < outCount ! k then outData ! k / outCount ! k
          else Fin (dummy_or_zero dummy))"
    by (simp add: merge_nth epsilon_def)
next
  assume a: "fullSplit2D mem pos weights bins2 pos0Range pos1Range dummy delta_dummy msk dark flat
        solidangle polarization = Inr (outMerge2, edges0, edges1, outData2, outCount2)"
  note r = body2D_result[OF fullSplit2D_body[OF a]]
  from r show "let n0 = nat (fst (clamp_bins bins2)); n1 = nat (snd (clamp_bins bins2)) in
       shape outMerge2 n0 n1 \<and> shape outData2 n0 n1 \<and> shape outCount2 n0 n1 \<and>
       (\<forall>i < n0. \<forall>j < n1. outMerge2 ! i ! j =
          (if Fin (1 / 10 ^ 10) < outCount2 ! i ! j then outData2 ! i ! j / outCount2 ! i ! j
           else Fin (dummy_or_zero dummy)))"
    using merge2_shape[of "dummy_or_zero dummy" outData2 outCount2
        "nat (fst (clamp_bins bins2))" "nat (snd (clamp_bins bins2))"]
    by (simp add: Let_def merge2_nth epsilon_def)
qed

theorem finalization_witness:
  "fullSplit1D enough [px (1 / 2) 0 (3 / 2) 0 (3 / 2) 1 (1 / 2) 1] [10] 3 (Some [0, 3]) (Some [0, 1])
       None None None None None None None
   = Inr ([8388609 / 16777216, 3 / 2, 41943039 / 16777216],
          [Fin 10, Fin 10, Fin 0],
          [Fin (20971525 / 4194304), Fin (20971515 / 4194304), Fin 0],
          [Fin (4194305 / 8388608), Fin (4194303 / 8388608), Fin 0]) \<and>
   [Fin 10, Fin 10, Fin 0] ! 1 = Fin (20971515 / 4194304) / Fin (4194303 / 8388608) \<and>
   [Fin 10, Fin 10, Fin 0 :: dbl] ! 2 = Fin (dummy_or_zero None) \<and>
   fullSplit2D enough [px (1 / 2) (2 / 10) (7 / 10) (2 / 10) (7 / 10) (4 / 10) (1 / 2) (4 / 10)] [4]
       (BinsPair 2 2) (Some [0, 2]) (Some [0, 2]) None None None None None None None
   = Inr ([[Fin 4, Fin 0], [Fin 0, Fin 0]],
          [4503599627370497 / 9007199254740992, 13510798882111487 / 9007199254740992],
          [4503599627370497 / 9007199254740992, 13510798882111487 / 9007199254740992],
          [[Fin 4, Fin 0], [Fin 0, Fin 0]],
          [[Fin 1, Fin 0], [Fin 0, Fin 0]]) \<and>
   [[Fin 4, Fin 0], [Fin 0, Fin 0]] ! 0 ! 0 = Fin 4 / Fin 1 \<and>
   [[Fin 4, Fin 0], [Fin 0, Fin 0 :: dbl]] ! 1 ! 1 = Fin (dummy_or_zero None)"
  using run1D_split run2D_cell
    finalization [of enough "[px (1 / 2) 0 (3 / 2) 0 (3 / 2) 1 (1 / 2) 1]" "[10]" 3 "Some [0, 3]"
      "Some [0, 1]" None None None None None None None
      "[8388609 / 16777216, 3 / 2, 41943039 / 16777216]"
      "[Fin 10, Fin 10, Fin 0]"
      "[Fin (20971525 / 4194304), Fin (20971515 / 4194304), Fin 0]"
      "[Fin (4194305 / 8388608), Fin (4194303 / 8388608), Fin 0]"]
    finalization [where mem = enough and pos = "[px (1 / 2) (2 / 10) (7 / 10) (2 / 10) (7 / 10) (4 / 10)
        (1 / 2) (4 / 10)]" and weights = "[4]" and ?bins2.0 = "BinsPair 2 2"
      and pos0Range = "Some [0, 2]" and pos1Range = "Some [0, 2]" and dummy = None
      and delta_dummy = None and msk = None and dark = None and flat = None
      and solidangle = None and polarization = None
      and ?outMerge2.0 = "[[Fin 4, Fin 0], [Fin 0, Fin 0]]"
      and ?outData2.0 = "[[Fin 4, Fin 0], [Fin 0, Fin 0]]"
      and ?outCount2.0 = "[[Fin 1, Fin 0], [Fin 0, Fin 0]]"
      and ?edges0.0 = "[4503599627370497 / 9007199254740992, 13510798882111487 / 9007199254740992]"
      and ?edges1.0 = "[4503599627370497 / 9007199254740992, 13510798882111487 / 9007199254740992]"]
  by (simp add: dummy_or_zero_def divide_dbl_def clamp_bins_def)

section \<open>The validation of the bin counts\<close>

lemma fullSplit1D_err_ub:
  assumes "2 \<le> bins" "bins * 8 < 2 ^ 63" "mem (bins * 8)" "length pos = length weights"
    "size_ok msk (length weights)" "size_ok dark (length weights)" "size_ok flat (length weights)"
    "size_ok polarization (length weights)" "size_ok solidangle (length weights)"
    "ranges_of eps32 pos pos0Range pos1Range = Inr r"
    "fullSplit1D mem pos weights bins pos0Range pos1Range dummy delta_dummy msk dark flat
       solidangle polarization = Inl e"
  shows "ub e"
proof -
  have z: "np_zeros mem 8 bins (Fin 0 :: dbl) = Inr (replicate (nat bins) (Fin 0))"
    using assms(1-3) by (simp add: np_zeros_def)
  have b: "\<not> (bins < 0 \<or> 2 ^ 64 \<le> bins)" "1 < bins" using assms(1,2) by simp_all
  show ?thesis
    using assms(4-11) b
    by (auto simp: fullSplit1D_def z Let_def split: if_splits sum.splits prod.splits
        dest: loop1D_err)
qed

lemma fullSplit1D_alloc:
  assumes "2 \<le> bins" "bins < 2 ^ 64" "length pos = length weights"
  shows "2 ^ 63 \<le> bins * 8 \<Longrightarrow>
           fullSplit1D mem pos weights bins pos0Range pos1Range dummy delta_dummy msk dark flat
             solidangle polarization = Inl ValueError"
    and "bins * 8 < 2 ^ 63 \<Longrightarrow> \<not> mem (bins * 8) \<Longrightarrow>
           fullSplit1D mem pos weights bins pos0Range pos1Range dummy delta_dummy msk dark flat
             solidangle polarization = Inl MemoryError"
  using assms by (simp_all add: fullSplit1D_def np_zeros_def Let_def)

text \<open>The scratch array is never too big for numpy.\<close>

lemma scratch_dim:
  assumes "c_int (int sz)" "1 \<le> n"
  shows "0 \<le> \<lfloor>1.5 * sqrt (real sz) / real_of_int n\<rfloor>"
    and "\<lfloor>1.5 * sqrt (real sz) / real_of_int n\<rfloor> \<le> 2 ^ 17"
proof -
  have n: "1 \<le> real_of_int n" using assms(2) by simp
  have "real sz \<le> 2 ^ 32"
  proof -
    have "int sz < 2 ^ 31" using assms(1) by (simp add: c_int_def)
    then have "int sz \<le> 2 ^ 32" by simp
    then have "real_of_int (int sz) \<le> real_of_int (2 ^ 32)" by (rule of_int_le_iff[THEN iffD2])
    then show ?thesis by simp
  qed
  then have "sqrt (real sz) \<le> sqrt (2 ^ 32)" by (rule real_sqrt_le_mono)
  also have "sqrt (2 ^ 32) = (2 ^ 16 :: real)"
    by (rule real_sqrt_unique) simp_all
  finally have s: "sqrt (real sz) \<le> 2 ^ 16" .
  have s0: "0 \<le> sqrt (real sz)" by simp
  have q0: "0 \<le> 1.5 * sqrt (real sz) / real_of_int n" using s0 n by simp
  then show "0 \<le> \<lfloor>1.5 * sqrt (real sz) / real_of_int n\<rfloor>" by simp
  have "1.5 * sqrt (real sz) * 1 \<le> 1.5 * sqrt (real sz) * real_of_int n"
    using s0 n by (intro mult_left_mono) simp_all
  then have "1.5 * sqrt (real sz) / real_of_int n \<le> 1.5 * sqrt (real sz)"
    using n by (simp add: pos_divide_le_eq)
  also have "\<dots> \<le> 2 ^ 17" using s by simp
  finally have "1.5 * sqrt (real sz) / real_of_int n \<le> real_of_int (2 ^ 17)" by simp
  then have "\<lfloor>1.5 * sqrt (real sz) / real_of_int n\<rfloor> \<le> \<lfloor>real_of_int (2 ^ 17)\<rfloor>"
    by (rule floor_mono)
  then show "\<lfloor>1.5 * sqrt (real sz) / real_of_int n\<rfloor> \<le> 2 ^ 17" by simp
qed

lemma scratch_alloc:
  assumes "c_int (int sz)" "1 \<le> n0" "1 \<le> n1"
    "mem (\<lfloor>1.5 * sqrt (real sz) / real_of_int n0\<rfloor> *
          \<lfloor>1.5 * sqrt (real sz) / real_of_int n1\<rfloor>)"
  shows "\<exists>z. np_zeros2 mem 1 \<lfloor>1.5 * sqrt (real sz) / real_of_int n0\<rfloor>
           \<lfloor>1.5 * sqrt (real sz) / real_of_int n1\<rfloor> (0 :: int) = Inr z"
proof -
  define r where "r = \<lfloor>1.5 * sqrt (real sz) / real_of_int n0\<rfloor>"
  define c where "c = \<lfloor>1.5 * sqrt (real sz) / real_of_int n1\<rfloor>"
  have r: "0 \<le> r" "r \<le> 2 ^ 17" unfolding r_def using scratch_dim[OF assms(1,2)] by simp_all
  have c: "0 \<le> c" "c \<le> 2 ^ 17" unfolding c_def using scratch_dim[OF assms(1,3)] by simp_all
  have "r * c \<le> 2 ^ 17 * 2 ^ 17" using r c by (intro mult_mono) simp_all
  then have "r * c < 2 ^ 63" by simp
  then show ?thesis
    using r c assms(4) unfolding r_def[symmetric] c_def[symmetric] by (simp add: np_zeros2_def)
qed

lemma body2D_err_ub:
  assumes "c_int (int (length weights))" "1 \<le> ab0" "1 \<le> ab1" "c_int ab0" "c_int ab1"
    "alloc2D mem (length weights) ab0 ab1"
    "size_ok msk (length weights)" "size_ok dark (length weights)" "size_ok flat (length weights)"
    "size_ok polarization (length weights)" "size_ok solidangle (length weights)"
    "ranges_of eps64 pos pos0Range pos1Range = Inr r"
    "body2D mem pos weights ab0 ab1 pos0Range pos1Range dummy delta_dummy msk dark flat
       solidangle polarization = Inl e"
  shows "ub e"
proof -
  from assms(6) have a: "ab0 * ab1 * 8 < 2 ^ 63" "mem (ab0 * ab1 * 8)" "mem (ab0 * 8)"
    "mem (ab1 * 8)"
    and s: "mem (\<lfloor>1.5 * sqrt (real (length weights)) / real_of_int ab0\<rfloor> *
          \<lfloor>1.5 * sqrt (real (length weights)) / real_of_int ab1\<rfloor>)"
    by (simp_all add: alloc2D_def)
  have z: "np_zeros2 mem 8 ab0 ab1 (Fin 0 :: dbl) = Inr (replicate (nat ab0) (replicate (nat ab1) (Fin 0)))"
    using assms(2,3) a by (simp add: np_zeros2_def)
  have z0: "np_zeros mem 8 ab0 (0 :: real) = Inr (replicate (nat ab0) 0)"
    using assms(2,4) a by (simp add: np_zeros_def c_int_def)
  have z1: "np_zeros mem 8 ab1 (0 :: real) = Inr (replicate (nat ab1) 0)"
    using assms(3,5) a by (simp add: np_zeros_def c_int_def)
  from scratch_alloc[where mem = mem and sz = "length weights" and ?n0.0 = ab0 and ?n1.0 = ab1]
    assms(1,2,3) s obtain zi where
    zi: "np_zeros2 mem 1 \<lfloor>1.5 * sqrt (real (length weights)) / real_of_int ab0\<rfloor>
           \<lfloor>1.5 * sqrt (real (length weights)) / real_of_int ab1\<rfloor> (0 :: int) = Inr zi"
    by blast
  show ?thesis
    using assms(7-13)
    by (auto simp: body2D_def z z0 z1 zi[simplified] Let_def
        split: if_splits sum.splits prod.splits dest: loop2D_err)
qed

lemma body2D_alloc:
  assumes "1 \<le> ab0" "1 \<le> ab1"
  shows "2 ^ 63 \<le> ab0 * ab1 * 8 \<Longrightarrow>
           body2D mem pos weights ab0 ab1 pos0Range pos1Range dummy delta_dummy msk dark flat
             solidangle polarization = Inl ValueError"
    and "ab0 * ab1 * 8 < 2 ^ 63 \<Longrightarrow> \<not> mem (ab0 * ab1 * 8) \<Longrightarrow>
           body2D mem pos weights ab0 ab1 pos0Range pos1Range dummy delta_dummy msk dark flat
             solidangle polarization = Inl MemoryError"
  using assms by (simp_all add: body2D_def np_zeros2_def Let_def)

lemma fullSplit2D_clamped:
  "bins_of bins = Inr bb \<Longrightarrow> c_int (int (length weights)) \<Longrightarrow> length pos = length weights \<Longrightarrow>
   fullSplit2D mem pos weights bins pos0Range pos1Range dummy delta_dummy msk dark flat
       solidangle polarization =
   body2D mem pos weights (fst (clamp_bins bins)) (snd (clamp_bins bins)) pos0Range pos1Range dummy
       delta_dummy msk dark flat solidangle polarization"
  by (auto simp: fullSplit2D_def Let_def bins_of_def clamp_bins_def max_def
      split: if_splits sum.splits bins_arg.splits)

lemma clamp_bins_c_int:
  "bins_of bins = Inr bb \<Longrightarrow> c_int (fst (clamp_bins bins)) \<and> c_int (snd (clamp_bins bins))"
  by (auto simp: bins_of_def clamp_bins_def c_int_def max_def split: bins_arg.splits if_splits)

lemma clamp_bins_ge: "1 \<le> fst (clamp_bins bins) \<and> 1 \<le> snd (clamp_bins bins)"
  by (auto simp: clamp_bins_def split: bins_arg.splits)

lemma fullSplit2D_pair_clamp:
  "c_int b0 \<Longrightarrow> c_int b1 \<Longrightarrow>
   fullSplit2D mem pos weights (BinsPair b0 b1) pos0Range pos1Range dummy delta_dummy msk dark flat
       solidangle polarization =
   fullSplit2D mem pos weights (BinsPair (max 1 b0) (max 1 b1)) pos0Range pos1Range dummy
       delta_dummy msk dark flat solidangle polarization"
  by (auto simp: fullSplit2D_def Let_def bins_of_def c_int_def max_def)

lemma fullSplit2D_int_clamp:
  "c_int n \<Longrightarrow>
   fullSplit2D mem pos weights (BinsInt n) pos0Range pos1Range dummy delta_dummy msk dark flat
       solidangle polarization =
   fullSplit2D mem pos weights (BinsInt (max 1 n)) pos0Range pos1Range dummy
       delta_dummy msk dark flat solidangle polarization"
  by (auto simp: fullSplit2D_def Let_def bins_of_def c_int_def max_def)

text \<open>
  C7, as the code has it. \<^verbatim>\<open>fullSplit1D\<close> rejects every bin count below 2 before any
  accumulation: a negative one when the argument is converted (OverflowError), 0 and 1 by
  its assertion \<^verbatim>\<open>bins > 1\<close>. A bin count from 2 on passes the assertion; the call then
  allocates its output arrays, and \<^verbatim>\<open>numpy.zeros\<close> raises ValueError for a count of more than
  \<open>2\<^sup>6\<^sup>3 - 1\<close> bytes and MemoryError when the machine does not have the bytes. When the arrays
  are allocated, the sizes of the input arrays match and the ranges are defined, no exception
  is raised. \<^verbatim>\<open>fullSplit2D\<close> raises nothing for a bin count that is not positive: it runs as
  with the count 1 in its place. It raises ValueError or MemoryError when the output arrays
  cannot be allocated and, with arrays of matching sizes, nothing when they can.
\<close>

theorem bins_validation:
  "(bins < 0 \<longrightarrow>
      fullSplit1D mem pos weights bins pos0Range pos1Range dummy delta_dummy msk dark flat
        solidangle polarization = Inl OverflowError) \<and>
   (0 \<le> bins \<and> bins \<le> 1 \<longrightarrow>
      fullSplit1D mem pos weights bins pos0Range pos1Range dummy delta_dummy msk dark flat
        solidangle polarization = Inl AssertionError) \<and>
   (2 \<le> bins \<and> bins < 2 ^ 64 \<and> length pos = length weights \<and> 2 ^ 63 \<le> bins * 8 \<longrightarrow>
      fullSplit1D mem pos weights bins pos0Range pos1Range dummy delta_dummy msk dark flat
        solidangle polarization = Inl ValueError) \<and>
   (2 \<le> bins \<and> bins * 8 < 2 ^ 63 \<and> length pos = length weights \<and> \<not> mem (bins * 8) \<longrightarrow>
      fullSplit1D mem pos weights bins pos0Range pos1Range dummy delta_dummy msk dark flat
        solidangle polarization = Inl MemoryError) \<and>
   (2 \<le> bins \<and> bins * 8 < 2 ^ 63 \<and> mem (bins * 8) \<and> length pos = length weights \<and>
    size_ok msk (length weights) \<and> size_ok dark (length weights) \<and>
    size_ok flat (length weights) \<and> size_ok polarization (length weights) \<and>
    size_ok solidangle (length weights) \<and>
    ranges_of eps32 pos pos0Range pos1Range = Inr r \<longrightarrow>
      (\<forall>e. fullSplit1D mem pos weights bins pos0Range pos1Range dummy delta_dummy msk dark flat
             solidangle polarization = Inl e \<longrightarrow> ub e)) \<and>
   (c_int b0 \<and> c_int b1 \<longrightarrow>
      fullSplit2D mem pos weights (BinsPair b0 b1) pos0Range pos1Range dummy delta_dummy msk dark
        flat solidangle polarization =
      fullSplit2D mem pos weights (BinsPair (max 1 b0) (max 1 b1)) pos0Range pos1Range dummy
        delta_dummy msk dark flat solidangle polarization) \<and>
   (c_int b0 \<longrightarrow>
      fullSplit2D mem pos weights (BinsInt b0) pos0Range pos1Range dummy delta_dummy msk dark
        flat solidangle polarization =
      fullSplit2D mem pos weights (BinsInt (max 1 b0)) pos0Range pos1Range dummy
        delta_dummy msk dark flat solidangle polarization) \<and>
   (bins_of bins2 = Inr bb \<and> c_int (int (length weights)) \<and> length pos = length weights \<and>
    2 ^ 63 \<le> fst (clamp_bins bins2) * snd (clamp_bins bins2) * 8 \<longrightarrow>
      fullSplit2D mem pos weights bins2 pos0Range pos1Range dummy delta_dummy msk dark flat
        solidangle polarization = Inl ValueError) \<and>
   (bins_of bins2 = Inr bb \<and> c_int (int (length weights)) \<and> length pos = length weights \<and>
    fst (clamp_bins bins2) * snd (clamp_bins bins2) * 8 < 2 ^ 63 \<and>
    \<not> mem (fst (clamp_bins bins2) * snd (clamp_bins bins2) * 8) \<longrightarrow>
      fullSplit2D mem pos weights bins2 pos0Range pos1Range dummy delta_dummy msk dark flat
        solidangle polarization = Inl MemoryError) \<and>
   (bins_of bins2 = Inr bb \<and> c_int (int (length weights)) \<and> length pos = length weights \<and>
    alloc2D mem (length weights) (fst (clamp_bins bins2)) (snd (clamp_bins bins2)) \<and>
    size_ok msk (length weights) \<and> size_ok dark (length weights) \<and>
    size_ok flat (length weights) \<and> size_ok polarization (length weights) \<and>
    size_ok solidangle (length weights) \<and>
    ranges_of eps64 pos pos0Range pos1Range = Inr r2 \<longrightarrow>
      (\<forall>e. fullSplit2D mem pos weights bins2 pos0Range pos1Range dummy delta_dummy msk dark flat
             solidangle polarization = Inl e \<longrightarrow> ub e))"
proof (intro conjI impI allI)
  assume "bins < 0"
  then show "fullSplit1D mem pos weights bins pos0Range pos1Range dummy delta_dummy msk dark flat
        solidangle polarization = Inl OverflowError"
    by (simp add: fullSplit1D_def)
next
  assume "0 \<le> bins \<and> bins \<le> 1"
  then show "fullSplit1D mem pos weights bins pos0Range pos1Range dummy delta_dummy msk dark flat
        solidangle polarization = Inl AssertionError"
    by (simp add: fullSplit1D_def Let_def)
next
  assume "2 \<le> bins \<and> bins < 2 ^ 64 \<and> length pos = length weights \<and> 2 ^ 63 \<le> bins * 8"
  then show "fullSplit1D mem pos weights bins pos0Range pos1Range dummy delta_dummy msk dark flat
        solidangle polarization = Inl ValueError"
    using fullSplit1D_alloc(1) by blast
next
  assume a: "2 \<le> bins \<and> bins * 8 < 2 ^ 63 \<and> length pos = length weights \<and> \<not> mem (bins * 8)"
  then have "bins < 2 ^ 64" by simp
  with a show "fullSplit1D mem pos weights bins pos0Range pos1Range dummy delta_dummy msk dark flat
        solidangle polarization = Inl MemoryError"
    using fullSplit1D_alloc(2) by blast
next
  fix e
  assume "2 \<le> bins \<and> bins * 8 < 2 ^ 63 \<and> mem (bins * 8) \<and> length pos = length weights \<and>
    size_ok msk (length weights) \<and> size_ok dark (length weights) \<and>
    size_ok flat (length weights) \<and> size_ok polarization (length weights) \<and>
    size_ok solidangle (length weights) \<and>
    ranges_of eps32 pos pos0Range pos1Range = Inr r"
    and "fullSplit1D mem pos weights bins pos0Range pos1Range dummy delta_dummy msk dark flat
             solidangle polarization = Inl e"
  then show "ub e" using fullSplit1D_err_ub by blast
next
  assume "c_int b0 \<and> c_int b1"
  then show "fullSplit2D mem pos weights (BinsPair b0 b1) pos0Range pos1Range dummy delta_dummy msk dark
        flat solidangle polarization =
      fullSplit2D mem pos weights (BinsPair (max 1 b0) (max 1 b1)) pos0Range pos1Range dummy
        delta_dummy msk dark flat solidangle polarization"
    using fullSplit2D_pair_clamp by blast
next
  assume "c_int b0"
  then show "fullSplit2D mem pos weights (BinsInt b0) pos0Range pos1Range dummy delta_dummy msk dark
        flat solidangle polarization =
      fullSplit2D mem pos weights (BinsInt (max 1 b0)) pos0Range pos1Range dummy
        delta_dummy msk dark flat solidangle polarization"
    using fullSplit2D_int_clamp by blast
next
  assume a: "bins_of bins2 = Inr bb \<and> c_int (int (length weights)) \<and> length pos = length weights \<and>
    2 ^ 63 \<le> fst (clamp_bins bins2) * snd (clamp_bins bins2) * 8"
  then have "fullSplit2D mem pos weights bins2 pos0Range pos1Range dummy delta_dummy msk dark flat
        solidangle polarization =
      body2D mem pos weights (fst (clamp_bins bins2)) (snd (clamp_bins bins2)) pos0Range
      pos1Range dummy delta_dummy msk dark flat solidangle polarization"
    using fullSplit2D_clamped by blast
  also have "\<dots> = Inl ValueError"
    using a clamp_bins_ge[of bins2] body2D_alloc(1) by blast
  finally show "fullSplit2D mem pos weights bins2 pos0Range pos1Range dummy delta_dummy msk dark flat
        solidangle polarization = Inl ValueError" .
next
  assume a: "bins_of bins2 = Inr bb \<and> c_int (int (length weights)) \<and> length pos = length weights \<and>
    fst (clamp_bins bins2) * snd (clamp_bins bins2) * 8 < 2 ^ 63 \<and>
    \<not> mem (fst (clamp_bins bins2) * snd (clamp_bins bins2) * 8)"
  then have "fullSplit2D mem pos weights bins2 pos0Range pos1Range dummy delta_dummy msk dark flat
        solidangle polarization =
      body2D mem pos weights (fst (clamp_bins bins2)) (snd (clamp_bins bins2)) pos0Range
      pos1Range dummy delta_dummy msk dark flat solidangle polarization"
    using fullSplit2D_clamped by blast
  also have "\<dots> = Inl MemoryError"
    using a clamp_bins_ge[of bins2] body2D_alloc(2) by blast
  finally show "fullSplit2D mem pos weights bins2 pos0Range pos1Range dummy delta_dummy msk dark flat
        solidangle polarization = Inl MemoryError" .
next
  fix e
  assume a: "bins_of bins2 = Inr bb \<and> c_int (int (length weights)) \<and> length pos = length weights \<and>
    alloc2D mem (length weights) (fst (clamp_bins bins2)) (snd (clamp_bins bins2)) \<and>
    size_ok msk (length weights) \<and> size_ok dark (length weights) \<and>
    size_ok flat (length weights) \<and> size_ok polarization (length weights) \<and>
    size_ok solidangle (length weights) \<and>
    ranges_of eps64 pos pos0Range pos1Range = Inr r2"
    and b: "fullSplit2D mem pos weights bins2 pos0Range pos1Range dummy delta_dummy msk dark flat
             solidangle polarization = Inl e"
  from a b have "body2D mem pos weights (fst (clamp_bins bins2)) (snd (clamp_bins bins2)) pos0Range
      pos1Range dummy delta_dummy msk dark flat solidangle polarization = Inl e"
    using fullSplit2D_clamped by metis
  with a show "ub e"
    using body2D_err_ub clamp_bins_ge[of bins2] clamp_bins_c_int[of bins2 bb] by blast
qed

theorem bins_validation_witness:
  "fullSplit1D enough [] [] (- 1) (Some [0, 1]) (Some [0, 1]) None None None None None None None
     = Inl OverflowError \<and>
   fullSplit1D enough [] [] 0 (Some [0, 1]) (Some [0, 1]) None None None None None None None
     = Inl AssertionError \<and>
   fullSplit1D enough [] [] (2 ^ 63) (Some [0, 1]) (Some [0, 1]) None None None None None None
     None = Inl ValueError \<and>
   fullSplit1D small_mem [] [] 3 (Some [0, 1]) (Some [0, 1]) None None None None None None None
     = Inl MemoryError \<and>
   ub MemoryFault \<and>
   fullSplit2D enough [] [] (BinsPair 0 (- 3)) (Some [0, 1]) (Some [0, 1]) None None None None
     None None None
   = fullSplit2D enough [] [] (BinsPair 1 1) (Some [0, 1]) (Some [0, 1]) None None None None
     None None None \<and>
   fullSplit2D enough [] [] (BinsInt 0) (Some [0, 1]) (Some [0, 1]) None None None None None
     None None
   = fullSplit2D enough [] [] (BinsInt 1) (Some [0, 1]) (Some [0, 1]) None None None None None
     None None \<and>
   fullSplit2D enough [] [] (BinsPair (2 ^ 31 - 1) (2 ^ 31 - 1)) (Some [0, 1]) (Some [0, 1])
     None None None None None None None = Inl ValueError \<and>
   fullSplit2D small_mem [] [] (BinsPair 2 2) (Some [0, 1]) (Some [0, 1]) None None None None
     None None None = Inl MemoryError"
proof -
  have w1: "fullSplit1D enough [] [] (- 1) (Some [0, 1]) (Some [0, 1]) None None None None None
      None None = Inl OverflowError"
    using bins_validation [where mem = enough and bins = "- 1" and pos = "[]" and weights = "[]"
        and pos0Range = "Some [0, 1]" and pos1Range = "Some [0, 1]" and dummy = None
        and delta_dummy = None and msk = None and dark = None and flat = None
        and solidangle = None and polarization = None]
    by simp
  have w2: "fullSplit1D enough [] [] 0 (Some [0, 1]) (Some [0, 1]) None None None None None None
      None = Inl AssertionError"
    using bins_validation [where mem = enough and bins = 0 and pos = "[]" and weights = "[]"
        and pos0Range = "Some [0, 1]" and pos1Range = "Some [0, 1]" and dummy = None
        and delta_dummy = None and msk = None and dark = None and flat = None
        and solidangle = None and polarization = None]
    by simp
  have h3: "(2 :: int) \<le> 2 ^ 63 \<and> (2 ^ 63 :: int) < 2 ^ 64 \<and>
      length ([] :: pixel list) = length ([] :: real list) \<and> (2 ^ 63 :: int) \<le> 2 ^ 63 * 8"
    by simp
  have w3: "fullSplit1D enough [] [] (2 ^ 63) (Some [0, 1]) (Some [0, 1]) None None None None
      None None None = Inl ValueError"
    using bins_validation [where mem = enough and bins = "2 ^ 63" and pos = "[]"
        and weights = "[]" and pos0Range = "Some [0, 1]" and pos1Range = "Some [0, 1]"
        and dummy = None and delta_dummy = None and msk = None and dark = None and flat = None
        and solidangle = None and polarization = None] h3
    by blast
  have h4: "(2 :: int) \<le> 3 \<and> (3 :: int) * 8 < 2 ^ 63 \<and>
      length ([] :: pixel list) = length ([] :: real list) \<and> \<not> small_mem (3 * 8)"
    by (simp add: small_mem_def)
  have w4: "fullSplit1D small_mem [] [] 3 (Some [0, 1]) (Some [0, 1]) None None None None
      None None None = Inl MemoryError"
    using bins_validation [where mem = small_mem and bins = 3 and pos = "[]"
        and weights = "[]" and pos0Range = "Some [0, 1]" and pos1Range = "Some [0, 1]"
        and dummy = None and delta_dummy = None and msk = None and dark = None and flat = None
        and solidangle = None and polarization = None] h4
    by blast
  have r1: "ranges_of eps32 [px (- 1 / 2) 0 (1 / 2) 0 (1 / 2) 1 (- 1 / 2) 1] (Some [0, 3])
      (Some [0, 1]) = Inr \<lparr>pos0_min = 0, pos0_maxin = 3, pos0_max = 3 * (1 + eps32),
        pos1_min = 0, pos1_maxin = 1, pos1_max = 1 + eps32\<rparr>"
    by (simp add: ranges_of_def axis_range_def lmin_def lmax_def)
  have h5: "(2 :: int) \<le> 3 \<and> (3 :: int) * 8 < 2 ^ 63 \<and> enough (3 * 8) \<and>
      length [px (- 1 / 2) 0 (1 / 2) 0 (1 / 2) 1 (- 1 / 2) 1] = length [10 :: real] \<and>
      size_ok None (length [10 :: real]) \<and> size_ok None (length [10 :: real]) \<and>
      size_ok None (length [10 :: real]) \<and> size_ok None (length [10 :: real]) \<and>
      size_ok None (length [10 :: real]) \<and>
      ranges_of eps32 [px (- 1 / 2) 0 (1 / 2) 0 (1 / 2) 1 (- 1 / 2) 1] (Some [0, 3])
        (Some [0, 1]) = Inr \<lparr>pos0_min = 0, pos0_maxin = 3, pos0_max = 3 * (1 + eps32),
        pos1_min = 0, pos1_maxin = 1, pos1_max = 1 + eps32\<rparr>"
    using r1 by (simp add: size_ok_def enough_def)
  have w5: "ub MemoryFault"
    using bins_validation [where mem = enough and bins = 3
        and pos = "[px (- 1 / 2) 0 (1 / 2) 0 (1 / 2) 1 (- 1 / 2) 1]" and weights = "[10]"
        and pos0Range = "Some [0, 3]" and pos1Range = "Some [0, 1]" and dummy = None
        and delta_dummy = None and msk = None and dark = None and flat = None
        and solidangle = None and polarization = None] h5 run1D_oob
    by blast
  have c: "c_int 0 \<and> c_int (- 3)" by (simp add: c_int_def)
  have w6: "fullSplit2D enough [] [] (BinsPair 0 (- 3)) (Some [0, 1]) (Some [0, 1]) None None
      None None None None None
    = fullSplit2D enough [] [] (BinsPair 1 1) (Some [0, 1]) (Some [0, 1]) None None None None
      None None None"
    using c bins_validation [where mem = enough and pos = "[]" and weights = "[]"
        and pos0Range = "Some [0, 1]" and pos1Range = "Some [0, 1]" and dummy = None
        and delta_dummy = None and msk = None and dark = None and flat = None
        and solidangle = None and polarization = None and ?b0.0 = 0 and ?b1.0 = "- 3"]
    by simp
  have w7: "fullSplit2D enough [] [] (BinsInt 0) (Some [0, 1]) (Some [0, 1]) None None None
      None None None None
    = fullSplit2D enough [] [] (BinsInt 1) (Some [0, 1]) (Some [0, 1]) None None None None
      None None None"
    using c bins_validation [where mem = enough and pos = "[]" and weights = "[]"
        and pos0Range = "Some [0, 1]" and pos1Range = "Some [0, 1]" and dummy = None
        and delta_dummy = None and msk = None and dark = None and flat = None
        and solidangle = None and polarization = None and ?b0.0 = 0 and ?b1.0 = "- 3"]
    by simp
  have h8: "bins_of (BinsPair (2 ^ 31 - 1) (2 ^ 31 - 1)) = Inr (2 ^ 31 - 1, 2 ^ 31 - 1) \<and>
      c_int (int (length ([] :: real list))) \<and>
      length ([] :: pixel list) = length ([] :: real list) \<and>
      2 ^ 63 \<le> fst (clamp_bins (BinsPair (2 ^ 31 - 1) (2 ^ 31 - 1))) *
        snd (clamp_bins (BinsPair (2 ^ 31 - 1) (2 ^ 31 - 1))) * 8"
    by (simp add: bins_of_def c_int_def clamp_bins_def)
  have w8: "fullSplit2D enough [] [] (BinsPair (2 ^ 31 - 1) (2 ^ 31 - 1)) (Some [0, 1])
      (Some [0, 1]) None None None None None None None = Inl ValueError"
    using bins_validation [where mem = enough and pos = "[]" and weights = "[]"
        and pos0Range = "Some [0, 1]" and pos1Range = "Some [0, 1]" and dummy = None
        and delta_dummy = None and msk = None and dark = None and flat = None
        and solidangle = None and polarization = None
        and ?bins2.0 = "BinsPair (2 ^ 31 - 1) (2 ^ 31 - 1)"
        and bb = "(2 ^ 31 - 1, 2 ^ 31 - 1)"] h8
    by blast
  have h9: "bins_of (BinsPair 2 2) = Inr (2, 2) \<and>
      c_int (int (length ([] :: real list))) \<and>
      length ([] :: pixel list) = length ([] :: real list) \<and>
      fst (clamp_bins (BinsPair 2 2)) * snd (clamp_bins (BinsPair 2 2)) * 8 < 2 ^ 63 \<and>
      \<not> small_mem (fst (clamp_bins (BinsPair 2 2)) * snd (clamp_bins (BinsPair 2 2)) * 8)"
    by (simp add: bins_of_def c_int_def clamp_bins_def small_mem_def)
  have w9: "fullSplit2D small_mem [] [] (BinsPair 2 2) (Some [0, 1]) (Some [0, 1]) None None
      None None None None None = Inl MemoryError"
    using bins_validation [where mem = small_mem and pos = "[]" and weights = "[]"
        and pos0Range = "Some [0, 1]" and pos1Range = "Some [0, 1]" and dummy = None
        and delta_dummy = None and msk = None and dark = None and flat = None
        and solidangle = None and polarization = None
        and ?bins2.0 = "BinsPair 2 2" and bb = "(2, 2)"] h9
    by blast
  have r2: "ranges_of eps64 [px (1 / 2) (22 / 10) (7 / 10) (22 / 10) (7 / 10) (24 / 10) (1 / 2)
      (24 / 10)] (Some [0, 2]) (Some [0, 2])
      = Inr \<lparr>pos0_min = 0, pos0_maxin = 2, pos0_max = 2 * (1 + eps64),
        pos1_min = 0, pos1_maxin = 2, pos1_max = 2 * (1 + eps64)\<rparr>"
    by (simp add: ranges_of_def axis_range_def lmin_def lmax_def)
  have h10: "bins_of (BinsPair 2 2) = Inr (2, 2) \<and>
      c_int (int (length [4 :: real])) \<and>
      length [px (1 / 2) (22 / 10) (7 / 10) (22 / 10) (7 / 10) (24 / 10) (1 / 2) (24 / 10)]
        = length [4 :: real] \<and>
      alloc2D enough (length [4 :: real]) (fst (clamp_bins (BinsPair 2 2)))
        (snd (clamp_bins (BinsPair 2 2))) \<and>
      size_ok None (length [4 :: real]) \<and> size_ok None (length [4 :: real]) \<and>
      size_ok None (length [4 :: real]) \<and> size_ok None (length [4 :: real]) \<and>
      size_ok None (length [4 :: real]) \<and>
      ranges_of eps64 [px (1 / 2) (22 / 10) (7 / 10) (22 / 10) (7 / 10) (24 / 10) (1 / 2)
        (24 / 10)] (Some [0, 2]) (Some [0, 2])
      = Inr \<lparr>pos0_min = 0, pos0_maxin = 2, pos0_max = 2 * (1 + eps64),
        pos1_min = 0, pos1_maxin = 2, pos1_max = 2 * (1 + eps64)\<rparr>"
    using r2 by (simp add: bins_of_def c_int_def clamp_bins_def alloc2D_def enough_def size_ok_def)
  have w10: "ub MemoryFault"
    using bins_validation [where mem = enough
        and pos = "[px (1 / 2) (22 / 10) (7 / 10) (22 / 10) (7 / 10) (24 / 10) (1 / 2) (24 / 10)]"
        and weights = "[4]" and pos0Range = "Some [0, 2]" and pos1Range = "Some [0, 2]"
        and dummy = None and delta_dummy = None and msk = None and dark = None and flat = None
        and solidangle = None and polarization = None
        and ?bins2.0 = "BinsPair 2 2" and bb = "(2, 2)"] h10 run2D_oob
    by blast
  from w1 w2 w3 w4 w5 w6 w7 w8 w9 w10 show ?thesis by blast
qed

text \<open>
  The claim as it is written fails on both entry points: \<^verbatim>\<open>fullSplit1D\<close> raises for the
  positive bin count 1, and \<^verbatim>\<open>fullSplit2D\<close> returns its arrays for the bin count 0.
\<close>

theorem bins_validation_counterexample:
  "fullSplit1D enough [] [] 1 (Some [0, 1]) (Some [0, 1]) None None None None None None None
     = Inl AssertionError \<and>
   fullSplit2D enough [] [] (BinsInt 0) (Some [0, 1]) (Some [0, 1]) None None None None None
     None None
     = Inr ([[Fin 0]], [4503599627370497 / 9007199254740992],
            [4503599627370497 / 9007199254740992], [[Fin 0]], [[Fin 0]])"
  by (simp add: ev1 ev2)
section \<open>The bin centres\<close>

lemma linspace_length: "length (linspace start stop num) = num"
  by (simp add: linspace_def)

lemma linspace_nth:
  assumes "k < num"
  shows "linspace start stop num ! k = start + real k * ((stop - start) / (real num - 1))"
proof (cases "num = 1")
  case True
  with assms show ?thesis by (simp add: linspace_def)
next
  case False
  with assms have n: "2 \<le> num" by simp
  show ?thesis
  proof (cases "k < num - 1")
    case True
    with n show ?thesis
      by (simp add: linspace_def nth_append of_nat_diff)
  next
    case False
    with assms have k: "k = num - 1" by simp
    from n have "real (num - 1) = real num - 1" by (simp add: of_nat_diff)
    moreover from n have "real num - 1 \<noteq> 0" by simp
    ultimately show ?thesis using n k
      by (simp add: linspace_def nth_append)
  qed
qed

lemma centre_linspace:
  assumes "0 < n" "k < nat n"
  shows "linspace (lo + 0.5 * ((mx - lo) / real_of_int n))
           (maxin - 0.5 * ((mx - lo) / real_of_int n)) (nat n) ! k = centre lo maxin mx n k"
proof -
  have rn: "real (nat n) = real_of_int n" using assms by simp
  show ?thesis
  proof (cases "n = 1")
    case True
    with assms show ?thesis by (simp add: linspace_nth centre_def)
  next
    case False
    with assms have "real_of_int n - 1 \<noteq> 0" "real_of_int n \<noteq> 0" by simp_all
    then show ?thesis using assms
      by (simp add: linspace_nth[OF assms(2)] rn centre_def field_simps)
  qed
qed

lemma fullSplit1D_outPos:
  assumes "fullSplit1D mem pos weights bins pos0Range pos1Range dummy delta_dummy msk dark flat
       solidangle polarization = Inr (outPos, outMerge, outData, outCount)"
    and "ranges_of eps32 pos pos0Range pos1Range = Inr r"
  shows "outPos = linspace (pos0_min r + 0.5 * ((pos0_max r - pos0_min r) / real_of_int bins))
     (pos0_maxin r - 0.5 * ((pos0_max r - pos0_min r) / real_of_int bins)) (nat bins) \<and> 1 < bins"
  using assms
  by (auto simp: fullSplit1D_def Let_def ac_simps split: if_splits sum.splits prod.splits)

lemma body2D_edges:
  assumes "body2D mem pos weights ab0 ab1 pos0Range pos1Range dummy delta_dummy msk dark flat
       solidangle polarization = Inr (outMerge, edges0, edges1, outData, outCount)"
    and "ranges_of eps64 pos pos0Range pos1Range = Inr r"
  shows "edges0 = linspace (pos0_min r + 0.5 * ((pos0_max r - pos0_min r) / real_of_int ab0))
     (pos0_maxin r - 0.5 * ((pos0_max r - pos0_min r) / real_of_int ab0)) (nat ab0) \<and>
     edges1 = linspace (pos1_min r + 0.5 * ((pos1_max r - pos1_min r) / real_of_int ab1))
     (pos1_maxin r - 0.5 * ((pos1_max r - pos1_min r) / real_of_int ab1)) (nat ab1)"
  using assms
  by (auto simp: body2D_def Let_def ac_simps split: if_splits sum.splits prod.splits)

lemma clamp_bins_pos: "0 < fst (clamp_bins b) \<and> 0 < snd (clamp_bins b)"
  by (cases b) (auto simp: clamp_bins_def max_def)

text \<open>
  C9, as the code has it. The positions are \<^verbatim>\<open>linspace\<close> samples from \<open>pos0_min + d0 / 2\<close> to
  \<open>pos0_maxin - d0 / 2\<close>, where \<open>d0 = (pos0_max - pos0_min) / bins\<close> is the bin width used
  for splitting: entry \<open>k\<close> is \<open>pos0_min + (k + 1/2) d0 - k (pos0_max - pos0_maxin) / (bins - 1)\<close>.
  So the first entry is the centre of bin 0, and entry \<open>k\<close> lies below the centre of bin \<open>k\<close>
  by \<open>k\<close> times the expansion of the upper bound divided by \<open>bins - 1\<close>. The same holds for
  \<open>edges0\<close> and \<open>edges1\<close> of \<^verbatim>\<open>fullSplit2D\<close> with their own ranges and bin counts.
\<close>

theorem bin_centres:
  "(fullSplit1D mem pos weights bins pos0Range pos1Range dummy delta_dummy msk dark flat
        solidangle polarization = Inr (outPos, outMerge, outData, outCount) \<and>
    ranges_of eps32 pos pos0Range pos1Range = Inr r \<longrightarrow>
      length outPos = nat bins \<and>
      (\<forall>k < nat bins. outPos ! k = centre (pos0_min r) (pos0_maxin r) (pos0_max r) bins k)) \<and>
   (fullSplit2D mem pos weights bins2 pos0Range pos1Range dummy delta_dummy msk dark flat
        solidangle polarization = Inr (outMerge2, edges0, edges1, outData2, outCount2) \<and>
    ranges_of eps64 pos pos0Range pos1Range = Inr r2 \<longrightarrow>
      (let n0 = fst (clamp_bins bins2); n1 = snd (clamp_bins bins2) in
       length edges0 = nat n0 \<and> length edges1 = nat n1 \<and>
       (\<forall>k < nat n0. edges0 ! k = centre (pos0_min r2) (pos0_maxin r2) (pos0_max r2) n0 k) \<and>
       (\<forall>k < nat n1. edges1 ! k = centre (pos1_min r2) (pos1_maxin r2) (pos1_max r2) n1 k)))"
proof (intro conjI impI)
  assume a: "fullSplit1D mem pos weights bins pos0Range pos1Range dummy delta_dummy msk dark flat
        solidangle polarization = Inr (outPos, outMerge, outData, outCount) \<and>
    ranges_of eps32 pos pos0Range pos1Range = Inr r"
  note o = fullSplit1D_outPos[OF conjunct1[OF a] conjunct2[OF a]]
  from o show "length outPos = nat bins" by (simp add: linspace_length)
  from o have b: "0 < bins" by simp
  show "\<forall>k < nat bins. outPos ! k = centre (pos0_min r) (pos0_maxin r) (pos0_max r) bins k"
    using o centre_linspace[OF b] by simp
next
  assume a: "fullSplit2D mem pos weights bins2 pos0Range pos1Range dummy delta_dummy msk dark flat
        solidangle polarization = Inr (outMerge2, edges0, edges1, outData2, outCount2) \<and>
    ranges_of eps64 pos pos0Range pos1Range = Inr r2"
  note o = body2D_edges[OF fullSplit2D_body[OF conjunct1[OF a]] conjunct2[OF a]]
  note p = clamp_bins_pos[of bins2]
  show "let n0 = fst (clamp_bins bins2); n1 = snd (clamp_bins bins2) in
       length edges0 = nat n0 \<and> length edges1 = nat n1 \<and>
       (\<forall>k < nat n0. edges0 ! k = centre (pos0_min r2) (pos0_maxin r2) (pos0_max r2) n0 k) \<and>
       (\<forall>k < nat n1. edges1 ! k = centre (pos1_min r2) (pos1_maxin r2) (pos1_max r2) n1 k)"
    using o centre_linspace[OF conjunct1[OF p]] centre_linspace[OF conjunct2[OF p]]
    by (simp add: Let_def linspace_length)
qed

theorem bin_centres_witness:
  "fullSplit1D enough [px (1 / 2) 0 (3 / 2) 0 (3 / 2) 1 (1 / 2) 1] [10] 3 (Some [0, 3]) (Some [0, 1])
       None None None None None None None
   = Inr ([8388609 / 16777216, 3 / 2, 41943039 / 16777216],
          [Fin 10, Fin 10, Fin 0],
          [Fin (20971525 / 4194304), Fin (20971515 / 4194304), Fin 0],
          [Fin (4194305 / 8388608), Fin (4194303 / 8388608), Fin 0]) \<and>
   ranges_of eps32 [px (1 / 2) 0 (3 / 2) 0 (3 / 2) 1 (1 / 2) 1] (Some [0, 3]) (Some [0, 1])
     = Inr r32 \<and>
   centre 0 3 (3 * (1 + 1 / 2 ^ 23)) 3 2 = 41943039 / 16777216 \<and>
   centre 0 3 (3 * (1 + 1 / 2 ^ 23)) 3 0 = 8388609 / 16777216"
proof -
  have r: "ranges_of eps32 [px (1 / 2) 0 (3 / 2) 0 (3 / 2) 1 (1 / 2) 1] (Some [0, 3])
      (Some [0, 1]) = Inr r32"
    by (simp add: ranges_of_def axis_range_def lmin_def lmax_def r32_def eps32_def)
  from run1D_split r
    bin_centres [where mem = enough and pos = "[px (1 / 2) 0 (3 / 2) 0 (3 / 2) 1 (1 / 2) 1]" and weights = "[10]"
      and bins = 3 and pos0Range = "Some [0, 3]" and pos1Range = "Some [0, 1]" and dummy = None
      and delta_dummy = None and msk = None and dark = None and flat = None
      and solidangle = None and polarization = None and r = r32
      and outPos = "[8388609 / 16777216, 3 / 2, 41943039 / 16777216]"
      and outMerge = "[Fin 10, Fin 10, Fin 0]"
      and outData = "[Fin (20971525 / 4194304), Fin (20971515 / 4194304), Fin 0]"
      and outCount = "[Fin (4194305 / 8388608), Fin (4194303 / 8388608), Fin 0]"]
  show ?thesis
    by (simp add: centre_def r32_def)
qed

text \<open>
  The claim as it is written fails for the last of three bins over \<open>[0, 3]\<close>: the position is
  not \<open>pos0_min + 2.5 d0\<close>.
\<close>

theorem bin_centres_counterexample:
  "fullSplit1D enough [px (1 / 2) 0 (3 / 2) 0 (3 / 2) 1 (1 / 2) 1] [10] 3 (Some [0, 3]) (Some [0, 1])
       None None None None None None None
   = Inr ([8388609 / 16777216, 3 / 2, 41943039 / 16777216],
          [Fin 10, Fin 10, Fin 0],
          [Fin (20971525 / 4194304), Fin (20971515 / 4194304), Fin 0],
          [Fin (4194305 / 8388608), Fin (4194303 / 8388608), Fin 0]) \<and>
   ranges_of eps32 [px (1 / 2) 0 (3 / 2) 0 (3 / 2) 1 (1 / 2) 1] (Some [0, 3]) (Some [0, 1])
     = Inr r32 \<and>
   [8388609 / 16777216, 3 / 2, 41943039 / 16777216] ! 2
     \<noteq> pos0_min r32 + (2 + 1 / 2) * ((pos0_max r32 - pos0_min r32) / 3)"
  using run1D_split
  by (simp add: ranges_of_def axis_range_def lmin_def lmax_def r32_def eps32_def)

section \<open>The upper bound of the radial range\<close>












section \<open>The indices of the accumulation\<close>

text \<open>
  C4. The accumulation does not keep its indices inside the output arrays. In
  \<^verbatim>\<open>fullSplit1D\<close> a pixel that reaches below the lower end of the radial range
  (\<open>min0 < 0 \<le> max0\<close>) is accepted and its first bin is \<open>floor(min0) < 0\<close>; in
  \<^verbatim>\<open>fullSplit2D\<close> a pixel inside one cell beyond the upper end of the azimuthal range is
  accepted and written at \<open>bin1_min \<ge> all_bins1\<close>. With the bounds checks disabled both are
  accesses outside the arrays.
\<close>

theorem out_of_bounds_write:
  "fullSplit1D enough [px (- 1 / 2) 0 (1 / 2) 0 (1 / 2) 1 (- 1 / 2) 1] [10] 3 (Some [0, 3])
       (Some [0, 1]) None None None None None None None = Inl MemoryFault \<and>
   fullSplit2D enough [px (1 / 2) (22 / 10) (7 / 10) (22 / 10) (7 / 10) (24 / 10) (1 / 2) (24 / 10)]
       [4] (BinsPair 2 2) (Some [0, 2]) (Some [0, 2]) None None None None None None None
     = Inl MemoryFault"
  using run1D_oob run2D_oob by simp

theorem out_of_bounds_write_witness:
  "(case fullSplit1D enough [px (- 1 / 2) 0 (1 / 2) 0 (1 / 2) 1 (- 1 / 2) 1] [10] 3 (Some [0, 3])
       (Some [0, 1]) None None None None None None None of
      Inl e \<Rightarrow> ub e | Inr res \<Rightarrow> False) \<and>
   (case fullSplit2D enough [px (1 / 2) (22 / 10) (7 / 10) (22 / 10) (7 / 10) (24 / 10) (1 / 2)
       (24 / 10)] [4] (BinsPair 2 2) (Some [0, 2]) (Some [0, 2]) None None None None None
       None None of
      Inl e \<Rightarrow> ub e | Inr res \<Rightarrow> False)"
  using out_of_bounds_write by (simp add: ub_def)

section \<open>The azimuthal filter of the 1D entry point\<close>

text \<open>
  C5. With the azimuthal range \<open>[0, 1]\<close> given, a pixel whose azimuthal corners lie in
  \<open>[5, 6]\<close> is not discarded by \<^verbatim>\<open>fullSplit1D\<close>: it is split over bins 0 and 1 like any
  other pixel. The flag that guards the filter is never set.
\<close>

theorem pos1_filter_inactive:
  "fullSplit1D enough [px (1 / 2) 5 (3 / 2) 5 (3 / 2) 6 (1 / 2) 6] [10] 3 (Some [0, 3]) (Some [0, 1])
       None None None None None None None
   = Inr ([8388609 / 16777216, 3 / 2, 41943039 / 16777216],
          [Fin 10, Fin 10, Fin 0],
          [Fin (20971525 / 4194304), Fin (20971515 / 4194304), Fin 0],
          [Fin (4194305 / 8388608), Fin (4194303 / 8388608), Fin 0]) \<and>
   fullSplit1D enough [px (1 / 2) 5 (3 / 2) 5 (3 / 2) 6 (1 / 2) 6] [10] 3 (Some [0, 3]) (Some [0, 1])
       None None None None None None None
   = fullSplit1D enough [px (1 / 2) 0 (3 / 2) 0 (3 / 2) 1 (1 / 2) 1] [10] 3 (Some [0, 3]) (Some [0, 1])
       None None None None None None None"
  using run1D_pos1 run1D_split by simp

theorem pos1_filter_inactive_witness:
  "fullSplit1D enough [px (1 / 2) 5 (3 / 2) 5 (3 / 2) 6 (1 / 2) 6] [10] 3 (Some [0, 3]) (Some [0, 1])
       None None None None None None None
   \<noteq> fullSplit1D enough [] [] 3 (Some [0, 3]) (Some [0, 1]) None None None None None None None"
  using pos1_filter_inactive run1D_empty by simp

section \<open>Pixels of zero area\<close>

lemma is_fin_iff: "is_fin x = (\<exists>r. x = Fin r)"
  by (cases x) simp_all



lemma add_nonfin_left: "\<not> is_fin x \<Longrightarrow> \<not> is_fin (x + y)"
  by (cases x; cases y) simp_all








lemma quad_fin_shift1: "quad_fin q \<Longrightarrow> quad_fin (shift1 q k)"
  by (auto simp: quad_fin_def shift1_def is_fin_iff of_i_def)
































section \<open>The partition of a pixel among its bins\<close>

subsection \<open>Edges, triangles and quadrilaterals over a slab\<close>

lemma edge_slab_vertical: "edge_slab t1 t2 p0 p1 p0 q1 = 0"
  by (simp add: edge_slab_def edge_int_def)

lemma edge_slab_prim:
  "edge_slab t1 t2 p0 p1 q0 q1 =
     prim p0 p1 q0 q1 (clampr t1 t2 q0) - prim p0 p1 q0 q1 (clampr t1 t2 p0)"
proof -
  define s where "s = (q1 - p1) / (q0 - p0)"
  define a where "a = clampr t1 t2 p0"
  define b where "b = clampr t1 t2 q0"
  have "(if a = b then 0 else s * (b * b - a * a) * 0.5 + (p1 - s * p0) * (b - a)) =
      (s * (b * b) * 0.5 + (p1 - s * p0) * b) - (s * (a * a) * 0.5 + (p1 - s * p0) * a)"
    by (simp add: algebra_simps)
  then show ?thesis
    unfolding edge_slab_def edge_int_def prim_def s_def a_def b_def .
qed

lemma prim_rev: "p0 \<noteq> q0 \<Longrightarrow> prim q0 q1 p0 p1 x = prim p0 p1 q0 q1 x"
proof -
  assume "p0 \<noteq> q0"
  then have n: "q0 - p0 \<noteq> 0" "p0 - q0 \<noteq> 0" by simp_all
  have s: "(p1 - q1) / (p0 - q0) = (q1 - p1) / (q0 - p0)"
    using n by (simp add: field_simps)
  have "q1 - (q1 - p1) / (q0 - p0) * q0 = p1 - (q1 - p1) / (q0 - p0) * p0"
    using n by (simp add: field_simps)
  then show ?thesis by (simp add: prim_def s)
qed

lemma edge_slab_rev: "edge_slab t1 t2 q0 q1 p0 p1 = - edge_slab t1 t2 p0 p1 q0 q1"
proof (cases "p0 = q0")
  case True
  then show ?thesis by (simp add: edge_slab_vertical)
next
  case False
  then show ?thesis by (simp add: edge_slab_prim prim_rev)
qed

lemma clampr_split:
  assumes "t1 \<le> t2" "t2 \<le> t3"
  shows "(x \<le> t2 \<and> clampr t1 t3 x = clampr t1 t2 x \<and> clampr t2 t3 x = t2) \<or>
         (t2 \<le> x \<and> clampr t1 t3 x = clampr t2 t3 x \<and> clampr t1 t2 x = t2)"
  using assms by (auto simp: clampr_def max_def min_def)

lemma prim_add:
  assumes "t1 \<le> t2" "t2 \<le> t3"
  shows "prim p0 p1 q0 q1 (clampr t1 t3 x) =
     prim p0 p1 q0 q1 (clampr t1 t2 x) + prim p0 p1 q0 q1 (clampr t2 t3 x) - prim p0 p1 q0 q1 t2"
  using clampr_split[OF assms, of x] by auto

lemma edge_slab_add:
  assumes "t1 \<le> t2" "t2 \<le> t3"
  shows "edge_slab t1 t3 p0 p1 q0 q1 = edge_slab t1 t2 p0 p1 q0 q1 + edge_slab t2 t3 p0 p1 q0 q1"
  by (simp add: edge_slab_prim prim_add[OF assms])

lemma quad_slab_add:
  assumes "t1 \<le> t2" "t2 \<le> t3"
  shows "quad_slab t1 t3 a0 a1 b0 b1 c0 c1 d0 d1 =
     quad_slab t1 t2 a0 a1 b0 b1 c0 c1 d0 d1 + quad_slab t2 t3 a0 a1 b0 b1 c0 c1 d0 d1"
  by (simp add: quad_slab_def edge_slab_add[OF assms])

lemma edge_slab_full:
  assumes "t1 \<le> p0" "p0 \<le> t2" "t1 \<le> q0" "q0 \<le> t2"
  shows "edge_slab t1 t2 p0 p1 q0 q1 = (q0 - p0) * (p1 + q1) / 2"
proof (cases "p0 = q0")
  case True
  then show ?thesis by (simp add: edge_slab_vertical)
next
  case False
  then have n: "q0 - p0 \<noteq> 0" by simp
  define s where "s = (q1 - p1) / (q0 - p0)"
  have q1: "q1 = p1 + s * (q0 - p0)" using n by (simp add: s_def)
  have c: "clampr t1 t2 p0 = p0" "clampr t1 t2 q0 = q0"
    using assms by (simp_all add: clampr_def)
  have "s * (q0 * q0) * 0.5 + (p1 - s * p0) * q0 - (s * (p0 * p0) * 0.5 + (p1 - s * p0) * p0)
      = (q0 - p0) * (p1 + (p1 + s * (q0 - p0))) / 2"
    by (simp add: algebra_simps)
  then show ?thesis
    unfolding edge_slab_prim c prim_def s_def[symmetric] using q1 by simp
qed

lemma quad_slab_full:
  assumes "t1 \<le> a0" "a0 \<le> t2" "t1 \<le> b0" "b0 \<le> t2" "t1 \<le> c0" "c0 \<le> t2" "t1 \<le> d0" "d0 \<le> t2"
  shows "quad_slab t1 t2 a0 a1 b0 b1 c0 c1 d0 d1 =
     - ((c0 - a0) * (d1 - b1) - (c1 - a1) * (d0 - b0)) / 2"
  using assms by (simp add: quad_slab_def edge_slab_full field_simps)

lemma tri_poly:
  fixes s1 s2 s3 :: real
  assumes q1: "q1 = p1 + s1 * (q0 - p0)" and r1: "r1 = q1 + s2 * (r0 - q0)"
    and s3: "s3 * (r0 - p0) = r1 - p1"
  shows "(r0 - p0) *
     (s1 * (b * b) * 0.5 + (p1 - s1 * p0) * b - (s1 * (a * a) * 0.5 + (p1 - s1 * p0) * a)
      + (s2 * (c * c) * 0.5 + (q1 - s2 * q0) * c - (s2 * (b * b) * 0.5 + (q1 - s2 * q0) * b))
      + (s3 * (a * a) * 0.5 + (r1 - s3 * r0) * a - (s3 * (c * c) * 0.5 + (r1 - s3 * r0) * c)))
     = - ((s2 - s1) / 2) *
       ((r0 - q0) * ((b - p0) * (b - p0) - (a - p0) * (a - p0))
        + (q0 - p0) * ((b - r0) * (b - r0) - (c - r0) * (c - r0)))"
proof -
  have e: "(r0 - p0) * (s3 * (a * a) * 0.5 + (r1 - s3 * r0) * a - (s3 * (c * c) * 0.5 + (r1 - s3 * r0) * c))
     = (s3 * (r0 - p0)) * (a * a - c * c) * 0.5 + (r1 * (r0 - p0) - (s3 * (r0 - p0)) * r0) * (a - c)"
    by (simp add: field_simps)
  show ?thesis
    unfolding distrib_left[of "r0 - p0"] e s3
    unfolding r1 q1
    by (simp add: field_simps)
qed

lemma tri_generic:
  assumes "p0 < q0" "q0 < r0"
  shows "tri_slab t1 t2 p0 p1 q0 q1 r0 r1 =
     - (cross3 p0 p1 q0 q1 r0 r1 / 2) *
       phi p0 q0 r0 (clampr t1 t2 p0) (clampr t1 t2 q0) (clampr t1 t2 r0)"
proof -
  define a where "a = clampr t1 t2 p0"
  define b where "b = clampr t1 t2 q0"
  define c where "c = clampr t1 t2 r0"
  define s1 where "s1 = (q1 - p1) / (q0 - p0)"
  define s2 where "s2 = (r1 - q1) / (r0 - q0)"
  define s3 where "s3 = (p1 - r1) / (p0 - r0)"
  define X where "X = (b - p0) * (b - p0) - (a - p0) * (a - p0)"
  define Y where "Y = (b - r0) * (b - r0) - (c - r0) * (c - r0)"
  from assms have n: "q0 - p0 \<noteq> 0" "r0 - q0 \<noteq> 0" "r0 - p0 \<noteq> 0" "p0 - r0 \<noteq> 0" by simp_all
  have q1: "q1 = p1 + s1 * (q0 - p0)" using n by (simp add: s1_def)
  have r1: "r1 = q1 + s2 * (r0 - q0)" using n by (simp add: s2_def)
  have s3: "s3 * (r0 - p0) = r1 - p1" using n by (simp add: s3_def field_simps)
  have T: "tri_slab t1 t2 p0 p1 q0 q1 r0 r1 =
      s1 * (b * b) * 0.5 + (p1 - s1 * p0) * b - (s1 * (a * a) * 0.5 + (p1 - s1 * p0) * a)
      + (s2 * (c * c) * 0.5 + (q1 - s2 * q0) * c - (s2 * (b * b) * 0.5 + (q1 - s2 * q0) * b))
      + (s3 * (a * a) * 0.5 + (r1 - s3 * r0) * a - (s3 * (c * c) * 0.5 + (r1 - s3 * r0) * c))"
    unfolding tri_slab_def edge_slab_prim prim_def a_def b_def c_def s1_def s2_def s3_def ..
  have L: "(r0 - p0) * tri_slab t1 t2 p0 p1 q0 q1 r0 r1 =
      - ((s2 - s1) / 2) * ((r0 - q0) * X + (q0 - p0) * Y)"
    unfolding T X_def Y_def by (rule tri_poly[OF q1 r1 s3])
  have cr: "cross3 p0 p1 q0 q1 r0 r1 = (q0 - p0) * (r0 - q0) * (s2 - s1)"
    unfolding cross3_def r1 q1 by (simp add: algebra_simps)
  have ph: "phi p0 q0 r0 a b c = X / ((q0 - p0) * (r0 - p0)) + Y / ((r0 - p0) * (r0 - q0))"
    by (simp add: phi_def X_def Y_def)
  have R0: "d3 * (- (d1 * d2 * (s2 - s1) / 2) * (X / (d1 * d3) + Y / (d3 * d2))) =
      - ((s2 - s1) / 2) * (d2 * X + d1 * Y)"
    if "d1 \<noteq> 0" "d2 \<noteq> 0" "d3 \<noteq> 0" for d1 d2 d3 :: real
    using that by (simp add: field_simps)
  have R: "(r0 - p0) * (- (cross3 p0 p1 q0 q1 r0 r1 / 2) * phi p0 q0 r0 a b c) =
      - ((s2 - s1) / 2) * ((r0 - q0) * X + (q0 - p0) * Y)"
    unfolding cr ph by (rule R0[OF n(1) n(2) n(3)])
  from L R have "(r0 - p0) * tri_slab t1 t2 p0 p1 q0 q1 r0 r1 =
      (r0 - p0) * (- (cross3 p0 p1 q0 q1 r0 r1 / 2) * phi p0 q0 r0 a b c)" by simp
  then have "tri_slab t1 t2 p0 p1 q0 q1 r0 r1 =
      - (cross3 p0 p1 q0 q1 r0 r1 / 2) * phi p0 q0 r0 a b c"
    using n(3) mult_left_cancel[of "r0 - p0"] by blast
  then show ?thesis unfolding a_def b_def c_def .
qed

lemma tri_left_vertical:
  assumes "p0 < r0"
  shows "tri_slab t1 t2 p0 p1 p0 q1 r0 r1 =
     - (cross3 p0 p1 p0 q1 r0 r1 / 2) *
       phi p0 p0 r0 (clampr t1 t2 p0) (clampr t1 t2 p0) (clampr t1 t2 r0)"
proof -
  define b where "b = clampr t1 t2 p0"
  define c where "c = clampr t1 t2 r0"
  define s2 where "s2 = (r1 - q1) / (r0 - p0)"
  define s3 where "s3 = (p1 - r1) / (p0 - r0)"
  from assms have n: "r0 - p0 \<noteq> 0" "p0 - r0 \<noteq> 0" by simp_all
  have r1: "r1 = q1 + s2 * (r0 - p0)" using n by (simp add: s2_def)
  have p1: "p1 = r1 - s3 * (r0 - p0)" using n by (simp add: s3_def field_simps)
  have T: "tri_slab t1 t2 p0 p1 p0 q1 r0 r1 =
      (s2 * (c * c) * 0.5 + (q1 - s2 * p0) * c - (s2 * (b * b) * 0.5 + (q1 - s2 * p0) * b))
      + (s3 * (b * b) * 0.5 + (r1 - s3 * r0) * b - (s3 * (c * c) * 0.5 + (r1 - s3 * r0) * c))"
    unfolding tri_slab_def edge_slab_vertical
    unfolding edge_slab_prim prim_def b_def c_def s2_def s3_def by simp
  have E: "(s2 * (c * c) * 0.5 + (q1 - s2 * p0) * c - (s2 * (b * b) * 0.5 + (q1 - s2 * p0) * b))
      + (s3 * (b * b) * 0.5 + (r1 - s3 * r0) * b - (s3 * (c * c) * 0.5 + (r1 - s3 * r0) * c))
      = (s2 - s3) / 2 * ((c - r0) * (c - r0) - (b - r0) * (b - r0))"
    unfolding r1 by (simp add: field_simps)
  have T2: "tri_slab t1 t2 p0 p1 p0 q1 r0 r1 =
      (s2 - s3) / 2 * ((c - r0) * (c - r0) - (b - r0) * (b - r0))"
    using T E by (rule trans)
  have cr: "cross3 p0 p1 p0 q1 r0 r1 = (r0 - p0) * (r0 - p0) * (s2 - s3)"
    unfolding cross3_def p1 r1 by (simp add: algebra_simps)
  have ph: "phi p0 p0 r0 b b c =
      ((b - r0) * (b - r0) - (c - r0) * (c - r0)) / ((r0 - p0) * (r0 - p0))"
    by (simp add: phi_def)
  have R1: "k / 2 * (V - W) = - (d * d * k / 2) * ((W - V) / (d * d))"
    if "d \<noteq> 0" for k V W d :: real
    using that by (simp add: field_simps)
  show ?thesis
    unfolding b_def[symmetric] c_def[symmetric] T2 cr ph by (rule R1[OF n(1)])
qed

lemma tri_right_vertical:
  assumes "p0 < r0"
  shows "tri_slab t1 t2 p0 p1 r0 q1 r0 r1 =
     - (cross3 p0 p1 r0 q1 r0 r1 / 2) *
       phi p0 r0 r0 (clampr t1 t2 p0) (clampr t1 t2 r0) (clampr t1 t2 r0)"
proof -
  define a where "a = clampr t1 t2 p0"
  define b where "b = clampr t1 t2 r0"
  define s1 where "s1 = (q1 - p1) / (r0 - p0)"
  define s3 where "s3 = (p1 - r1) / (p0 - r0)"
  from assms have n: "r0 - p0 \<noteq> 0" "p0 - r0 \<noteq> 0" by simp_all
  have q1: "q1 = p1 + s1 * (r0 - p0)" using n by (simp add: s1_def)
  have r1: "r1 = p1 + s3 * (r0 - p0)" using n by (simp add: s3_def field_simps)
  have T: "tri_slab t1 t2 p0 p1 r0 q1 r0 r1 =
      (s1 * (b * b) * 0.5 + (p1 - s1 * p0) * b - (s1 * (a * a) * 0.5 + (p1 - s1 * p0) * a))
      + (s3 * (a * a) * 0.5 + (r1 - s3 * r0) * a - (s3 * (b * b) * 0.5 + (r1 - s3 * r0) * b))"
    unfolding tri_slab_def edge_slab_vertical
    unfolding edge_slab_prim prim_def a_def b_def s1_def s3_def by simp
  have E: "(s1 * (b * b) * 0.5 + (p1 - s1 * p0) * b - (s1 * (a * a) * 0.5 + (p1 - s1 * p0) * a))
      + (s3 * (a * a) * 0.5 + (r1 - s3 * r0) * a - (s3 * (b * b) * 0.5 + (r1 - s3 * r0) * b))
      = (s1 - s3) / 2 * ((b - p0) * (b - p0) - (a - p0) * (a - p0))"
    unfolding r1 by (simp add: field_simps)
  have T2: "tri_slab t1 t2 p0 p1 r0 q1 r0 r1 =
      (s1 - s3) / 2 * ((b - p0) * (b - p0) - (a - p0) * (a - p0))"
    using T E by (rule trans)
  have cr: "cross3 p0 p1 r0 q1 r0 r1 = (r0 - p0) * (r0 - p0) * (s3 - s1)"
    unfolding cross3_def q1 r1 by (simp add: algebra_simps)
  have ph: "phi p0 r0 r0 a b b =
      ((b - p0) * (b - p0) - (a - p0) * (a - p0)) / ((r0 - p0) * (r0 - p0))"
    by (simp add: phi_def)
  have R1: "k / 2 * V = - (d * d * (- k) / 2) * (V / (d * d))"
    if "d \<noteq> 0" for k V d :: real
    using that by (simp add: field_simps)
  have "s1 - s3 = - (s3 - s1)" by simp
  show ?thesis
    unfolding a_def[symmetric] b_def[symmetric] T2 cr ph
    using R1[OF n(1), of "s1 - s3"] by simp
qed

lemma tri_sorted:
  assumes "p0 \<le> q0" "q0 \<le> r0"
  shows "tri_slab t1 t2 p0 p1 q0 q1 r0 r1 =
     - (cross3 p0 p1 q0 q1 r0 r1 / 2) *
       phi p0 q0 r0 (clampr t1 t2 p0) (clampr t1 t2 q0) (clampr t1 t2 r0)"
proof -
  consider (gen) "p0 < q0" "q0 < r0" | (left) "p0 = q0" "q0 < r0" | (right) "p0 < q0" "q0 = r0"
    | (all) "p0 = q0" "q0 = r0"
    using assms by linarith
  then show ?thesis
  proof cases
    case gen
    then show ?thesis by (rule tri_generic)
  next
    case left
    then show ?thesis using tri_left_vertical[of q0 r0 t1 t2 p1 q1 r1] by simp
  next
    case right
    then show ?thesis using tri_right_vertical[of p0 r0 t1 t2 p1 q1 r1] by simp
  next
    case all
    then show ?thesis by (simp add: tri_slab_def edge_slab_vertical cross3_def)
  qed
qed

lemma clampr_mono: "x \<le> y \<Longrightarrow> clampr t1 t2 x \<le> clampr t1 t2 y"
  by (auto simp: clampr_def max_def min_def)

lemma sq_diff_nonneg:
  fixes u v :: real
  assumes "0 \<le> u" "u \<le> v"
  shows "0 \<le> v * v - u * u"
proof -
  have "u * u \<le> v * v" using assms by (intro mult_mono) auto
  then show ?thesis by simp
qed

lemma sq_diff_pos:
  fixes u v :: real
  assumes "0 \<le> u" "u < v"
  shows "0 < v * v - u * u"
proof -
  have "u * u < v * v" using assms by (intro mult_strict_mono') auto
  then show ?thesis by simp
qed

lemma phi_left_nonneg:
  assumes "x1 \<le> x2"
  shows "0 \<le> (clampr t1 t2 x2 - x1) * (clampr t1 t2 x2 - x1)
            - (clampr t1 t2 x1 - x1) * (clampr t1 t2 x1 - x1)"
proof (cases "t2 \<le> x1")
  case True
  with assms have "clampr t1 t2 x1 = clampr t1 t2 x2" by (auto simp: clampr_def max_def min_def)
  then show ?thesis by simp
next
  case False
  then have "x1 \<le> clampr t1 t2 x1" by (auto simp: clampr_def max_def min_def)
  then show ?thesis using clampr_mono[OF assms, of t1 t2] by (intro sq_diff_nonneg) auto
qed

lemma phi_right_nonneg:
  assumes "x2 \<le> x3"
  shows "0 \<le> (clampr t1 t2 x2 - x3) * (clampr t1 t2 x2 - x3)
            - (clampr t1 t2 x3 - x3) * (clampr t1 t2 x3 - x3)"
proof (cases "x3 \<le> t1")
  case True
  with assms have "clampr t1 t2 x2 = clampr t1 t2 x3" by (auto simp: clampr_def max_def min_def)
  then show ?thesis by simp
next
  case False
  then have c: "clampr t1 t2 x3 \<le> x3" by (auto simp: clampr_def max_def min_def)
  have "0 \<le> (x3 - clampr t1 t2 x2) * (x3 - clampr t1 t2 x2)
            - (x3 - clampr t1 t2 x3) * (x3 - clampr t1 t2 x3)"
    using c clampr_mono[OF assms, of t1 t2] by (intro sq_diff_nonneg) auto
  then show ?thesis by (simp add: algebra_simps)
qed

lemma phi_nonneg:
  assumes "x1 \<le> x2" "x2 \<le> x3"
  shows "0 \<le> phi x1 x2 x3 (clampr t1 t2 x1) (clampr t1 t2 x2) (clampr t1 t2 x3)"
  unfolding phi_def
  using phi_left_nonneg[OF assms(1), of t1 t2] phi_right_nonneg[OF assms(2), of t1 t2] assms
  by (intro add_nonneg_nonneg divide_nonneg_nonneg mult_nonneg_nonneg) auto

lemma phi_pos_left:
  assumes "x1 \<le> x2" "x2 \<le> x3" "x1 < x3" "t1 \<le> x1" "x1 < t2"
  shows "0 < phi x1 x2 x3 (clampr t1 t2 x1) (clampr t1 t2 x2) (clampr t1 t2 x3)"
proof -
  have a: "clampr t1 t2 x1 = x1" using assms by (auto simp: clampr_def max_def min_def)
  show ?thesis
  proof (cases "x1 = x2")
    case True
    have c1: "x1 < clampr t1 t2 x3" using assms by (auto simp: clampr_def max_def min_def)
    have c2: "clampr t1 t2 x3 \<le> x3" using assms by (auto simp: clampr_def max_def min_def)
    have "0 < (x3 - x1) * (x3 - x1) - (x3 - clampr t1 t2 x3) * (x3 - clampr t1 t2 x3)"
      using c1 c2 by (intro sq_diff_pos) auto
    then have "0 < (x1 - x3) * (x1 - x3) - (clampr t1 t2 x3 - x3) * (clampr t1 t2 x3 - x3)"
      by (simp add: algebra_simps)
    moreover have "clampr t1 t2 x2 = x2" using a True by simp
    ultimately show ?thesis using True assms(3) by (simp add: phi_def)
  next
    case False
    with assms have lt: "x1 < x2" by simp
    then have b: "x1 < clampr t1 t2 x2" using assms by (auto simp: clampr_def max_def min_def)
    have "0 < (clampr t1 t2 x2 - x1) * (clampr t1 t2 x2 - x1)" using b by simp
    then have "0 < ((clampr t1 t2 x2 - x1) * (clampr t1 t2 x2 - x1)
        - (clampr t1 t2 x1 - x1) * (clampr t1 t2 x1 - x1)) / ((x2 - x1) * (x3 - x1))"
      using lt assms(3) by (simp add: a)
    moreover have "0 \<le> ((clampr t1 t2 x2 - x3) * (clampr t1 t2 x2 - x3)
        - (clampr t1 t2 x3 - x3) * (clampr t1 t2 x3 - x3)) / ((x3 - x1) * (x3 - x2))"
      using phi_right_nonneg[OF assms(2), of t1 t2] assms
      by (intro divide_nonneg_nonneg mult_nonneg_nonneg) auto
    ultimately show ?thesis unfolding phi_def by (rule add_pos_nonneg)
  qed
qed

lemma phi_pos_right:
  assumes "x1 \<le> x2" "x2 \<le> x3" "x1 < x3" "t1 < x3" "x3 \<le> t2"
  shows "0 < phi x1 x2 x3 (clampr t1 t2 x1) (clampr t1 t2 x2) (clampr t1 t2 x3)"
proof -
  have c: "clampr t1 t2 x3 = x3" using assms by (auto simp: clampr_def max_def min_def)
  show ?thesis
  proof (cases "x2 = x3")
    case True
    have a1: "clampr t1 t2 x1 < x3" using assms by (auto simp: clampr_def max_def min_def)
    have a2: "x1 \<le> clampr t1 t2 x1" using assms by (auto simp: clampr_def max_def min_def)
    have "0 < (x3 - x1) * (x3 - x1) - (clampr t1 t2 x1 - x1) * (clampr t1 t2 x1 - x1)"
      using a1 a2 by (intro sq_diff_pos) auto
    moreover have "clampr t1 t2 x2 = x2" using c True by simp
    ultimately show ?thesis using True assms(3) by (simp add: phi_def)
  next
    case False
    with assms have lt: "x2 < x3" by simp
    then have b: "clampr t1 t2 x2 < x3" using assms by (auto simp: clampr_def max_def min_def)
    have "0 < (x3 - clampr t1 t2 x2) * (x3 - clampr t1 t2 x2)" using b by simp
    then have "0 < (clampr t1 t2 x2 - x3) * (clampr t1 t2 x2 - x3)" by (simp add: algebra_simps)
    then have "0 < ((clampr t1 t2 x2 - x3) * (clampr t1 t2 x2 - x3)
        - (clampr t1 t2 x3 - x3) * (clampr t1 t2 x3 - x3)) / ((x3 - x1) * (x3 - x2))"
      using lt assms(3) by (simp add: c)
    moreover have "0 \<le> ((clampr t1 t2 x2 - x1) * (clampr t1 t2 x2 - x1)
        - (clampr t1 t2 x1 - x1) * (clampr t1 t2 x1 - x1)) / ((x2 - x1) * (x3 - x1))"
      using phi_left_nonneg[OF assms(1), of t1 t2] assms
      by (intro divide_nonneg_nonneg mult_nonneg_nonneg) auto
    ultimately show ?thesis unfolding phi_def by (rule add_nonneg_pos[rotated])
  qed
qed

lemma cross3_flat: "p0 = r0 \<Longrightarrow> p0 \<le> q0 \<Longrightarrow> q0 \<le> r0 \<Longrightarrow> cross3 p0 p1 q0 q1 r0 r1 = 0"
  by (simp add: cross3_def)

lemma share_sorted:
  assumes "p0 \<le> q0" "q0 \<le> r0"
  shows "share_ok t1 t2 p0 p1 q0 q1 r0 r1
     (phi p0 q0 r0 (clampr t1 t2 p0) (clampr t1 t2 q0) (clampr t1 t2 r0))"
proof -
  have mn: "min p0 (min q0 r0) = p0" and mx: "max p0 (max q0 r0) = r0" using assms by auto
  have ne: "cross3 p0 p1 q0 q1 r0 r1 \<noteq> 0 \<Longrightarrow> p0 < r0"
    using cross3_flat[of p0 r0 q0 p1 q1 r1] assms by (cases "p0 = r0") auto
  show ?thesis
    unfolding share_ok_def mn mx
    using phi_nonneg[OF assms] tri_sorted[OF assms] phi_pos_left[OF assms] phi_pos_right[OF assms] ne
    by blast
qed

lemma tri_slab_rot: "tri_slab t1 t2 q0 q1 r0 r1 p0 p1 = tri_slab t1 t2 p0 p1 q0 q1 r0 r1"
  by (simp add: tri_slab_def)

lemma tri_slab_rev: "tri_slab t1 t2 r0 r1 q0 q1 p0 p1 = - tri_slab t1 t2 p0 p1 q0 q1 r0 r1"
  by (simp add: tri_slab_def edge_slab_rev[of t1 t2 q0 q1 p0 p1]
      edge_slab_rev[of t1 t2 r0 r1 q0 q1] edge_slab_rev[of t1 t2 p0 p1 r0 r1])

lemma cross3_rot: "cross3 q0 q1 r0 r1 p0 p1 = cross3 p0 p1 q0 q1 r0 r1"
  by (simp add: cross3_def algebra_simps)

lemma cross3_rev: "cross3 r0 r1 q0 q1 p0 p1 = - cross3 p0 p1 q0 q1 r0 r1"
  by (simp add: cross3_def algebra_simps)

lemma min3_rot: "min q0 (min r0 p0) = min p0 (min q0 (r0 :: real))"
  by (auto simp: min_def)

lemma max3_rot: "max q0 (max r0 p0) = max p0 (max q0 (r0 :: real))"
  by (auto simp: max_def)

lemma min3_rev: "min r0 (min q0 p0) = min p0 (min q0 (r0 :: real))"
  by (auto simp: min_def)

lemma max3_rev: "max r0 (max q0 p0) = max p0 (max q0 (r0 :: real))"
  by (auto simp: max_def)

lemma share_rot:
  assumes "share_ok t1 t2 q0 q1 r0 r1 p0 p1 f"
  shows "share_ok t1 t2 p0 p1 q0 q1 r0 r1 f"
proof -
  note t = tri_slab_rot[of t1 t2 q0 q1 r0 r1 p0 p1]
  note c = cross3_rot[of q0 q1 r0 r1 p0 p1]
  note mn = min3_rot[of q0 r0 p0]
  note mx = max3_rot[of q0 r0 p0]
  from assms show ?thesis
    unfolding share_ok_def t c mn mx .
qed

lemma share_rev:
  assumes "share_ok t1 t2 r0 r1 q0 q1 p0 p1 f"
  shows "share_ok t1 t2 p0 p1 q0 q1 r0 r1 f"
proof -
  note t = tri_slab_rev[of t1 t2 r0 r1 q0 q1 p0 p1]
  note c = cross3_rev[of r0 r1 q0 q1 p0 p1]
  note mn = min3_rev[of r0 q0 p0]
  note mx = max3_rev[of r0 q0 p0]
  have a: "0 \<le> f"
    and b: "- tri_slab t1 t2 p0 p1 q0 q1 r0 r1 = - (- cross3 p0 p1 q0 q1 r0 r1 / 2) * f"
    and l: "- cross3 p0 p1 q0 q1 r0 r1 \<noteq> 0 \<and> t1 \<le> min p0 (min q0 r0) \<and>
        min p0 (min q0 r0) < t2 \<longrightarrow> 0 < f"
    and r: "- cross3 p0 p1 q0 q1 r0 r1 \<noteq> 0 \<and> t1 < max p0 (max q0 r0) \<and>
        max p0 (max q0 r0) \<le> t2 \<longrightarrow> 0 < f"
    using assms unfolding share_ok_def t c mn mx by blast+
  from b have b': "tri_slab t1 t2 p0 p1 q0 q1 r0 r1 = - (cross3 p0 p1 q0 q1 r0 r1 / 2) * f"
    by simp
  from a b' l r show ?thesis unfolding share_ok_def by simp
qed

lemma share_exists: "\<exists>f. share_ok t1 t2 p0 p1 q0 q1 r0 r1 f"
proof -
  consider (pqr) "p0 \<le> q0" "q0 \<le> r0" | (qrp) "q0 \<le> r0" "r0 \<le> p0" | (rpq) "r0 \<le> p0" "p0 \<le> q0"
    | (rqp) "r0 \<le> q0" "q0 \<le> p0" | (qpr) "q0 \<le> p0" "p0 \<le> r0" | (prq) "p0 \<le> r0" "r0 \<le> q0"
    by linarith
  then show ?thesis
  proof cases
    case pqr
    from share_sorted[OF this] show ?thesis by blast
  next
    case qrp
    from share_rot[OF share_sorted[OF this]] show ?thesis by blast
  next
    case rpq
    from share_rot[OF share_rot[OF share_sorted[OF this]]] show ?thesis by blast
  next
    case rqp
    from share_rev[OF share_sorted[OF this]] show ?thesis by blast
  next
    case qpr
    from share_rev[OF share_rot[OF share_sorted[OF this]]] show ?thesis by blast
  next
    case prq
    from share_rev[OF share_rot[OF share_rot[OF share_sorted[OF this]]]] show ?thesis by blast
  qed
qed

lemma quad_split_AC:
  "quad_slab t1 t2 a0 a1 b0 b1 c0 c1 d0 d1 =
     tri_slab t1 t2 a0 a1 b0 b1 c0 c1 + tri_slab t1 t2 c0 c1 d0 d1 a0 a1"
  using edge_slab_rev[of t1 t2 c0 c1 a0 a1]
  by (simp add: quad_slab_def tri_slab_def)

lemma quad_split_BD:
  "quad_slab t1 t2 a0 a1 b0 b1 c0 c1 d0 d1 =
     tri_slab t1 t2 b0 b1 c0 c1 d0 d1 + tri_slab t1 t2 d0 d1 a0 a1 b0 b1"
  using edge_slab_rev[of t1 t2 d0 d1 b0 b1]
  by (simp add: quad_slab_def tri_slab_def)

lemma area2_AC:
  "area2 a0 a1 b0 b1 c0 c1 d0 d1 = cross3 a0 a1 b0 b1 c0 c1 + cross3 c0 c1 d0 d1 a0 a1"
  by (simp add: area2_def cross3_def algebra_simps)

lemma area2_BD:
  "area2 a0 a1 b0 b1 c0 c1 d0 d1 = cross3 b0 b1 c0 c1 d0 d1 + cross3 d0 d1 a0 a1 b0 b1"
  by (simp add: area2_def cross3_def algebra_simps)

text \<open>Two triangles of the same orientation: the slab part has the opposite sign.\<close>

lemma two_tri_sign:
  assumes f: "share_ok t1 t2 p0 p1 q0 q1 r0 r1 f" and g: "share_ok t1 t2 u0 u1 v0 v1 w0 w1 g"
  shows "0 \<le> cross3 p0 p1 q0 q1 r0 r1 \<Longrightarrow> 0 \<le> cross3 u0 u1 v0 v1 w0 w1 \<Longrightarrow>
           tri_slab t1 t2 p0 p1 q0 q1 r0 r1 + tri_slab t1 t2 u0 u1 v0 v1 w0 w1 \<le> 0"
    and "cross3 p0 p1 q0 q1 r0 r1 \<le> 0 \<Longrightarrow> cross3 u0 u1 v0 v1 w0 w1 \<le> 0 \<Longrightarrow>
           0 \<le> tri_slab t1 t2 p0 p1 q0 q1 r0 r1 + tri_slab t1 t2 u0 u1 v0 v1 w0 w1"
proof -
  from f have f0: "0 \<le> f"
    and tf: "tri_slab t1 t2 p0 p1 q0 q1 r0 r1 = - (cross3 p0 p1 q0 q1 r0 r1 / 2) * f"
    by (simp_all add: share_ok_def)
  from g have g0: "0 \<le> g"
    and tg: "tri_slab t1 t2 u0 u1 v0 v1 w0 w1 = - (cross3 u0 u1 v0 v1 w0 w1 / 2) * g"
    by (simp_all add: share_ok_def)
  show "tri_slab t1 t2 p0 p1 q0 q1 r0 r1 + tri_slab t1 t2 u0 u1 v0 v1 w0 w1 \<le> 0"
    if "0 \<le> cross3 p0 p1 q0 q1 r0 r1" "0 \<le> cross3 u0 u1 v0 v1 w0 w1"
  proof -
    have "0 \<le> cross3 p0 p1 q0 q1 r0 r1 / 2 * f" "0 \<le> cross3 u0 u1 v0 v1 w0 w1 / 2 * g"
      using that f0 g0 by simp_all
    then show ?thesis unfolding tf tg by simp
  qed
  show "0 \<le> tri_slab t1 t2 p0 p1 q0 q1 r0 r1 + tri_slab t1 t2 u0 u1 v0 v1 w0 w1"
    if "cross3 p0 p1 q0 q1 r0 r1 \<le> 0" "cross3 u0 u1 v0 v1 w0 w1 \<le> 0"
  proof -
    have "cross3 p0 p1 q0 q1 r0 r1 / 2 * f \<le> 0" "cross3 u0 u1 v0 v1 w0 w1 / 2 * g \<le> 0"
      using that f0 g0 by (simp_all add: mult_nonpos_nonneg)
    then show ?thesis unfolding tf tg by simp
  qed
qed

lemma quad_slab_sign:
  assumes "convex_quad a0 a1 b0 b1 c0 c1 d0 d1"
  shows "(0 \<le> area2 a0 a1 b0 b1 c0 c1 d0 d1 \<longrightarrow> quad_slab t1 t2 a0 a1 b0 b1 c0 c1 d0 d1 \<le> 0) \<and>
         (area2 a0 a1 b0 b1 c0 c1 d0 d1 \<le> 0 \<longrightarrow> 0 \<le> quad_slab t1 t2 a0 a1 b0 b1 c0 c1 d0 d1)"
proof -
  obtain f where f: "share_ok t1 t2 a0 a1 b0 b1 c0 c1 f" using share_exists by blast
  obtain g where g: "share_ok t1 t2 c0 c1 d0 d1 a0 a1 g" using share_exists by blast
  note s = two_tri_sign[OF f g]
  from assms consider
    (ccw) "0 \<le> cross3 a0 a1 b0 b1 c0 c1" "0 \<le> cross3 c0 c1 d0 d1 a0 a1"
    | (cw) "cross3 a0 a1 b0 b1 c0 c1 \<le> 0" "cross3 c0 c1 d0 d1 a0 a1 \<le> 0"
    unfolding convex_quad_def by blast
  then show ?thesis
  proof cases
    case ccw
    then have le: "quad_slab t1 t2 a0 a1 b0 b1 c0 c1 d0 d1 \<le> 0"
      unfolding quad_split_AC by (rule s(1))
    show ?thesis
    proof (intro conjI impI)
      show "quad_slab t1 t2 a0 a1 b0 b1 c0 c1 d0 d1 \<le> 0" by (rule le)
      assume "area2 a0 a1 b0 b1 c0 c1 d0 d1 \<le> 0"
      with ccw have z: "cross3 a0 a1 b0 b1 c0 c1 = 0" "cross3 c0 c1 d0 d1 a0 a1 = 0"
        unfolding area2_AC by linarith+
      then have "cross3 a0 a1 b0 b1 c0 c1 \<le> 0" "cross3 c0 c1 d0 d1 a0 a1 \<le> 0" by simp_all
      then show "0 \<le> quad_slab t1 t2 a0 a1 b0 b1 c0 c1 d0 d1"
        unfolding quad_split_AC by (rule s(2))
    qed
  next
    case cw
    then have ge: "0 \<le> quad_slab t1 t2 a0 a1 b0 b1 c0 c1 d0 d1"
      unfolding quad_split_AC by (rule s(2))
    show ?thesis
    proof (intro conjI impI)
      show "0 \<le> quad_slab t1 t2 a0 a1 b0 b1 c0 c1 d0 d1" by (rule ge)
      assume "0 \<le> area2 a0 a1 b0 b1 c0 c1 d0 d1"
      with cw have z: "cross3 a0 a1 b0 b1 c0 c1 = 0" "cross3 c0 c1 d0 d1 a0 a1 = 0"
        unfolding area2_AC by linarith+
      then have "0 \<le> cross3 a0 a1 b0 b1 c0 c1" "0 \<le> cross3 c0 c1 d0 d1 a0 a1" by simp_all
      then show "quad_slab t1 t2 a0 a1 b0 b1 c0 c1 d0 d1 \<le> 0"
        unfolding quad_split_AC by (rule s(1))
    qed
  qed
qed

text \<open>The slabs between consecutive integers add up to the slab from 0 to \<open>n\<close>.\<close>

lemma quad_slab_zero: "quad_slab t t a0 a1 b0 b1 c0 c1 d0 d1 = 0"
  by (simp add: quad_slab_def edge_slab_def edge_int_def clampr_def)

lemma quad_slab_sum:
  "(\<Sum>i < n. quad_slab (real i) (real i + 1) a0 a1 b0 b1 c0 c1 d0 d1)
     = quad_slab 0 (real n) a0 a1 b0 b1 c0 c1 d0 d1"
proof (induction n)
  case 0
  then show ?case by (simp add: quad_slab_zero)
next
  case (Suc n)
  have "quad_slab 0 (real (Suc n)) a0 a1 b0 b1 c0 c1 d0 d1 =
      quad_slab 0 (real n) a0 a1 b0 b1 c0 c1 d0 d1
      + quad_slab (real n) (real (Suc n)) a0 a1 b0 b1 c0 c1 d0 d1"
    by (rule quad_slab_add) simp_all
  with Suc.IH show ?case by (simp add: add.commute)
qed

lemma abs_sum_same_sign:
  fixes f :: "nat \<Rightarrow> real"
  assumes "(\<forall>i. f i \<le> 0) \<or> (\<forall>i. 0 \<le> f i)"
  shows "(\<Sum>i < n. \<bar>f i\<bar>) = \<bar>\<Sum>i < n. f i\<bar>"
proof -
  from assms consider (neg) "\<forall>i. f i \<le> 0" | (pos) "\<forall>i. 0 \<le> f i" by blast
  then show ?thesis
  proof cases
    case neg
    then have "(\<Sum>i < n. \<bar>f i\<bar>) = (\<Sum>i < n. - f i)" by (intro sum.cong) auto
    moreover have "(\<Sum>i < n. f i) \<le> 0" using neg by (intro sum_nonpos) auto
    ultimately show ?thesis by (simp add: sum_negf)
  next
    case pos
    then have "(\<Sum>i < n. \<bar>f i\<bar>) = (\<Sum>i < n. f i)" by (intro sum.cong) auto
    moreover have "0 \<le> (\<Sum>i < n. f i)" using pos by (intro sum_nonneg) auto
    ultimately show ?thesis by simp
  qed
qed

lemma columns_sum_to_area:
  assumes cv: "convex_quad a0 a1 b0 b1 c0 c1 d0 d1"
    and r: "0 \<le> a0" "a0 \<le> real n" "0 \<le> b0" "b0 \<le> real n" "0 \<le> c0" "c0 \<le> real n"
      "0 \<le> d0" "d0 \<le> real n"
  shows "(\<Sum>i < n. \<bar>quad_slab (real i) (real i + 1) a0 a1 b0 b1 c0 c1 d0 d1\<bar>)
     = \<bar>area2 a0 a1 b0 b1 c0 c1 d0 d1\<bar> / 2"
proof -
  have sgn: "(\<forall>i. quad_slab (real i) (real i + 1) a0 a1 b0 b1 c0 c1 d0 d1 \<le> 0) \<or>
      (\<forall>i. 0 \<le> quad_slab (real i) (real i + 1) a0 a1 b0 b1 c0 c1 d0 d1)"
    using quad_slab_sign[OF cv] by (cases "0 \<le> area2 a0 a1 b0 b1 c0 c1 d0 d1") auto
  have "(\<Sum>i < n. \<bar>quad_slab (real i) (real i + 1) a0 a1 b0 b1 c0 c1 d0 d1\<bar>)
      = \<bar>quad_slab 0 (real n) a0 a1 b0 b1 c0 c1 d0 d1\<bar>"
    using abs_sum_same_sign[OF sgn, of n] by (simp add: quad_slab_sum)
  also have "quad_slab 0 (real n) a0 a1 b0 b1 c0 c1 d0 d1 = - area2 a0 a1 b0 b1 c0 c1 d0 d1 / 2"
    unfolding area2_def by (rule quad_slab_full[OF r])
  finally show ?thesis by simp
qed

lemma two_tri_nonzero:
  assumes f: "share_ok t1 t2 p0 p1 q0 q1 r0 r1 f" and g: "share_ok t1 t2 u0 u1 v0 v1 w0 w1 g"
    and sgn: "(0 \<le> cross3 p0 p1 q0 q1 r0 r1 \<and> 0 \<le> cross3 u0 u1 v0 v1 w0 w1) \<or>
              (cross3 p0 p1 q0 q1 r0 r1 \<le> 0 \<and> cross3 u0 u1 v0 v1 w0 w1 \<le> 0)"
    and nz: "cross3 p0 p1 q0 q1 r0 r1 + cross3 u0 u1 v0 v1 w0 w1 \<noteq> 0"
    and pf: "cross3 p0 p1 q0 q1 r0 r1 \<noteq> 0 \<Longrightarrow> 0 < f"
    and pg: "cross3 u0 u1 v0 v1 w0 w1 \<noteq> 0 \<Longrightarrow> 0 < g"
  shows "tri_slab t1 t2 p0 p1 q0 q1 r0 r1 + tri_slab t1 t2 u0 u1 v0 v1 w0 w1 \<noteq> 0"
proof -
  define s1 where "s1 = cross3 p0 p1 q0 q1 r0 r1"
  define s2 where "s2 = cross3 u0 u1 v0 v1 w0 w1"
  from f have f0: "0 \<le> f" and tf: "tri_slab t1 t2 p0 p1 q0 q1 r0 r1 = - (s1 / 2) * f"
    by (simp_all add: share_ok_def s1_def)
  from g have g0: "0 \<le> g" and tg: "tri_slab t1 t2 u0 u1 v0 v1 w0 w1 = - (s2 / 2) * g"
    by (simp_all add: share_ok_def s2_def)
  have sum: "tri_slab t1 t2 p0 p1 q0 q1 r0 r1 + tri_slab t1 t2 u0 u1 v0 v1 w0 w1
      = - ((s1 * f + s2 * g) / 2)"
    unfolding tf tg by (simp add: field_simps)
  from sgn consider (ccw) "0 \<le> s1" "0 \<le> s2" | (cw) "s1 \<le> 0" "s2 \<le> 0"
    unfolding s1_def s2_def by blast
  then have "s1 * f + s2 * g \<noteq> 0"
  proof cases
    case ccw
    have a: "0 \<le> s1 * f" "0 \<le> s2 * g" using ccw f0 g0 by simp_all
    from nz ccw consider "0 < s1" | "0 < s2" unfolding s1_def s2_def by linarith
    then have "0 < s1 * f \<or> 0 < s2 * g"
    proof cases
      case 1
      with pf have "0 < f" unfolding s1_def by simp
      with 1 show ?thesis by simp
    next
      case 2
      with pg have "0 < g" unfolding s2_def by simp
      with 2 show ?thesis by simp
    qed
    with a show ?thesis by linarith
  next
    case cw
    have a: "s1 * f \<le> 0" "s2 * g \<le> 0" using cw f0 g0 by (simp_all add: mult_nonpos_nonneg)
    from nz cw consider "s1 < 0" | "s2 < 0" unfolding s1_def s2_def by linarith
    then have "s1 * f < 0 \<or> s2 * g < 0"
    proof cases
      case 1
      with pf have "0 < f" unfolding s1_def by simp
      with 1 show ?thesis by (simp add: mult_neg_pos)
    next
      case 2
      with pg have "0 < g" unfolding s2_def by simp
      with 2 show ?thesis by (simp add: mult_neg_pos)
    qed
    with a show ?thesis by linarith
  qed
  then show ?thesis unfolding sum by simp
qed

text \<open>The column that holds the leftmost corner has a part of the pixel.\<close>

lemma first_column_nonzero:
  assumes cv: "convex_quad a0 a1 b0 b1 c0 c1 d0 d1"
    and nz: "area2 a0 a1 b0 b1 c0 c1 d0 d1 \<noteq> 0"
    and lo: "t1 \<le> min a0 (min b0 (min c0 d0))" and hi: "min a0 (min b0 (min c0 d0)) < t2"
  shows "quad_slab t1 t2 a0 a1 b0 b1 c0 c1 d0 d1 \<noteq> 0"
proof -
  define m where "m = min a0 (min b0 (min c0 d0))"
  have le: "m \<le> a0" "m \<le> b0" "m \<le> c0" "m \<le> d0" unfolding m_def by simp_all
  have lo': "t1 \<le> m" and hi': "m < t2" using lo hi unfolding m_def by simp_all
  have "m = a0 \<or> m = b0 \<or> m = c0 \<or> m = d0" unfolding m_def by (auto simp: min_def)
  then consider (ac) "m = a0 \<or> m = c0" | (bd) "m = b0 \<or> m = d0" by blast
  then show ?thesis
  proof cases
    case ac
    then have m1: "min a0 (min b0 c0) = m" and m2: "min c0 (min d0 a0) = m"
      using le by (auto simp: min_def)
    obtain f where f: "share_ok t1 t2 a0 a1 b0 b1 c0 c1 f" using share_exists by blast
    obtain g where g: "share_ok t1 t2 c0 c1 d0 d1 a0 a1 g" using share_exists by blast
    have pf: "cross3 a0 a1 b0 b1 c0 c1 \<noteq> 0 \<Longrightarrow> 0 < f"
      using f lo' hi' unfolding share_ok_def m1 by simp
    have pg: "cross3 c0 c1 d0 d1 a0 a1 \<noteq> 0 \<Longrightarrow> 0 < g"
      using g lo' hi' unfolding share_ok_def m2 by simp
    have sgn: "(0 \<le> cross3 a0 a1 b0 b1 c0 c1 \<and> 0 \<le> cross3 c0 c1 d0 d1 a0 a1) \<or>
        (cross3 a0 a1 b0 b1 c0 c1 \<le> 0 \<and> cross3 c0 c1 d0 d1 a0 a1 \<le> 0)"
      using cv unfolding convex_quad_def by blast
    show ?thesis unfolding quad_split_AC
      by (rule two_tri_nonzero[OF f g sgn nz[unfolded area2_AC] pf pg])
  next
    case bd
    then have m1: "min b0 (min c0 d0) = m" and m2: "min d0 (min a0 b0) = m"
      using le by (auto simp: min_def)
    obtain f where f: "share_ok t1 t2 b0 b1 c0 c1 d0 d1 f" using share_exists by blast
    obtain g where g: "share_ok t1 t2 d0 d1 a0 a1 b0 b1 g" using share_exists by blast
    have pf: "cross3 b0 b1 c0 c1 d0 d1 \<noteq> 0 \<Longrightarrow> 0 < f"
      using f lo' hi' unfolding share_ok_def m1 by simp
    have pg: "cross3 d0 d1 a0 a1 b0 b1 \<noteq> 0 \<Longrightarrow> 0 < g"
      using g lo' hi' unfolding share_ok_def m2 by simp
    have sgn: "(0 \<le> cross3 b0 b1 c0 c1 d0 d1 \<and> 0 \<le> cross3 d0 d1 a0 a1 b0 b1) \<or>
        (cross3 b0 b1 c0 c1 d0 d1 \<le> 0 \<and> cross3 d0 d1 a0 a1 b0 b1 \<le> 0)"
      using cv unfolding convex_quad_def by blast
    show ?thesis unfolding quad_split_BD
      by (rule two_tri_nonzero[OF f g sgn nz[unfolded area2_BD] pf pg])
  qed
qed

text \<open>So has the column that holds the rightmost corner.\<close>

lemma last_column_nonzero:
  assumes cv: "convex_quad a0 a1 b0 b1 c0 c1 d0 d1"
    and nz: "area2 a0 a1 b0 b1 c0 c1 d0 d1 \<noteq> 0"
    and lo: "t1 < max a0 (max b0 (max c0 d0))" and hi: "max a0 (max b0 (max c0 d0)) \<le> t2"
  shows "quad_slab t1 t2 a0 a1 b0 b1 c0 c1 d0 d1 \<noteq> 0"
proof -
  define m where "m = max a0 (max b0 (max c0 d0))"
  have le: "a0 \<le> m" "b0 \<le> m" "c0 \<le> m" "d0 \<le> m" unfolding m_def by simp_all
  have lo': "t1 < m" and hi': "m \<le> t2" using lo hi unfolding m_def by simp_all
  have "m = a0 \<or> m = b0 \<or> m = c0 \<or> m = d0" unfolding m_def by (auto simp: max_def)
  then consider (ac) "m = a0 \<or> m = c0" | (bd) "m = b0 \<or> m = d0" by blast
  then show ?thesis
  proof cases
    case ac
    then have m1: "max a0 (max b0 c0) = m" and m2: "max c0 (max d0 a0) = m"
      using le by (auto simp: max_def)
    obtain f where f: "share_ok t1 t2 a0 a1 b0 b1 c0 c1 f" using share_exists by blast
    obtain g where g: "share_ok t1 t2 c0 c1 d0 d1 a0 a1 g" using share_exists by blast
    have pf: "cross3 a0 a1 b0 b1 c0 c1 \<noteq> 0 \<Longrightarrow> 0 < f"
      using f lo' hi' unfolding share_ok_def m1 by simp
    have pg: "cross3 c0 c1 d0 d1 a0 a1 \<noteq> 0 \<Longrightarrow> 0 < g"
      using g lo' hi' unfolding share_ok_def m2 by simp
    have sgn: "(0 \<le> cross3 a0 a1 b0 b1 c0 c1 \<and> 0 \<le> cross3 c0 c1 d0 d1 a0 a1) \<or>
        (cross3 a0 a1 b0 b1 c0 c1 \<le> 0 \<and> cross3 c0 c1 d0 d1 a0 a1 \<le> 0)"
      using cv unfolding convex_quad_def by blast
    show ?thesis unfolding quad_split_AC
      by (rule two_tri_nonzero[OF f g sgn nz[unfolded area2_AC] pf pg])
  next
    case bd
    then have m1: "max b0 (max c0 d0) = m" and m2: "max d0 (max a0 b0) = m"
      using le by (auto simp: max_def)
    obtain f where f: "share_ok t1 t2 b0 b1 c0 c1 d0 d1 f" using share_exists by blast
    obtain g where g: "share_ok t1 t2 d0 d1 a0 a1 b0 b1 g" using share_exists by blast
    have pf: "cross3 b0 b1 c0 c1 d0 d1 \<noteq> 0 \<Longrightarrow> 0 < f"
      using f lo' hi' unfolding share_ok_def m1 by simp
    have pg: "cross3 d0 d1 a0 a1 b0 b1 \<noteq> 0 \<Longrightarrow> 0 < g"
      using g lo' hi' unfolding share_ok_def m2 by simp
    have sgn: "(0 \<le> cross3 b0 b1 c0 c1 d0 d1 \<and> 0 \<le> cross3 d0 d1 a0 a1 b0 b1) \<or>
        (cross3 b0 b1 c0 c1 d0 d1 \<le> 0 \<and> cross3 d0 d1 a0 a1 b0 b1 \<le> 0)"
      using cv unfolding convex_quad_def by blast
    show ?thesis unfolding quad_split_BD
      by (rule two_tri_nonzero[OF f g sgn nz[unfolded area2_BD] pf pg])
  qed
qed

text \<open>A column to the right of the pixel has nothing of it.\<close>

lemma column_beyond:
  assumes "t1 \<le> t2" "a0 \<le> t1" "b0 \<le> t1" "c0 \<le> t1" "d0 \<le> t1"
  shows "quad_slab t1 t2 a0 a1 b0 b1 c0 c1 d0 d1 = 0"
proof -
  have "clampr t1 t2 a0 = t1" "clampr t1 t2 b0 = t1" "clampr t1 t2 c0 = t1" "clampr t1 t2 d0 = t1"
    using assms by (simp_all add: clampr_def)
  then show ?thesis by (simp add: quad_slab_def edge_slab_def edge_int_def)
qed

text \<open>The columns \<open>0, \<dots>, n\<close>, indexed by integers.\<close>

lemma quad_slab_sum_int:
  assumes "0 \<le> n + 1"
  shows "(\<Sum>u = 0..n. quad_slab (of_int u) (of_int u + 1) a0 a1 b0 b1 c0 c1 d0 d1)
     = quad_slab 0 (of_int (n + 1)) a0 a1 b0 b1 c0 c1 d0 d1"
proof -
  from assms have "- 1 \<le> n" by simp
  then show ?thesis
  proof (induction n rule: int_ge_induct)
    case base
    then show ?case by (simp add: quad_slab_zero)
  next
    case (step i)
    have s: "{0..i + 1} = insert (i + 1) {0..i}" using step.hyps by auto
    have "quad_slab 0 (of_int (i + 1 + 1)) a0 a1 b0 b1 c0 c1 d0 d1 =
        quad_slab 0 (of_int (i + 1)) a0 a1 b0 b1 c0 c1 d0 d1
        + quad_slab (of_int (i + 1)) (of_int (i + 1 + 1)) a0 a1 b0 b1 c0 c1 d0 d1"
      using step.hyps by (intro quad_slab_add) simp_all
    with step.IH show ?case unfolding s by (simp add: add.commute)
  qed
qed

lemma abs_sum_same_sign_set:
  fixes f :: "int \<Rightarrow> real"
  assumes "(\<forall>i. f i \<le> 0) \<or> (\<forall>i. 0 \<le> f i)"
  shows "(\<Sum>i \<in> S. \<bar>f i\<bar>) = \<bar>\<Sum>i \<in> S. f i\<bar>"
proof -
  from assms consider (neg) "\<forall>i. f i \<le> 0" | (pos) "\<forall>i. 0 \<le> f i" by blast
  then show ?thesis
  proof cases
    case neg
    then have "(\<Sum>i \<in> S. \<bar>f i\<bar>) = (\<Sum>i \<in> S. - f i)" by (intro sum.cong) auto
    moreover have "(\<Sum>i \<in> S. f i) \<le> 0" using neg by (intro sum_nonpos) auto
    ultimately show ?thesis by (simp add: sum_negf)
  next
    case pos
    then have "(\<Sum>i \<in> S. \<bar>f i\<bar>) = (\<Sum>i \<in> S. f i)" by (intro sum.cong) auto
    moreover have "0 \<le> (\<Sum>i \<in> S. f i)" using pos by (intro sum_nonneg) auto
    ultimately show ?thesis by simp
  qed
qed

lemma columns_total:
  assumes cv: "convex_quad a0 a1 b0 b1 c0 c1 d0 d1" and n: "0 \<le> n"
    and r: "0 \<le> a0" "a0 \<le> of_int (n + 1)" "0 \<le> b0" "b0 \<le> of_int (n + 1)"
      "0 \<le> c0" "c0 \<le> of_int (n + 1)" "0 \<le> d0" "d0 \<le> of_int (n + 1)"
  shows "(\<Sum>u = 0..n. \<bar>quad_slab (of_int u) (of_int u + 1) a0 a1 b0 b1 c0 c1 d0 d1\<bar>)
     = \<bar>area2 a0 a1 b0 b1 c0 c1 d0 d1\<bar> / 2"
proof -
  have sgn: "(\<forall>i::int. quad_slab (of_int i) (of_int i + 1) a0 a1 b0 b1 c0 c1 d0 d1 \<le> 0) \<or>
      (\<forall>i::int. 0 \<le> quad_slab (of_int i) (of_int i + 1) a0 a1 b0 b1 c0 c1 d0 d1)"
    using quad_slab_sign[OF cv] by (cases "0 \<le> area2 a0 a1 b0 b1 c0 c1 d0 d1") auto
  have "(\<Sum>u = 0..n. \<bar>quad_slab (of_int u) (of_int u + 1) a0 a1 b0 b1 c0 c1 d0 d1\<bar>)
      = \<bar>quad_slab 0 (of_int (n + 1)) a0 a1 b0 b1 c0 c1 d0 d1\<bar>"
    using abs_sum_same_sign_set[OF sgn, of "{0..n}"] n by (simp add: quad_slab_sum_int)
  also have "quad_slab 0 (of_int (n + 1)) a0 a1 b0 b1 c0 c1 d0 d1
      = - area2 a0 a1 b0 b1 c0 c1 d0 d1 / 2"
    unfolding area2_def by (rule quad_slab_full[OF r])
  finally show ?thesis by simp
qed

text \<open>A shift along the first axis changes neither the turns nor the area.\<close>

lemma cross3_shift: "cross3 (p0 - l) p1 (q0 - l) q1 (r0 - l) r1 = cross3 p0 p1 q0 q1 r0 r1"
  by (simp add: cross3_def)

lemma convex_quad_shift:
  "convex_quad (a0 - l) a1 (b0 - l) b1 (c0 - l) c1 (d0 - l) d1 = convex_quad a0 a1 b0 b1 c0 c1 d0 d1"
  by (simp add: convex_quad_def cross3_shift)

lemma area2_shift:
  "area2 (a0 - l) a1 (b0 - l) b1 (c0 - l) c1 (d0 - l) d1 = area2 a0 a1 b0 b1 c0 c1 d0 d1"
  by (simp add: area2_def)

text \<open>A change of scale along the first axis keeps the turns to one side.\<close>

lemma cross3_scale:
  "cross3 ((p0 - m) / d) p1 ((q0 - m) / d) q1 ((r0 - m) / d) r1 = cross3 p0 p1 q0 q1 r0 r1 / d"
  by (simp add: cross3_def diff_divide_distrib[symmetric] algebra_simps)

lemma area2_scale:
  "area2 ((a0 - m) / d) a1 ((b0 - m) / d) b1 ((c0 - m) / d) c1 ((d0 - m) / d) d1
     = area2 a0 a1 b0 b1 c0 c1 d0 d1 / d"
  by (simp add: area2_AC cross3_scale add_divide_distrib)

lemma convex_quad_scale:
  assumes "convex_quad a0 a1 b0 b1 c0 c1 d0 d1"
  shows "convex_quad ((a0 - m) / d) a1 ((b0 - m) / d) b1 ((c0 - m) / d) c1 ((d0 - m) / d) d1"
proof (cases "0 \<le> d")
  case True
  with assms show ?thesis
    unfolding convex_quad_def cross3_scale
    by (auto simp: divide_nonneg_nonneg divide_nonpos_nonneg)
next
  case False
  then have "d \<le> 0" by simp
  with assms show ?thesis
    unfolding convex_quad_def cross3_scale
    by (auto simp: divide_nonneg_nonpos divide_nonpos_nonpos)
qed

subsection \<open>The weights of the source over the reals\<close>

lemma lim_Fin: "lim (Fin x) u = Fin (clampr (of_int u) (of_int u + 1) x)"
  by (auto simp: lim_def of_i_def b2i_def clampr_def)

lemma integrate_Fin:
  "integrate (Fin (clampr t1 t2 p0)) (Fin (clampr t1 t2 q0)) (line (Fin p0) (Fin p1) (Fin q0) (Fin q1))
     = Fin (edge_slab t1 t2 p0 p1 q0 q1)"
proof (cases "p0 = q0")
  case True
  then show ?thesis by (simp add: integrate_def deq_def edge_slab_def edge_int_def)
next
  case False
  then have "line (Fin p0) (Fin p1) (Fin q0) (Fin q1) =
      \<lparr>slope = Fin ((q1 - p1) / (q0 - p0)), intersect = Fin (p1 - (q1 - p1) / (q0 - p0) * p0)\<rparr>"
    by (simp add: line_def Let_def divide_Fin)
  then show ?thesis
    by (simp add: integrate_def deq_def edge_slab_def edge_int_def)
qed

lemma column_area_Fin:
  "column_area (Fin a0) (Fin b0) (Fin c0) (Fin d0)
     (line (Fin a0) (Fin a1) (Fin b0) (Fin b1)) (line (Fin b0) (Fin b1) (Fin c0) (Fin c1))
     (line (Fin c0) (Fin c1) (Fin d0) (Fin d1)) (line (Fin d0) (Fin d1) (Fin a0) (Fin a1)) u
   = Fin (quad_slab (of_int u) (of_int u + 1) a0 a1 b0 b1 c0 c1 d0 d1)"
  by (simp add: column_area_def Let_def lim_Fin integrate_Fin quad_slab_def)

lemma area4_Fin:
  "area4 (Fin a0) (Fin a1) (Fin b0) (Fin b1) (Fin c0) (Fin c1) (Fin d0) (Fin d1)
     = Fin (\<bar>area2 a0 a1 b0 b1 c0 c1 d0 d1\<bar> / 2)"
  by (simp add: area4_def area2_def)

lemma split_weight_Fin:
  assumes "ar \<noteq> 0"
  shows "split_weight (Fin a0) (Fin a1) (Fin b0) (Fin b1) (Fin c0) (Fin c1) (Fin d0) (Fin d1)
     (Fin ar) u
   = Fin (\<bar>quad_slab (of_int u) (of_int u + 1) a0 a1 b0 b1 c0 c1 d0 d1\<bar> / ar)"
  using assms by (simp add: split_weight_def Let_def column_area_Fin divide_Fin)

lemma is_fin_the_fin: "is_fin x \<Longrightarrow> x = Fin (the_fin x)"
  by (cases x) simp_all

lemma cmin_Fin: "cmin (Fin x) (Fin y) = Fin (min x y)"
  by (simp add: cmin_def min_def)

lemma cmax_Fin: "cmax (Fin x) (Fin y) = Fin (max x y)"
  by (simp add: cmax_def max_def)

lemma min4_Fin: "min4 (Fin a) (Fin b) (Fin c) (Fin d) = Fin (min a (min b (min c d)))"
  by (simp add: min4_def cmin_Fin min.assoc)

lemma max4_Fin: "max4 (Fin a) (Fin b) (Fin c) (Fin d) = Fin (max a (max b (max c d)))"
  by (simp add: max4_def cmax_Fin max.assoc)

lemma to_int_floor: "to_int (dfloor (Fin x)) = Inr k \<Longrightarrow> k = \<lfloor>x\<rfloor>"
  by (simp add: Let_def split: if_splits)

lemma times_one: "x * Fin 1 = (x::dbl)"
  by (cases x) (simp_all add: inf_of_sign_def)

lemma split_loop_cong:
  "(\<And>b. b \<in> set bs \<Longrightarrow> w b = w' b) \<Longrightarrow> (\<And>b. b \<in> set bs \<Longrightarrow> dw b = dw' b) \<Longrightarrow>
     split_loop w dw bs st = split_loop w' dw' bs st"
proof (induction bs arbitrary: st)
  case Nil
  then show ?case by (cases st) simp
next
  case (Cons b bs)
  obtain od oc where st: "st = (od, oc)" by (cases st)
  have "w b = w' b" "dw b = dw' b" using Cons.prems by simp_all
  moreover have "\<And>s. split_loop w dw bs s = split_loop w' dw' bs s"
    using Cons.IH Cons.prems by simp
  ultimately show ?case unfolding st by (simp split: sum.splits)
qed

text \<open>The accumulation adds the weights \<open>bin_weight\<close> to the bins from the first to the last.\<close>

lemma deposit1D_weights:
  assumes "to_int (dfloor (qmin0 q)) = Inr lo" "to_int (dfloor (qmax0 q)) = Inr hi"
  shows "deposit1D q data st =
     split_loop (bin_weight q lo hi) (\<lambda>b. data * bin_weight q lo hi b) [lo..hi] st"
proof (cases "lo = hi")
  case True
  have "split_loop (\<lambda>b. Fin 1) (\<lambda>b. data) [lo] st =
      split_loop (bin_weight q lo lo) (\<lambda>b. data * bin_weight q lo lo b) [lo] st"
    by (rule split_loop_cong) (simp_all add: bin_weight_def times_one)
  then show ?thesis using assms True by (simp add: deposit1D_def)
next
  case False
  have "split_loop (\<lambda>b. weight0 (shift0 q lo) (b - lo))
        (\<lambda>b. data * weight0 (shift0 q lo) (b - lo)) [lo..hi] st =
      split_loop (bin_weight q lo hi) (\<lambda>b. data * bin_weight q lo hi b) [lo..hi] st"
    using False by (intro split_loop_cong) (simp_all add: bin_weight_def)
  then show ?thesis using assms False by (simp add: deposit1D_def Let_def)
qed

subsection \<open>The columns of a convex pixel\<close>

text \<open>
  \<open>W u\<close> is the real weight of column \<open>u\<close> of a pixel that is translated so that its first
  column is column 0, and \<open>bw k\<close> the real weight of bin \<open>k\<close>.
\<close>

lemma min4_shift: "min (a - l) (min (b - l) (min (c - l) (d - l))) = min a (min b (min c d)) - (l::real)"
  by (simp add: min_def)

lemma max4_shift: "max (a - l) (max (b - l) (max (c - l) (d - l))) = max a (max b (max c d)) - (l::real)"
  by (simp add: max_def)

lemma columns_partition:
  fixes a0 a1 b0 b1 c0 c1 d0 d1 :: real and lo hi bins :: int
  assumes cv: "convex_quad a0 a1 b0 b1 c0 c1 d0 d1"
    and nz: "area2 a0 a1 b0 b1 c0 c1 d0 d1 \<noteq> 0"
    and m: "m = min a0 (min b0 (min c0 d0))" and M: "M = max a0 (max b0 (max c0 d0))"
    and lo: "lo = \<lfloor>m\<rfloor>" and hi: "hi = \<lfloor>M\<rfloor>"
    and acc: "0 \<le> M" "m < of_int bins"
    and W: "\<And>u. W u = \<bar>quad_slab (of_int u) (of_int u + 1) (a0 - of_int lo) a1 (b0 - of_int lo) b1
                         (c0 - of_int lo) c1 (d0 - of_int lo) d1\<bar>
                       / (\<bar>area2 a0 a1 b0 b1 c0 c1 d0 d1\<bar> / 2)"
    and bw: "\<And>k. bw k = (if k < lo \<or> hi < k then 0 else if lo = hi then 1 else W (k - lo))"
  shows "\<forall>k. 0 \<le> bw k" and "sum bw {lo..hi} = 1"
    and "0 \<le> sum bw {0..bins - 1}" and "sum bw {0..bins - 1} \<le> 1"
    and "sum bw {0..bins - 1} = 1 \<longleftrightarrow> 0 \<le> m \<and> M \<le> of_int bins"
proof -
  define ar where "ar = \<bar>area2 a0 a1 b0 b1 c0 c1 d0 d1\<bar> / 2"
  have ar: "0 < ar" using nz by (simp add: ar_def)
  define l where "l = (of_int lo :: real)"
  have cv': "convex_quad (a0 - l) a1 (b0 - l) b1 (c0 - l) c1 (d0 - l) d1"
    using cv by (simp add: convex_quad_shift)
  have nz': "area2 (a0 - l) a1 (b0 - l) b1 (c0 - l) c1 (d0 - l) d1 \<noteq> 0"
    using nz by (simp add: area2_shift)
  have Wd: "\<And>u. W u = \<bar>quad_slab (of_int u) (of_int u + 1) (a0 - l) a1 (b0 - l) b1
                         (c0 - l) c1 (d0 - l) d1\<bar> / ar"
    unfolding W ar_def l_def by simp
  have mle: "m \<le> a0" "m \<le> b0" "m \<le> c0" "m \<le> d0" unfolding m by simp_all
  have Mge: "a0 \<le> M" "b0 \<le> M" "c0 \<le> M" "d0 \<le> M" unfolding M by simp_all
  have mM: "m \<le> M" using mle(1) Mge(1) by simp
  have lohi: "lo \<le> hi" unfolding lo hi using mM by (rule floor_mono)
  have lm: "l \<le> m" "m < l + 1" unfolding l_def lo by linarith+
  have hM: "of_int hi \<le> M" "M < of_int hi + 1" unfolding hi by linarith+
  have hi0: "0 \<le> hi" unfolding hi using acc(1) by simp
  have lob: "lo < bins" unfolding lo using acc(2) by (simp add: floor_less_iff)
  have W0: "\<And>u. 0 \<le> W u" unfolding Wd using ar by simp
  show nonneg: "\<forall>k. 0 \<le> bw k" unfolding bw using W0 by simp
  have total: "sum bw {lo..hi} = 1"
  proof (cases "lo = hi")
    case True
    then show ?thesis by (simp add: bw)
  next
    case False
    with lohi have lt: "lo < hi" by simp
    define n where "n = hi - lo"
    have n0: "0 \<le> n" using lt by (simp add: n_def)
    have up: "M - l < of_int (n + 1)" using hM(2) by (simp add: n_def l_def)
    have "(\<Sum>u = 0..n. \<bar>quad_slab (of_int u) (of_int u + 1) (a0 - l) a1 (b0 - l) b1
             (c0 - l) c1 (d0 - l) d1\<bar>)
        = \<bar>area2 (a0 - l) a1 (b0 - l) b1 (c0 - l) c1 (d0 - l) d1\<bar> / 2"
      using cv' n0
    proof (rule columns_total)
      show "0 \<le> a0 - l" "0 \<le> b0 - l" "0 \<le> c0 - l" "0 \<le> d0 - l"
        using lm(1) mle by simp_all
      show "a0 - l \<le> of_int (n + 1)" "b0 - l \<le> of_int (n + 1)"
        "c0 - l \<le> of_int (n + 1)" "d0 - l \<le> of_int (n + 1)"
        using up Mge by simp_all
    qed
    then have "(\<Sum>u = 0..n. W u * ar) = ar"
      unfolding Wd using ar by (simp add: area2_shift ar_def)
    then have "(\<Sum>u = 0..n. W u) * ar = ar" by (simp add: sum_distrib_right)
    then have s1: "(\<Sum>u = 0..n. W u) = 1" using ar by simp
    have "sum bw {lo..hi} = (\<Sum>k = lo..hi. W (k - lo))"
      using lt by (intro sum.cong) (simp_all add: bw)
    also have "\<dots> = (\<Sum>u = 0..n. W u)"
      by (rule sum.reindex_bij_witness[of _ "\<lambda>u. u + lo" "\<lambda>k. k - lo"]) (auto simp: n_def)
    finally show ?thesis using s1 by simp
  qed
  show "sum bw {lo..hi} = 1" by (rule total)
  define E where "E = sum bw ({lo..hi} - {0..bins - 1})"
  have inside: "sum bw {0..bins - 1} = sum bw ({lo..hi} \<inter> {0..bins - 1})"
    by (rule sum.mono_neutral_right) (auto simp: bw)
  have split: "sum bw {lo..hi} = sum bw ({lo..hi} \<inter> {0..bins - 1}) + E"
    unfolding E_def by (subst sum.union_disjoint[symmetric]) (auto intro: sum.cong)
  have S: "sum bw {0..bins - 1} = 1 - E" using inside split total by simp
  have E0: "0 \<le> E" unfolding E_def using nonneg by (intro sum_nonneg) simp
  have Ez: "E = 0 \<longleftrightarrow> (\<forall>k \<in> {lo..hi} - {0..bins - 1}. bw k = 0)"
    unfolding E_def using nonneg by (intro sum_nonneg_eq_0_iff) simp_all
  show "0 \<le> sum bw {0..bins - 1}" using nonneg by (intro sum_nonneg) simp
  show "sum bw {0..bins - 1} \<le> 1" using S E0 by simp
  have first: "0 < W 0"
  proof -
    have "quad_slab 0 1 (a0 - l) a1 (b0 - l) b1 (c0 - l) c1 (d0 - l) d1 \<noteq> 0"
      using cv' nz' by (rule first_column_nonzero) (use lm in \<open>simp_all add: min4_shift m[symmetric]\<close>)
    then show ?thesis unfolding Wd using ar by simp
  qed
  have last1: "0 < W (hi - lo)" if "of_int hi < M"
  proof -
    have "quad_slab (of_int (hi - lo)) (of_int (hi - lo) + 1)
        (a0 - l) a1 (b0 - l) b1 (c0 - l) c1 (d0 - l) d1 \<noteq> 0"
      using cv' nz' by (rule last_column_nonzero)
        (use that hM in \<open>simp_all add: max4_shift M[symmetric] l_def\<close>)
    then show ?thesis unfolding Wd using ar by simp
  qed
  have last2: "0 < W (hi - 1 - lo)" if "of_int hi = M"
  proof -
    have "quad_slab (of_int (hi - 1 - lo)) (of_int (hi - 1 - lo) + 1)
        (a0 - l) a1 (b0 - l) b1 (c0 - l) c1 (d0 - l) d1 \<noteq> 0"
      using cv' nz' by (rule last_column_nonzero)
        (use that in \<open>simp_all add: max4_shift M[symmetric] l_def\<close>)
    then show ?thesis unfolding Wd using ar by simp
  qed
  have beyond: "W (hi - lo) = 0" if "of_int hi = M"
  proof -
    have "quad_slab (of_int (hi - lo)) (of_int (hi - lo) + 1)
        (a0 - l) a1 (b0 - l) b1 (c0 - l) c1 (d0 - l) d1 = 0"
      by (rule column_beyond) (use that Mge in \<open>simp_all add: l_def\<close>)
    then show ?thesis unfolding Wd by simp
  qed
  have "E = 0 \<longleftrightarrow> 0 \<le> m \<and> M \<le> of_int bins"
  proof
    assume "0 \<le> m \<and> M \<le> of_int bins"
    then have m0: "0 \<le> m" and Mb: "M \<le> of_int bins" by simp_all
    have lo0: "0 \<le> lo" unfolding lo using m0 by simp
    have "bw k = 0" if k: "k \<in> {lo..hi} - {0..bins - 1}" for k
    proof -
      from k lo0 have kb: "bins \<le> k" "k \<le> hi" by auto
      have "of_int hi \<le> (of_int bins :: real)" using hM(1) Mb by linarith
      then have "hi \<le> bins" by simp
      with kb have e: "k = hi" "hi = bins" by simp_all
      have "of_int hi = M" using hM(1) Mb e(2) by simp
      then have "W (hi - lo) = 0" by (rule beyond)
      moreover have "lo < hi" using lob e(2) by simp
      ultimately show ?thesis unfolding bw e(1) by simp
    qed
    then show "E = 0" unfolding Ez by blast
  next
    assume "E = 0"
    then have z: "\<And>k. k \<in> {lo..hi} - {0..bins - 1} \<Longrightarrow> bw k = 0" unfolding Ez by blast
    have "0 \<le> m"
    proof (rule ccontr)
      assume "\<not> 0 \<le> m"
      then have "lo < 0" unfolding lo by (simp add: floor_less_iff)
      then have in_E: "lo \<in> {lo..hi} - {0..bins - 1}" and lt: "lo < hi" using lohi hi0 by auto
      from in_E have "bw lo = 0" by (rule z)
      moreover have "bw lo = W 0" using lt by (simp add: bw)
      ultimately show False using first by simp
    qed
    moreover have "M \<le> of_int bins"
    proof (rule ccontr)
      assume "\<not> M \<le> of_int bins"
      then have Mb: "of_int bins < M" by simp
      then have hb: "bins \<le> hi" unfolding hi by (simp add: le_floor_iff)
      with lob have lt: "lo < hi" by simp
      show False
      proof (cases "of_int hi = M")
        case True
        then have p: "0 < W (hi - 1 - lo)" by (rule last2)
        from True Mb have "bins < hi" by simp
        then have "hi - 1 \<in> {lo..hi} - {0..bins - 1}" using lob by auto
        then have "bw (hi - 1) = 0" by (rule z)
        moreover have "bw (hi - 1) = W (hi - 1 - lo)" using lt lob \<open>bins < hi\<close> by (simp add: bw)
        ultimately show False using p by simp
      next
        case False
        with hM(1) have "of_int hi < M" by simp
        then have p: "0 < W (hi - lo)" by (rule last1)
        have "hi \<in> {lo..hi} - {0..bins - 1}" using hb lohi by auto
        then have "bw hi = 0" by (rule z)
        moreover have "bw hi = W (hi - lo)" using lt by (simp add: bw)
        ultimately show False using p by simp
      qed
    qed
    ultimately show "0 \<le> m \<and> M \<le> of_int bins" by simp
  qed
  then show "sum bw {0..bins - 1} = 1 \<longleftrightarrow> 0 \<le> m \<and> M \<le> of_int bins"
    using S by auto
qed

subsection \<open>The weights of a pixel\<close>

lemma sum_list_upto: "sum_list (map f [i..j]) = sum f {i..j}"
  using sum_set_upto_conv_sum_list_int[of f i j] by simp

lemma quad_partition:
  fixes a0 a1 b0 b1 c0 c1 d0 d1 :: real
  assumes q: "q = \<lparr>qa0 = Fin a0, qa1 = Fin a1, qb0 = Fin b0, qb1 = Fin b1,
                    qc0 = Fin c0, qc1 = Fin c1, qd0 = Fin d0, qd1 = Fin d1\<rparr>"
    and cv: "convex_quad a0 a1 b0 b1 c0 c1 d0 d1"
    and nz: "area2 a0 a1 b0 b1 c0 c1 d0 d1 \<noteq> 0"
    and acc: "\<not> (qmax0 q < Fin 0 \<or> of_i bins \<le> qmin0 q)"
    and lo: "to_int (dfloor (qmin0 q)) = Inr lo" and hi: "to_int (dfloor (qmax0 q)) = Inr hi"
  shows "\<forall>k. \<exists>w. bin_weight q lo hi k = Fin w \<and> 0 \<le> w"
    and "sum_list (map (\<lambda>k. the_fin (bin_weight q lo hi k)) [lo..hi]) = 1"
    and "0 \<le> inside_sum q lo hi bins" and "inside_sum q lo hi bins \<le> 1"
    and "inside_sum q lo hi bins = 1 \<longleftrightarrow> fully_inside q bins"
    and "lo \<le> hi"
    and "(0 \<le> lo \<and> hi < bins) = (Fin 0 \<le> qmin0 q \<and> qmax0 q < of_i bins)"
proof -
  define m where "m = min a0 (min b0 (min c0 d0))"
  define M where "M = max a0 (max b0 (max c0 d0))"
  define ar where "ar = \<bar>area2 a0 a1 b0 b1 c0 c1 d0 d1\<bar> / 2"
  define W where "W = (\<lambda>u::int. \<bar>quad_slab (of_int u) (of_int u + 1) (a0 - of_int lo) a1
      (b0 - of_int lo) b1 (c0 - of_int lo) c1 (d0 - of_int lo) d1\<bar> / ar)"
  define bw where "bw = (\<lambda>k. if k < lo \<or> hi < k then 0 else if lo = hi then 1 else W (k - lo))"
  have ar: "ar \<noteq> 0" using nz by (simp add: ar_def)
  have qm: "qmin0 q = Fin m" unfolding q qmin0_def m_def by (simp add: min4_Fin)
  have qM: "qmax0 q = Fin M" unfolding q qmax0_def M_def by (simp add: max4_Fin)
  have lo': "lo = \<lfloor>m\<rfloor>" using lo unfolding qm by (rule to_int_floor)
  have hi': "hi = \<lfloor>M\<rfloor>" using hi unfolding qM by (rule to_int_floor)
  have acc': "0 \<le> M" "m < of_int bins" using acc unfolding qm qM by (simp_all add: of_i_def)
  have w0: "weight0 (shift0 q lo) u = Fin (W u)" for u
  proof -
    have "areaPixel (shift0 q lo) = Fin ar"
      unfolding q by (simp add: areaPixel_def shift0_def of_i_def area4_Fin area2_shift ar_def)
    then show ?thesis
      unfolding weight0_def W_def using ar
      by (simp add: q shift0_def of_i_def split_weight_Fin)
  qed
  have bwq: "bin_weight q lo hi k = Fin (bw k)" for k
    by (simp add: bin_weight_def bw_def w0)
  have Wp: "\<And>u. W u = \<bar>quad_slab (of_int u) (of_int u + 1) (a0 - of_int lo) a1
      (b0 - of_int lo) b1 (c0 - of_int lo) c1 (d0 - of_int lo) d1\<bar>
      / (\<bar>area2 a0 a1 b0 b1 c0 c1 d0 d1\<bar> / 2)"
    unfolding W_def ar_def by simp
  have bwp: "\<And>k. bw k = (if k < lo \<or> hi < k then 0 else if lo = hi then 1 else W (k - lo))"
    unfolding bw_def by simp
  note P = columns_partition[OF cv nz m_def M_def lo' hi' acc' Wp bwp]
  show "\<forall>k. \<exists>w. bin_weight q lo hi k = Fin w \<and> 0 \<le> w"
    using P(1) by (simp add: bwq)
  show "sum_list (map (\<lambda>k. the_fin (bin_weight q lo hi k)) [lo..hi]) = 1"
    using P(2) by (simp add: bwq sum_list_upto)
  have S: "inside_sum q lo hi bins = sum bw {0..bins - 1}"
    by (simp add: inside_sum_def bwq sum_list_upto)
  show "0 \<le> inside_sum q lo hi bins" "inside_sum q lo hi bins \<le> 1"
    using P(3,4) unfolding S by simp_all
  have "fully_inside q bins = (0 \<le> m \<and> M \<le> of_int bins)"
    by (simp add: fully_inside_def qm qM of_i_def)
  then show "inside_sum q lo hi bins = 1 \<longleftrightarrow> fully_inside q bins"
    using P(5) unfolding S by simp
  have "m \<le> a0" "a0 \<le> M" unfolding m_def M_def by simp_all
  then have "m \<le> M" by simp
  then show "lo \<le> hi" unfolding lo' hi' by (rule floor_mono)
  show "(0 \<le> lo \<and> hi < bins) = (Fin 0 \<le> qmin0 q \<and> qmax0 q < of_i bins)"
    unfolding lo' hi' qm qM by (simp add: of_i_def floor_less_iff)
qed

text \<open>What the accumulation loop does to the two arrays.\<close>

lemma add_zero: "x + Fin 0 = (x :: dbl)"
  by (cases x) simp_all

lemma split_loop_result:
  assumes "distinct bs" "\<forall>b \<in> set bs. 0 \<le> b \<and> b < int (length oc)" "length od = length oc"
  shows "split_loop w dw bs (od, oc) =
     Inr (map (\<lambda>k. if int k \<in> set bs then od ! k + dw (int k) else od ! k) [0..<length od],
          map (\<lambda>k. if int k \<in> set bs then oc ! k + w (int k) else oc ! k) [0..<length oc])"
  using assms
proof (induction bs arbitrary: od oc)
  case Nil
  show ?case by (simp add: map_nth)
next
  case (Cons b bs)
  from Cons.prems have b: "0 \<le> b" "nat b < length oc" "nat b < length od" "b \<notin> set bs"
    by auto
  define oc1 where "oc1 = oc[nat b := oc ! nat b + w b]"
  define od1 where "od1 = od[nat b := od ! nat b + dw b]"
  have a1: "add_at oc b (w b) = Inr oc1" using b by (simp add: add_at_def oc1_def)
  have a2: "add_at od b (dw b) = Inr od1" using b by (simp add: add_at_def od1_def)
  have len: "length od1 = length oc1" "length oc1 = length oc" "length od1 = length od"
    using Cons.prems(3) by (simp_all add: oc1_def od1_def)
  have ih: "split_loop w dw bs (od1, oc1) =
     Inr (map (\<lambda>k. if int k \<in> set bs then od1 ! k + dw (int k) else od1 ! k) [0..<length od1],
          map (\<lambda>k. if int k \<in> set bs then oc1 ! k + w (int k) else oc1 ! k) [0..<length oc1])"
    using Cons.prems len by (intro Cons.IH) simp_all
  have e1: "(if int k \<in> set bs then od1 ! k + dw (int k) else od1 ! k) =
      (if int k \<in> set (b # bs) then od ! k + dw (int k) else od ! k)" if "k < length od" for k
  proof (cases "k = nat b")
    case True
    then have "int k = b" using b(1) by simp
    with True b that show ?thesis by (simp add: od1_def)
  next
    case False
    then have "int k \<noteq> b" using b(1) by auto
    with False show ?thesis by (simp add: od1_def)
  qed
  have e2: "(if int k \<in> set bs then oc1 ! k + w (int k) else oc1 ! k) =
      (if int k \<in> set (b # bs) then oc ! k + w (int k) else oc ! k)" if "k < length oc" for k
  proof (cases "k = nat b")
    case True
    then have "int k = b" using b(1) by simp
    with True b that show ?thesis by (simp add: oc1_def)
  next
    case False
    then have "int k \<noteq> b" using b(1) by auto
    with False show ?thesis by (simp add: oc1_def)
  qed
  have m1: "map (\<lambda>k. if int k \<in> set bs then od1 ! k + dw (int k) else od1 ! k) [0..<length od1]
      = map (\<lambda>k. if int k \<in> set (b # bs) then od ! k + dw (int k) else od ! k) [0..<length od]"
    unfolding len(3) by (rule map_cong) (simp_all add: e1)
  have m2: "map (\<lambda>k. if int k \<in> set bs then oc1 ! k + w (int k) else oc1 ! k) [0..<length oc1]
      = map (\<lambda>k. if int k \<in> set (b # bs) then oc ! k + w (int k) else oc ! k) [0..<length oc]"
    unfolding len(2) by (rule map_cong) (simp_all add: e2)
  have "split_loop w dw (b # bs) (od, oc) = split_loop w dw bs (od1, oc1)"
    by (simp add: a1 a2)
  then show ?case unfolding ih m1 m2 .
qed

lemma split_loop_fault:
  assumes "\<exists>b \<in> set bs. \<not> (0 \<le> b \<and> b < int (length oc))" "length od = length oc"
  shows "split_loop w dw bs (od, oc) = Inl MemoryFault"
  using assms
proof (induction bs arbitrary: od oc)
  case Nil
  then show ?case by simp
next
  case (Cons b bs)
  show ?case
  proof (cases "0 \<le> b \<and> b < int (length oc)")
    case False
    then have "add_at oc b (w b) = Inl MemoryFault" by (simp add: add_at_def)
    then show ?thesis by simp
  next
    case True
    define oc1 where "oc1 = oc[nat b := oc ! nat b + w b]"
    define od1 where "od1 = od[nat b := od ! nat b + dw b]"
    have a1: "add_at oc b (w b) = Inr oc1" using True by (simp add: add_at_def oc1_def)
    have a2: "add_at od b (dw b) = Inr od1"
      using True Cons.prems(2) by (simp add: add_at_def od1_def)
    have len: "length od1 = length oc1" "length oc1 = length oc"
      using Cons.prems(2) by (simp_all add: oc1_def od1_def)
    from Cons.prems(1) True have "\<exists>b \<in> set bs. \<not> (0 \<le> b \<and> b < int (length oc1))"
      unfolding len(2) by auto
    then have "split_loop w dw bs (od1, oc1) = Inl MemoryFault"
      using len(1) by (rule Cons.IH)
    then show ?thesis by (simp add: a1 a2)
  qed
qed

text \<open>
  The accumulation of a pixel on arrays of \<open>bins\<close> entries: it returns when the first bin and
  the last bin of the pixel are bins of the output, with the weight of bin \<open>k\<close> added to
  \<open>outCount[k]\<close> and the weighted intensity added to \<open>outData[k]\<close>, and else it ends in a
  write outside the arrays.
\<close>

lemma deposit1D_result:
  assumes lo: "to_int (dfloor (qmin0 q)) = Inr lo" and hi: "to_int (dfloor (qmax0 q)) = Inr hi"
    and len: "length od = length oc" and lohi: "lo \<le> hi"
  shows "0 \<le> lo \<and> hi < int (length oc) \<Longrightarrow>
     deposit1D q data (od, oc) =
       Inr (map (\<lambda>k. if lo \<le> int k \<and> int k \<le> hi
                      then od ! k + data * bin_weight q lo hi (int k) else od ! k)
              [0..<length od],
            map (\<lambda>k. oc ! k + bin_weight q lo hi (int k)) [0..<length oc])"
    and "\<not> (0 \<le> lo \<and> hi < int (length oc)) \<Longrightarrow> deposit1D q data (od, oc) = Inl MemoryFault"
proof -
  note d = deposit1D_weights[OF lo hi, of data "(od, oc)"]
  show "deposit1D q data (od, oc) =
       Inr (map (\<lambda>k. if lo \<le> int k \<and> int k \<le> hi
                      then od ! k + data * bin_weight q lo hi (int k) else od ! k)
              [0..<length od],
            map (\<lambda>k. oc ! k + bin_weight q lo hi (int k)) [0..<length oc])"
    if r: "0 \<le> lo \<and> hi < int (length oc)"
  proof -
    have "\<forall>b \<in> set [lo..hi]. 0 \<le> b \<and> b < int (length oc)" using r by auto
    from split_loop_result[OF distinct_upto this len]
    have "deposit1D q data (od, oc) =
        Inr (map (\<lambda>k. if int k \<in> set [lo..hi]
                        then od ! k + data * bin_weight q lo hi (int k) else od ! k)
               [0..<length od],
             map (\<lambda>k. if int k \<in> set [lo..hi]
                        then oc ! k + bin_weight q lo hi (int k) else oc ! k)
               [0..<length oc])"
      unfolding d .
    moreover have "(if int k \<in> set [lo..hi] then oc ! k + bin_weight q lo hi (int k) else oc ! k)
        = oc ! k + bin_weight q lo hi (int k)" for k
      by (auto simp: bin_weight_def add_zero)
    ultimately show ?thesis by simp
  qed
  show "deposit1D q data (od, oc) = Inl MemoryFault" if r: "\<not> (0 \<le> lo \<and> hi < int (length oc))"
  proof -
    from r lohi have "\<not> (0 \<le> lo \<and> lo < int (length oc)) \<or> \<not> (0 \<le> hi \<and> hi < int (length oc))"
      by auto
    moreover have "lo \<in> set [lo..hi]" "hi \<in> set [lo..hi]" using lohi by simp_all
    ultimately have "\<exists>b \<in> set [lo..hi]. \<not> (0 \<le> b \<and> b < int (length oc))" by blast
    from split_loop_fault[OF this len] show ?thesis unfolding d .
  qed
qed

lemma quad1D_Fin:
  assumes "dpos \<noteq> 0"
  shows "quad1D p r dpos =
     \<lparr>qa0 = Fin ((c00 p - pos0_min r) / dpos), qa1 = Fin (c01 p),
      qb0 = Fin ((c10 p - pos0_min r) / dpos), qb1 = Fin (c11 p),
      qc0 = Fin ((c20 p - pos0_min r) / dpos), qc1 = Fin (c21 p),
      qd0 = Fin ((c30 p - pos0_min r) / dpos), qd1 = Fin (c31 p)\<rparr>"
  using assms by (simp add: quad1D_def getBinNr_def divide_Fin)

lemma pixel1D_accepted:
  assumes "\<not> skip1D inp idx" "q = quad1D (cpos inp ! idx) r dpos"
    and "\<not> (qmax0 q < Fin 0 \<or> of_i bins \<le> qmin0 q)"
  shows "pixel1D inp r bins dpos False idx st =
     deposit1D q (correct (cdark inp) (cflat inp) (cpolarization inp) (csolidangle inp) idx
                    (Fin (cdata inp ! idx))) st"
  using assms by (simp add: pixel1D_def Let_def)

text \<open>
  C1. Partition of unity per pixel. Take a pixel that the loop of \<^verbatim>\<open>fullSplit1D\<close> accepts: it
  is neither masked nor a dummy value, and it is not discarded as out of range. Let it be
  convex with a nonzero area, and let its first and last bin be \<open>lo\<close> and \<open>hi\<close>. The weight
  \<open>bin_weight q lo hi k\<close> of bin \<open>k\<close> is 1 on the single-bin path and otherwise the absolute
  value of the line integrals of the four edges over the column, divided by the area of the
  pixel. When \<open>lo\<close> and \<open>hi\<close> are bins of the output, which is when \<open>0 \<le> min0\<close> and
  \<open>max0 < bins\<close>, the iteration returns the arrays with the weight of bin \<open>k\<close> added to
  \<open>outCount[k]\<close> and the intensity times the weight added to \<open>outData[k]\<close> for every bin from
  \<open>lo\<close> to \<open>hi\<close>, the other entries unchanged, and these weights add up to 1; otherwise the
  iteration ends in a write outside the arrays. Over the reals every weight is finite and
  not negative, the weights of the bins \<open>lo, \<dots>, hi\<close> add up to 1, and the sum of the weights
  over the bins \<open>0, \<dots>, bins - 1\<close> of the output lies in \<open>[0, 1]\<close> and is 1 exactly when the
  pixel lies inside the output range \<open>[0, bins]\<close>.
\<close>

theorem partition_of_unity:
  assumes nskip: "\<not> skip1D inp idx"
    and p: "p = cpos inp ! idx" and q: "q = quad1D p r dpos"
    and dpos: "dpos \<noteq> 0"
    and cv: "pixel_convex p" and nd: "pixel_area p \<noteq> 0"
    and acc: "\<not> (qmax0 q < Fin 0 \<or> of_i bins \<le> qmin0 q)"
    and lo: "to_int (dfloor (qmin0 q)) = Inr lo" and hi: "to_int (dfloor (qmax0 q)) = Inr hi"
    and len: "length outData = length outCount" "int (length outCount) = bins"
    and data: "data = correct (cdark inp) (cflat inp) (cpolarization inp) (csolidangle inp) idx
                 (Fin (cdata inp ! idx))"
  shows "((0 \<le> lo \<and> hi < bins) = (Fin 0 \<le> qmin0 q \<and> qmax0 q < of_i bins)) \<and>
         (0 \<le> lo \<and> hi < bins \<longrightarrow>
            pixel1D inp r bins dpos False idx (outData, outCount) =
              Inr (map (\<lambda>k. if lo \<le> int k \<and> int k \<le> hi
                             then outData ! k + data * bin_weight q lo hi (int k)
                             else outData ! k) [0..<length outData],
                   map (\<lambda>k. outCount ! k + bin_weight q lo hi (int k)) [0..<length outCount]) \<and>
            inside_sum q lo hi bins = 1) \<and>
         (\<not> (0 \<le> lo \<and> hi < bins) \<longrightarrow>
            pixel1D inp r bins dpos False idx (outData, outCount) = Inl MemoryFault) \<and>
         (\<forall>k. \<exists>w. bin_weight q lo hi k = Fin w \<and> 0 \<le> w) \<and>
         sum_list (map (\<lambda>k. the_fin (bin_weight q lo hi k)) [lo..hi]) = 1 \<and>
         0 \<le> inside_sum q lo hi bins \<and> inside_sum q lo hi bins \<le> 1 \<and>
         (inside_sum q lo hi bins = 1 \<longleftrightarrow> fully_inside q bins)"
proof -
  have qF: "q = \<lparr>qa0 = Fin ((c00 p - pos0_min r) / dpos), qa1 = Fin (c01 p),
      qb0 = Fin ((c10 p - pos0_min r) / dpos), qb1 = Fin (c11 p),
      qc0 = Fin ((c20 p - pos0_min r) / dpos), qc1 = Fin (c21 p),
      qd0 = Fin ((c30 p - pos0_min r) / dpos), qd1 = Fin (c31 p)\<rparr>"
    unfolding q using dpos by (rule quad1D_Fin)
  have cv': "convex_quad ((c00 p - pos0_min r) / dpos) (c01 p) ((c10 p - pos0_min r) / dpos) (c11 p)
      ((c20 p - pos0_min r) / dpos) (c21 p) ((c30 p - pos0_min r) / dpos) (c31 p)"
    using cv unfolding pixel_convex_def by (rule convex_quad_scale)
  have nz': "area2 ((c00 p - pos0_min r) / dpos) (c01 p) ((c10 p - pos0_min r) / dpos) (c11 p)
      ((c20 p - pos0_min r) / dpos) (c21 p) ((c30 p - pos0_min r) / dpos) (c31 p) \<noteq> 0"
    using nd dpos unfolding area2_scale pixel_area_def by simp
  note P = quad_partition[OF qF cv' nz' acc lo hi]
  have dep: "pixel1D inp r bins dpos False idx (outData, outCount) =
      deposit1D q data (outData, outCount)"
    unfolding data using nskip q[unfolded p] acc by (rule pixel1D_accepted)
  note R = deposit1D_result[OF lo hi len(1) P(6), of data, unfolded len(2), folded dep]
  have inside: "inside_sum q lo hi bins = 1" if "0 \<le> lo \<and> hi < bins"
  proof -
    from that P(7) have "Fin 0 \<le> qmin0 q" "qmax0 q < of_i bins" by simp_all
    moreover from this(2) have "qmax0 q \<le> of_i bins"
      by (cases "qmax0 q") (simp_all add: of_i_def)
    ultimately show ?thesis using P(5) by (simp add: fully_inside_def)
  qed
  show ?thesis using P(1-5,7) R inside by blast
qed

lemma quad_mid:
  "quad1D p_mid r32 dpos32 =
     \<lparr>qa0 = Fin (4194304 / 8388609), qa1 = Fin 0, qb0 = Fin (12582912 / 8388609), qb1 = Fin 0,
      qc0 = Fin (12582912 / 8388609), qc1 = Fin 1, qd0 = Fin (4194304 / 8388609), qd1 = Fin 1\<rparr>"
  by (simp add: quad1D_def getBinNr_def divide_Fin p_mid_def px_def r32_def dpos32_def)

lemma quad_low:
  "quad1D p_low r32 dpos32 =
     \<lparr>qa0 = Fin (- 4194304 / 8388609), qa1 = Fin 0, qb0 = Fin (4194304 / 8388609), qb1 = Fin 0,
      qc0 = Fin (4194304 / 8388609), qc1 = Fin 1, qd0 = Fin (- 4194304 / 8388609), qd1 = Fin 1\<rparr>"
  by (simp add: quad1D_def getBinNr_def divide_Fin p_low_def px_def r32_def dpos32_def)

lemma weights_mid:
  "bin_weight (quad1D p_mid r32 dpos32) 0 1 0 = Fin (4194305 / 8388608)"
  "bin_weight (quad1D p_mid r32 dpos32) 0 1 1 = Fin (4194303 / 8388608)"
  "bin_weight (quad1D p_mid r32 dpos32) 0 1 2 = Fin 0"
  by (simp_all add: bin_weight_def p_mid_def dpos32_def r32_def ev1)

theorem partition_of_unity_witness:
  "pixel1D inp_mid r32 3 dpos32 False 0 ([Fin 0, Fin 0, Fin 0], [Fin 0, Fin 0, Fin 0]) =
     Inr ([Fin (20971525 / 4194304), Fin (20971515 / 4194304), Fin 0],
          [Fin (4194305 / 8388608), Fin (4194303 / 8388608), Fin 0]) \<and>
   inside_sum (quad1D p_mid r32 dpos32) 0 1 3 = 1 \<and>
   sum_list (map (\<lambda>k. the_fin (bin_weight (quad1D p_mid r32 dpos32) 0 1 k)) [0..1]) = 1 \<and>
   pixel1D inp_low r32 3 dpos32 False 0 ([Fin 0, Fin 0, Fin 0], [Fin 0, Fin 0, Fin 0])
     = Inl MemoryFault \<and>
   inside_sum (quad1D p_low r32 dpos32) (- 1) 0 3 \<noteq> 1 \<and>
   sum_list (map (\<lambda>k. the_fin (bin_weight (quad1D p_low r32 dpos32) (- 1) 0 k)) [- 1..0]) = 1"
proof -
  have d: "dpos32 \<noteq> 0" by (simp add: dpos32_def r32_def)
  have l1: "length [Fin 0, Fin 0, Fin 0 :: dbl] = length [Fin 0, Fin 0, Fin 0 :: dbl]" by simp
  have l2: "int (length [Fin 0, Fin 0, Fin 0 :: dbl]) = 3" by simp
  have h1: "\<not> skip1D inp_mid 0"
    by (simp add: skip1D_def inp_mid_def masked_def dummy_match_def)
  have h2: "p_mid = cpos inp_mid ! 0" by (simp add: inp_mid_def)
  have h3: "pixel_convex p_mid"
    by (simp add: pixel_convex_def convex_quad_def cross3_def p_mid_def px_def)
  have h4: "pixel_area p_mid \<noteq> 0"
    by (simp add: pixel_area_def area2_def p_mid_def px_def)
  have mn: "qmin0 (quad1D p_mid r32 dpos32) = Fin (4194304 / 8388609)"
    and mx: "qmax0 (quad1D p_mid r32 dpos32) = Fin (12582912 / 8388609)"
    by (simp_all add: quad_mid qmin0_def qmax0_def min4_Fin max4_Fin)
  have h5: "\<not> (qmax0 (quad1D p_mid r32 dpos32) < Fin 0 \<or>
      of_i 3 \<le> qmin0 (quad1D p_mid r32 dpos32))"
    by (simp add: mn mx of_i_def)
  have h6: "to_int (dfloor (qmin0 (quad1D p_mid r32 dpos32))) = Inr 0"
    and h7: "to_int (dfloor (qmax0 (quad1D p_mid r32 dpos32))) = Inr 1"
    by (simp_all add: mn mx)
  have h8: "Fin 10 = correct (cdark inp_mid) (cflat inp_mid) (cpolarization inp_mid)
      (csolidangle inp_mid) 0 (Fin (cdata inp_mid ! 0))"
    by (simp add: inp_mid_def correct_def)
  have g1: "\<not> skip1D inp_low 0"
    by (simp add: skip1D_def inp_low_def inp_mid_def masked_def dummy_match_def)
  have g2: "p_low = cpos inp_low ! 0" by (simp add: inp_low_def)
  have g3: "pixel_convex p_low"
    by (simp add: pixel_convex_def convex_quad_def cross3_def p_low_def px_def)
  have g4: "pixel_area p_low \<noteq> 0"
    by (simp add: pixel_area_def area2_def p_low_def px_def)
  have ln: "qmin0 (quad1D p_low r32 dpos32) = Fin (- 4194304 / 8388609)"
    and lx: "qmax0 (quad1D p_low r32 dpos32) = Fin (4194304 / 8388609)"
    by (simp_all add: quad_low qmin0_def qmax0_def min4_Fin max4_Fin)
  have g5: "\<not> (qmax0 (quad1D p_low r32 dpos32) < Fin 0 \<or>
      of_i 3 \<le> qmin0 (quad1D p_low r32 dpos32))"
    by (simp add: ln lx of_i_def)
  have g6: "to_int (dfloor (qmin0 (quad1D p_low r32 dpos32))) = Inr (- 1)"
    and g7: "to_int (dfloor (qmax0 (quad1D p_low r32 dpos32))) = Inr 0"
    by (simp_all add: ln lx ceiling_minus)
  have g8: "Fin 10 = correct (cdark inp_low) (cflat inp_low) (cpolarization inp_low)
      (csolidangle inp_low) 0 (Fin (cdata inp_low ! 0))"
    by (simp add: inp_low_def inp_mid_def correct_def)
  have g9: "\<not> fully_inside (quad1D p_low r32 dpos32) 3"
    by (simp add: fully_inside_def ln lx of_i_def)
  note t1 = partition_of_unity[OF h1 h2 refl d h3 h4 h5 h6 h7 l1 l2 h8]
  note t2 = partition_of_unity[OF g1 g2 refl d g3 g4 g5 g6 g7 l1 l2 g8]
  have w1: "pixel1D inp_mid r32 3 dpos32 False 0 ([Fin 0, Fin 0, Fin 0], [Fin 0, Fin 0, Fin 0]) =
     Inr ([Fin (20971525 / 4194304), Fin (20971515 / 4194304), Fin 0],
          [Fin (4194305 / 8388608), Fin (4194303 / 8388608), Fin 0]) \<and>
     inside_sum (quad1D p_mid r32 dpos32) 0 1 3 = 1 \<and>
     sum_list (map (\<lambda>k. the_fin (bin_weight (quad1D p_mid r32 dpos32) 0 1 k)) [0..1]) = 1"
    using t1 by (simp add: weights_mid)
  have w2: "pixel1D inp_low r32 3 dpos32 False 0 ([Fin 0, Fin 0, Fin 0], [Fin 0, Fin 0, Fin 0])
       = Inl MemoryFault \<and>
     inside_sum (quad1D p_low r32 dpos32) (- 1) 0 3 \<noteq> 1 \<and>
     sum_list (map (\<lambda>k. the_fin (bin_weight (quad1D p_low r32 dpos32) (- 1) 0 k)) [- 1..0]) = 1"
    using t2 g9 by simp
  from w1 w2 show ?thesis by blast
qed
end
